(* ===== verification/Eco_Prelude.thy ===== *)
theory Eco_Prelude
  imports Main "HOL-Library.Word" "HOL-Library.Signed_Division" "HOL-Library.State_Monad"
    "HOL-Library.Monad_Syntax" "HOL-Library.AList" "HOL-Library.Multiset"
    "HOL-Library.Char_ord" "HOL-Library.List_Lexorder"
begin

text \<open>
  What every component of the development shares: the Go types and the operations of the Go
  language and its standard library that the source uses (32-bit integers, strings, errors, the
  iteration order of maps), the collections of facts the component proofs are run with, and generic
  lemmas on strings, lists and the state monad.
\<close>

section \<open>Collections of facts\<close>

named_theorems trace_intro \<open>introduction rules for what a program may send to the API server\<close>
named_theorems does_rules \<open>how the calls of a program are computed\<close>
named_theorems run_simps \<open>how one step of a program runs\<close>
named_theorems name_simps \<open>unfolding of the naming functions\<close>

section \<open>32-bit integers\<close>

text \<open>
  Go's \<open>int32\<close>. Addition and subtraction wrap, as they do on words; comparison is signed and
  \<open>%\<close> truncates towards zero.
\<close>

type_synonym int32 = "32 word"

definition i32_le :: "int32 \<Rightarrow> int32 \<Rightarrow> bool" where
  "i32_le a b \<longleftrightarrow> sint a \<le> sint b"

definition i32_lt :: "int32 \<Rightarrow> int32 \<Rightarrow> bool" where
  "i32_lt a b \<longleftrightarrow> sint a < sint b"

definition i32_rem :: "int32 \<Rightarrow> int32 \<Rightarrow> int32" where
  "i32_rem a b = word_of_int (sint a smod sint b)"

lemma not_i32_le [simp]: "\<not> i32_le a b \<longleftrightarrow> i32_lt b a"
  by (auto simp: i32_le_def i32_lt_def)

lemma not_i32_lt [simp]: "\<not> i32_lt a b \<longleftrightarrow> i32_le b a"
  by (auto simp: i32_le_def i32_lt_def)

lemma i32_le_refl [simp]: "i32_le a a"
  by (simp add: i32_le_def)

lemma i32_rem_zero_left [simp]: "i32_rem 0 b = 0"
  by (simp add: i32_rem_def signed_modulo_int_def)

lemma sint_range: "- (2 ^ 31) \<le> sint (a :: int32)" "sint (a :: int32) < 2 ^ 31"
  using sint_ge [of a] sint_lt [of a] by simp_all

lemma i32_rem_eq_0_iff:
  assumes "0 < sint b"
  shows "i32_rem a b = 0 \<longleftrightarrow> sint b dvd sint a"
proof -
  have bnd: "\<bar>sint a smod sint b\<bar> < sint b"
    using assms by (simp add: signed_modulo_int_def abs_mult abs_sgn_eq)
  have "sint b < 2 ^ 31" using sint_range(2) [of b] .
  with bnd have small: "- (2 ^ 31) \<le> sint a smod sint b" "sint a smod sint b < 2 ^ 31"
    by auto
  have "sint (i32_rem a b) = sint a smod sint b"
    using small by (simp add: i32_rem_def sint_sbintrunc' signed_take_bit_int_eq_self)
  moreover have "i32_rem a b = 0 \<longleftrightarrow> sint (i32_rem a b) = 0"
    by (metis signed_0 signed_word_eqI)
  moreover have "sint a smod sint b = 0 \<longleftrightarrow> sint b dvd sint a"
    by (simp add: signed_modulo_int_def sgn_0_0 flip: dvd_eq_mod_eq_0)
       (use assms in auto)
  ultimately show ?thesis by simp
qed

section \<open>Strings\<close>

text \<open>
  A Go string is its bytes, a \<open>char list\<close>. \<open>strings.SplitN\<close> with a one-byte separator,
  \<open>strings.TrimRight\<close>, \<open>strings.ToLower\<close> (on ASCII), \<open>filepath.Ext\<close> and the decimal
  form of an integer are the operations of the standard library the source uses.
\<close>

text \<open>\<open>splitN sep n s\<close> is \<open>strings.SplitN(s, sep, n)\<close> for \<open>n \<ge> 1\<close>.\<close>

fun splitN :: "char \<Rightarrow> nat \<Rightarrow> string \<Rightarrow> string list" where
  "splitN sep 0 s = []"
| "splitN sep (Suc 0) s = [s]"
| "splitN sep (Suc (Suc n)) s =
     (let pre = takeWhile (\<lambda>c. c \<noteq> sep) s; rest = dropWhile (\<lambda>c. c \<noteq> sep) s
      in if rest = [] then [s] else pre # splitN sep (Suc n) (tl rest))"

definition trimRight :: "string \<Rightarrow> char \<Rightarrow> string" where
  "trimRight s c = rev (dropWhile (\<lambda>x. x = c) (rev s))"

definition lowerChar :: "char \<Rightarrow> char" where
  "lowerChar c = (if 65 \<le> (of_char c :: nat) \<and> (of_char c :: nat) \<le> 90
                  then char_of ((of_char c :: nat) + 32) else c)"

definition toLower :: "string \<Rightarrow> string" where
  "toLower s = map lowerChar s"

text \<open>\<open>filepath.Ext\<close>: the suffix from the last dot of the last path element, or empty.\<close>

definition fileExt :: "string \<Rightarrow> string" where
  "fileExt p =
     (let base = takeWhile (\<lambda>c. c \<noteq> CHR ''/'') (rev p);
          ext = takeWhile (\<lambda>c. c \<noteq> CHR ''.'') base
      in if length ext = length base then [] else CHR ''.'' # rev ext)"

fun natDigits :: "nat \<Rightarrow> string" where
  "natDigits n = (if n < 10 then [char_of (48 + n)] else natDigits (n div 10) @ [char_of (48 + n mod 10)])"

declare natDigits.simps [simp del]

definition showInt :: "int \<Rightarrow> string" where
  "showInt i = (if i < 0 then CHR ''-'' # natDigits (nat (- i)) else natDigits (nat i))"

text \<open>\<open>strconv.Quote\<close> on printable ASCII, which is what \<open>%q\<close> prints in the messages.\<close>

definition quote :: "string \<Rightarrow> string" where
  "quote s = CHR 0x22 # concat (map (\<lambda>c. if c = CHR 0x22 \<or> c = CHR 0x5C then [CHR 0x5C, c] else [c]) s) @ [CHR 0x22]"

fun joinWith :: "string \<Rightarrow> string list \<Rightarrow> string" where
  "joinWith sep [] = []"
| "joinWith sep [x] = x"
| "joinWith sep (x # y # ys) = x @ sep @ joinWith sep (y # ys)"

text \<open>\<open>%v\<close> of a slice of strings.\<close>

definition showStrings :: "string list \<Rightarrow> string" where
  "showStrings xs = ''['' @ joinWith '' '' xs @ '']''"

lemma splitN_cons:
  assumes "sep \<notin> set x"
  shows "splitN sep (Suc (Suc n)) (x @ sep # y) = x # splitN sep (Suc n) y"
proof -
  have "takeWhile (\<lambda>c. c \<noteq> sep) (x @ sep # y) = x"
    using assms by (induction x) auto
  moreover have "dropWhile (\<lambda>c. c \<noteq> sep) (x @ sep # y) = sep # y"
    using assms by (induction x) auto
  ultimately show ?thesis by (simp add: Let_def)
qed

lemma splitN_none:
  assumes "sep \<notin> set x"
  shows "splitN sep (Suc n) x = [x]"
proof (cases n)
  case (Suc m)
  have "dropWhile (\<lambda>c. c \<noteq> sep) x = []" using assms by (induction x) auto
  then show ?thesis by (simp add: Suc Let_def)
qed simp

lemma splitN_length: "length (splitN sep n s) \<le> n"
  by (induction sep n s rule: splitN.induct) (auto simp: Let_def)

lemma splitN_nonempty: "splitN sep (Suc n) s \<noteq> []"
proof (cases n)
  case (Suc m)
  then show ?thesis unfolding Suc splitN.simps(3) Let_def by (auto split: if_splits)
qed simp

text \<open>What is split joins back: \<open>SplitN\<close> loses nothing.\<close>

lemma splitN_join: "joinWith [sep] (splitN sep (Suc n) s) = s"
proof (induction n arbitrary: s)
  case (Suc n)
  let ?pre = "takeWhile (\<lambda>c. c \<noteq> sep) s" and ?rest = "dropWhile (\<lambda>c. c \<noteq> sep) s"
  show ?case
  proof (cases "?rest = []")
    case False
    then have hd: "hd ?rest = sep" using hd_dropWhile [of "\<lambda>c. c \<noteq> sep" s] by blast
    have "sep # tl ?rest = ?rest" using list.collapse [OF False] unfolding hd .
    then have s: "?pre @ sep # tl ?rest = s"
      using takeWhile_dropWhile_id [of "\<lambda>c. c \<noteq> sep" s] by metis
    obtain z zs where z: "splitN sep (Suc n) (tl ?rest) = z # zs"
      using splitN_nonempty [of sep n "tl ?rest"] by (meson list.exhaust)
    have "joinWith [sep] (splitN sep (Suc (Suc n)) s) = ?pre @ [sep] @ joinWith [sep] (z # zs)"
      unfolding splitN.simps(3) Let_def if_not_P [OF False] z by simp
    also have "joinWith [sep] (z # zs) = tl ?rest" using Suc.IH [of "tl ?rest"] z by simp
    also have "?pre @ [sep] @ tl ?rest = s" using s by (simp only: append_Cons append_Nil)
    finally show ?thesis .
  qed (simp add: Let_def)
qed simp

lemma append_sep_inject:
  fixes sep :: char
  assumes "sep \<notin> set a" "sep \<notin> set b" "a @ sep # x = b @ sep # y"
  shows "a = b \<and> x = y"
proof -
  have "splitN sep 2 (a @ sep # x) = splitN sep 2 (b @ sep # y)" using assms(3) by simp
  then have "a # splitN sep (Suc 0) x = b # splitN sep (Suc 0) y"
    by (simp only: numeral_2_eq_2 splitN_cons [OF assms(1)] splitN_cons [OF assms(2)])
  then show ?thesis by simp
qed

lemma append_suffix_inject: "x @ s = y @ s \<longleftrightarrow> x = y"
  by simp

section \<open>Errors\<close>

text \<open>
  A Go \<open>error\<close> is what \<open>err.Error()\<close> prints and what \<open>errors.IsNotFound\<close> and its kin
  answer, which see through wrapping with \<open>%w\<close>. A function that returns \<open>(T, error)\<close>
  returns \<open>goerr + T\<close>; one that returns \<open>error\<close> returns \<open>goerr option\<close>, with
  \<open>None\<close> for \<open>nil\<close>.
\<close>

datatype reason = NotFound | AlreadyExists | NoMatch | NotExist | OtherReason

datatype goerr = GoErr (err_reason: reason) (err_msg: string)

definition isNotFound :: "goerr \<Rightarrow> bool" where
  "isNotFound e \<longleftrightarrow> err_reason e = NotFound"

definition isAlreadyExists :: "goerr \<Rightarrow> bool" where
  "isAlreadyExists e \<longleftrightarrow> err_reason e = AlreadyExists"

definition isNoMatch :: "goerr \<Rightarrow> bool" where
  "isNoMatch e \<longleftrightarrow> err_reason e = NoMatch"

definition isNotExist :: "goerr \<Rightarrow> bool" where
  "isNotExist e \<longleftrightarrow> err_reason e = NotExist"

definition errorf :: "string \<Rightarrow> goerr" where
  "errorf m = GoErr OtherReason m"

text \<open>\<open>fmt.Errorf("<prefix>: %w", err)\<close>\<close>

definition wrapf :: "string \<Rightarrow> goerr \<Rightarrow> goerr" where
  "wrapf p e = GoErr (err_reason e) (p @ '': '' @ err_msg e)"

lemma wrapf_simps [simp]:
  "err_reason (wrapf p e) = err_reason e" "err_msg (wrapf p e) = p @ '': '' @ err_msg e"
  "isNotFound (wrapf p e) = isNotFound e"
  by (simp_all add: wrapf_def isNotFound_def)

section \<open>Iterating over a map\<close>

text \<open>
  Go ranges over a map in an order it does not specify. The order is drawn from a list of numbers
  the environment chooses: whatever it chooses, the result is a rearrangement of the entries.
\<close>

fun draw :: "nat list \<Rightarrow> 'a list \<Rightarrow> 'a list" where
  "draw [] xs = xs"
| "draw (n # ns) xs =
     (if xs = [] then []
      else (let i = n mod length xs in xs ! i # draw ns (take i xs @ drop (Suc i) xs)))"

lemma mset_draw [simp]: "mset (draw ns xs) = mset xs"
proof (induction ns arbitrary: xs)
  case (Cons n ns)
  show ?case
  proof (cases "xs = []")
    case False
    then have i: "n mod length xs < length xs" by simp
    have "mset xs = mset (take (n mod length xs) xs @ xs ! (n mod length xs) # drop (Suc (n mod length xs)) xs)"
      using id_take_nth_drop [OF i] by simp
    then show ?thesis using False by (simp add: Let_def Cons.IH)
  qed simp
qed simp

lemma set_draw [simp]: "set (draw ns xs) = set xs"
  using mset_draw [THEN mset_eq_setD] .

lemma length_draw [simp]: "length (draw ns xs) = length xs"
  using mset_draw [THEN mset_eq_length] .

lemma mset_concat_map_cong:
  assumes "mset xs = mset ys"
  shows "mset (concat (map f xs)) = mset (concat (map f ys))"
proof -
  have "mset (concat (map f zs)) = (\<Sum>x \<in># mset zs. mset (f x))" for zs
    by (induction zs) simp_all
  with assms show ?thesis by simp
qed

section \<open>The state monad\<close>

abbreviation ret :: "'a \<Rightarrow> ('s, 'a) state" where
  "ret x \<equiv> State_Monad.return x"

abbreviation run :: "('s, 'a) state \<Rightarrow> 's \<Rightarrow> 'a \<times> 's" where
  "run m s \<equiv> run_state m s"

lemma run_if [run_simps]: "run (if b then m else n) s = (if b then run m s else run n s)"
  by simp

lemma state_eqI: "(\<And>s. run m s = run n s) \<Longrightarrow> m = n"
  by (rule state_ext)

text \<open>
  Sequencing is not unfolded by default: most proofs take a run apart with elimination rules, and those
  that compute one name the collection.
\<close>

declare State_Monad.run_state_bind [simp del, run_simps]

text \<open>A loop whose body never stops it.\<close>

fun forEach :: "('a \<Rightarrow> ('s, 'b) state) \<Rightarrow> 'a list \<Rightarrow> ('s, unit) state" where
  "forEach body [] = ret ()"
| "forEach body (x # xs) = do { _ \<leftarrow> body x; forEach body xs }"

lemma forEach_append: "forEach body (xs @ ys) = do { _ \<leftarrow> forEach body xs; forEach body ys }"
  by (induction xs) simp_all

end
