(* ===== verification/Go_Float.thy ===== *)
theory Go_Float
  imports Eco_Prelude "HOL-Library.Log_Nat" "HOL-Library.Product_Lexorder"
begin

text \<open>
  Go's \<open>float64\<close>: IEEE 754 binary64 with round-to-nearest-even, as far as the measurement code
  uses it (\<open>+\<close>, \<open>-\<close>, \<open>*\<close>, \<open>/\<close>, \<open><\<close>, conversion from and to \<open>int32\<close>).
  A finite value is its sign and its magnitude, a rational; every operation is the exact rational
  result, rounded. Infinities, NaN and the two zeros are values of their own, because the code divides
  by user-given thresholds and Prometheus answers \<open>NaN\<close> and \<open>Inf\<close>. Operations are rounded one
  by one; a target that fuses a product and a sum is outside the model.
\<close>

section \<open>Rounding\<close>

definition pow2 :: "int \<Rightarrow> rat" where
  "pow2 e = (if 0 \<le> e then 2 ^ nat e else 1 / 2 ^ nat (- e))"

text \<open>\<open>ilog2 x\<close> is the exponent of the binade of a positive \<open>x\<close>.\<close>

definition ilog2 :: "rat \<Rightarrow> int" where
  "ilog2 x = (let (p, q) = quotient_of x; e = bitlen p - bitlen q
              in if pow2 e \<le> x then e else e - 1)"

text \<open>Round to the nearest integer, ties to even.\<close>

definition rne :: "rat \<Rightarrow> int" where
  "rne x = (let f = \<lfloor>x\<rfloor>; d = x - of_int f
            in if d < 1/2 then f else if 1/2 < d then f + 1 else if even f then f else f + 1)"

text \<open>The distance of neighbouring values in the binade of \<open>x\<close>, no finer than the subnormals'.\<close>

definition quantum :: "rat \<Rightarrow> rat" where
  "quantum x = pow2 (max (ilog2 x) (- 1022) - 52)"

definition roundMag :: "rat \<Rightarrow> rat" where
  "roundMag x = (if x = 0 then 0 else of_int (rne (x / quantum x)) * quantum x)"

datatype float64 = FNaN | FInf bool | FFin bool rat

definition mkFloat :: "bool \<Rightarrow> rat \<Rightarrow> float64" where
  "mkFloat neg x = (let m = roundMag x in if pow2 1024 \<le> m then FInf neg else FFin neg m)"

section \<open>Operations\<close>

definition signed :: "bool \<Rightarrow> rat \<Rightarrow> rat" where
  "signed neg m = (if neg then - m else m)"

definition fzero :: float64 where "fzero = FFin False 0"

definition fone :: float64 where "fone = FFin False 1"

fun fneg :: "float64 \<Rightarrow> float64" where
  "fneg FNaN = FNaN"
| "fneg (FInf s) = FInf (\<not> s)"
| "fneg (FFin s m) = FFin (\<not> s) m"

fun fadd :: "float64 \<Rightarrow> float64 \<Rightarrow> float64" where
  "fadd FNaN y = FNaN"
| "fadd x FNaN = FNaN"
| "fadd (FInf s) (FInf t) = (if s = t then FInf s else FNaN)"
| "fadd (FInf s) (FFin t b) = FInf s"
| "fadd (FFin s a) (FInf t) = FInf t"
| "fadd (FFin s a) (FFin t b) =
     (let v = signed s a + signed t b
      in if v = 0 then FFin (s \<and> t) 0 else mkFloat (v < 0) \<bar>v\<bar>)"

definition fsub :: "float64 \<Rightarrow> float64 \<Rightarrow> float64" where
  "fsub x y = fadd x (fneg y)"

fun fmul :: "float64 \<Rightarrow> float64 \<Rightarrow> float64" where
  "fmul FNaN y = FNaN"
| "fmul x FNaN = FNaN"
| "fmul (FInf s) (FInf t) = FInf (s \<noteq> t)"
| "fmul (FInf s) (FFin t b) = (if b = 0 then FNaN else FInf (s \<noteq> t))"
| "fmul (FFin s a) (FInf t) = (if a = 0 then FNaN else FInf (s \<noteq> t))"
| "fmul (FFin s a) (FFin t b) = mkFloat (s \<noteq> t) (a * b)"

fun fdiv :: "float64 \<Rightarrow> float64 \<Rightarrow> float64" where
  "fdiv FNaN y = FNaN"
| "fdiv x FNaN = FNaN"
| "fdiv (FInf s) (FInf t) = FNaN"
| "fdiv (FInf s) (FFin t b) = FInf (s \<noteq> t)"
| "fdiv (FFin s a) (FInf t) = FFin (s \<noteq> t) 0"
| "fdiv (FFin s a) (FFin t b) =
     (if b = 0 then (if a = 0 then FNaN else FInf (s \<noteq> t)) else mkFloat (s \<noteq> t) (a / b))"

text \<open>
  Comparison is false as soon as one side is NaN; the other values are ordered by
  \<open>fkey\<close>, minus infinity first.
\<close>

definition isNaN :: "float64 \<Rightarrow> bool" where
  "isNaN x \<longleftrightarrow> x = FNaN"

fun isFinite :: "float64 \<Rightarrow> bool" where
  "isFinite (FFin s m) = True"
| "isFinite _ = False"

fun fkey :: "float64 \<Rightarrow> int \<times> rat" where
  "fkey FNaN = (0, 0)"
| "fkey (FInf s) = (if s then - 1 else 1, 0)"
| "fkey (FFin s m) = (0, signed s m)"

definition flt :: "float64 \<Rightarrow> float64 \<Rightarrow> bool" where
  "flt x y \<longleftrightarrow> \<not> isNaN x \<and> \<not> isNaN y \<and> fkey x < fkey y"

definition fle :: "float64 \<Rightarrow> float64 \<Rightarrow> bool" where
  "fle x y \<longleftrightarrow> \<not> isNaN x \<and> \<not> isNaN y \<and> fkey x \<le> fkey y"

definition floatOfInt :: "int \<Rightarrow> float64" where
  "floatOfInt i = mkFloat (i < 0) (of_int \<bar>i\<bar>)"

text \<open>
  \<open>int32(f)\<close> truncates towards zero. For a value outside the range of \<open>int32\<close> the Go
  specification leaves the result to the implementation: it is the parameter \<open>ov\<close>.
\<close>

fun int32OfFloat :: "(float64 \<Rightarrow> int32) \<Rightarrow> float64 \<Rightarrow> int32" where
  "int32OfFloat ov (FFin s m) =
     (let i = (if s then - \<lfloor>m\<rfloor> else \<lfloor>m\<rfloor>)
      in if - (2 ^ 31) \<le> i \<and> i < 2 ^ 31 then word_of_int i else ov (FFin s m))"
| "int32OfFloat ov x = ov x"

section \<open>Facts about rounding\<close>

lemma pow2_pos [simp]: "0 < pow2 e" "0 \<le> pow2 e" "pow2 e \<noteq> 0"
  by (simp_all add: pow2_def)

lemma pow2_powi: "pow2 e = 2 powi e"
  by (simp add: pow2_def power_int_def power_one_over inverse_eq_divide)

lemma pow2_add: "pow2 (a + b) = pow2 a * pow2 b"
  by (simp add: pow2_powi power_int_add)

lemma pow2_0 [simp]: "pow2 0 = 1"
  by (simp add: pow2_def)

lemma pow2_mono: "a \<le> b \<Longrightarrow> pow2 a \<le> pow2 b"
  by (simp add: pow2_powi power_int_increasing)

lemma pow2_strict_mono: "a < b \<Longrightarrow> pow2 a < pow2 b"
  by (simp add: pow2_powi power_int_strict_increasing)

lemma pow2_less_imp: "pow2 a < pow2 b \<Longrightarrow> a < b"
  by (metis linorder_not_less pow2_mono)

lemma rne_mono_int: "x \<le> of_int n \<Longrightarrow> rne x \<le> n"
proof -
  assume le: "x \<le> of_int n"
  show "rne x \<le> n"
  proof (cases "x = of_int n")
    case True
    then show ?thesis by (simp add: rne_def)
  next
    case False
    with le have "x < of_int n" by simp
    then have "\<lfloor>x\<rfloor> + 1 \<le> n" by (simp add: add1_zle_eq floor_less_iff)
    then show ?thesis by (simp add: rne_def Let_def)
  qed
qed

lemma rne_ge_int: "of_int n \<le> x \<Longrightarrow> n \<le> rne x"
  using le_floor_iff [of n x] by (simp add: rne_def Let_def)

lemma rne_of_int [simp]: "rne (of_int n) = n"
  by (simp add: rne_def)

lemma quantum_pos [simp]: "0 < quantum x" "0 \<le> quantum x" "quantum x \<noteq> 0"
  by (simp_all add: quantum_def)

lemma roundMag_nonneg: "0 \<le> x \<Longrightarrow> 0 \<le> roundMag x"
  using rne_ge_int [of 0 "x / quantum x"] by (simp add: roundMag_def)

text \<open>The exponent search finds the binade.\<close>

lemma bitlen_rat_bounds:
  assumes "0 < p"
  shows "pow2 (bitlen p - 1) \<le> of_int p" "(of_int p :: rat) < pow2 (bitlen p)"
proof -
  have b: "0 < bitlen p" using bitlen_bounds [OF assms] assms bitlen_nonneg [of p]
    by (cases "bitlen p = 0") auto
  have "2 ^ nat (bitlen p - 1) \<le> p" "p < 2 ^ nat (bitlen p)"
    using bitlen_bounds [OF assms] by auto
  then have "(of_int (2 ^ nat (bitlen p - 1)) :: rat) \<le> of_int p"
    "(of_int p :: rat) < of_int (2 ^ nat (bitlen p))"
    by (simp_all only: of_int_le_iff of_int_less_iff)
  with b show "pow2 (bitlen p - 1) \<le> of_int p" "(of_int p :: rat) < pow2 (bitlen p)"
    by (simp_all add: pow2_def)
qed

lemma ilog2_bounds:
  assumes "0 < x"
  shows "pow2 (ilog2 x) \<le> x" "x < pow2 (ilog2 x + 1)"
proof -
  obtain p q where pq: "quotient_of x = (p, q)" by fastforce
  have q: "0 < q" using quotient_of_denom_pos [OF pq] .
  have x: "x = of_int p / of_int q" using quotient_of_div [OF pq] .
  have p: "0 < p" using assms q unfolding x by (simp add: zero_less_divide_iff)
  let ?e = "bitlen p - bitlen q"
  have up: "x < pow2 (?e + 1)"
  proof -
    have "x < pow2 (bitlen p) / of_int q"
      using bitlen_rat_bounds(2) [OF p] q unfolding x by (simp add: divide_strict_right_mono)
    also have "\<dots> \<le> pow2 (bitlen p) / pow2 (bitlen q - 1)"
      using bitlen_rat_bounds(1) [OF q] q by (intro divide_left_mono) auto
    also have "\<dots> = pow2 (?e + 1)"
      using pow2_add [of "?e + 1" "bitlen q - 1"] by (simp add: field_simps)
    finally show ?thesis .
  qed
  have low: "pow2 (?e - 1) \<le> x"
  proof -
    have "pow2 (?e - 1) = pow2 (bitlen p - 1) / pow2 (bitlen q)"
      using pow2_add [of "?e - 1" "bitlen q"] by (simp add: field_simps)
    also have "\<dots> \<le> of_int p / pow2 (bitlen q)"
      using bitlen_rat_bounds(1) [OF p] by (simp add: divide_right_mono)
    also have "\<dots> \<le> of_int p / of_int q"
      using bitlen_rat_bounds(2) [OF q] p q by (intro divide_left_mono) auto
    finally show ?thesis unfolding x .
  qed
  show "pow2 (ilog2 x) \<le> x" using low by (simp add: ilog2_def pq Let_def)
  show "x < pow2 (ilog2 x + 1)" using up by (simp add: ilog2_def pq Let_def)
qed

text \<open>Rounding does not leave the unit interval.\<close>

lemma roundMag_unit:
  assumes "0 \<le> x" "x \<le> 1"
  shows "roundMag x \<le> 1"
proof (cases "x = 0 \<or> x = 1")
  case True
  then show ?thesis
  proof
    assume "x = 1"
    moreover have "ilog2 1 = 0" by (simp add: ilog2_def)
    moreover have "1 / pow2 (- 52) = (of_int (2 ^ 52) :: rat)" by (simp add: pow2_def)
    ultimately show ?thesis
      by (simp only: roundMag_def quantum_def rne_of_int max_def) (simp add: pow2_def rne_def)
  qed (simp add: roundMag_def)
next
  case False
  with assms have x: "0 < x" "x < 1" by auto
  have "ilog2 x < 0"
    using ilog2_bounds(1) [OF x(1)] x(2) pow2_less_imp [of "ilog2 x" 0] by simp
  let ?e = "max (ilog2 x) (- 1022)"
  have e: "?e + 1 \<le> 0" using \<open>ilog2 x < 0\<close> by simp
  have "x < pow2 (?e + 1)"
    using ilog2_bounds(2) [OF x(1)] pow2_mono [of "ilog2 x + 1" "?e + 1"] by auto
  moreover have "pow2 (?e + 1) = of_int (2 ^ 53) * quantum x"
  proof -
    have "pow2 (?e + 1) = pow2 53 * pow2 (?e - 52)" 
      using pow2_add [of 53 "?e - 52"] by (simp add: algebra_simps)
    then show ?thesis by (simp add: quantum_def pow2_def [of 53])
  qed
  ultimately have "x / quantum x \<le> of_int (2 ^ 53)"
    by (simp add: pos_divide_le_eq)
  then have "rne (x / quantum x) \<le> 2 ^ 53" by (rule rne_mono_int)
  then have "of_int (rne (x / quantum x)) * quantum x \<le> of_int (2 ^ 53) * quantum x"
    by (intro mult_right_mono) (simp_all only: of_int_le_iff quantum_pos)
  also have "\<dots> = pow2 (?e + 1)" using \<open>pow2 (?e + 1) = _\<close> by simp
  also have "\<dots> \<le> 1" using pow2_mono [OF e] by simp
  finally show ?thesis using False by (simp add: roundMag_def)
qed

lemma one_less_pow2_1024: "(1 :: rat) < pow2 1024"
  using pow2_strict_mono [of 0 1024] by simp

lemma mkFloat_unit:
  assumes "0 \<le> x" "x \<le> 1"
  obtains r where "mkFloat s x = FFin s r" "0 \<le> r" "r \<le> 1"
  using roundMag_unit [OF assms] roundMag_nonneg [OF assms(1)] one_less_pow2_1024
  by (auto simp: mkFloat_def Let_def)

text \<open>Integers of up to 53 bits are represented exactly.\<close>

lemma roundMag_int:
  assumes "0 \<le> n" "n < 2 ^ 53"
  shows "roundMag (of_int n) = of_int n"
proof (cases "n = 0")
  case False
  let ?x = "of_int n :: rat"
  let ?e = "ilog2 ?x"
  have n: "0 < n" "0 < ?x" "1 \<le> ?x" using assms(1) False by auto
  have x53: "?x < pow2 53" using assms(2) by (simp add: pow2_def)
  have e: "0 \<le> ?e" "?e \<le> 52"
    using ilog2_bounds [OF n(2)] n(3) x53 pow2_less_imp [of 0 "?e + 1"] pow2_less_imp [of ?e 53] by auto
  have "?x / quantum ?x = ?x * pow2 (52 - ?e)"
    using e pow2_add [of "?e - 52" "52 - ?e"] by (simp add: quantum_def max_def field_simps)
  also have "\<dots> = of_int (n * 2 ^ nat (52 - ?e))" using e by (simp add: pow2_def)
  finally have q: "?x / quantum ?x = of_int (n * 2 ^ nat (52 - ?e))" .
  have "roundMag ?x = of_int (rne (?x / quantum ?x)) * quantum ?x" using n by (simp add: roundMag_def)
  also have "of_int (rne (?x / quantum ?x)) = ?x / quantum ?x" unfolding q by (simp only: rne_of_int)
  finally show ?thesis by simp
qed (simp add: roundMag_def)

lemma mkFloat_int:
  assumes "0 \<le> n" "n < 2 ^ 53"
  shows "mkFloat s (of_int n) = FFin s (of_int n)"
proof -
  have "(of_int n :: rat) < of_int (2 ^ 53)" using assms(2) by (simp only: of_int_less_iff)
  also have "\<dots> = pow2 53" by (simp add: pow2_def)
  also have "\<dots> < pow2 1024" by (rule pow2_strict_mono) simp
  finally show ?thesis by (simp add: mkFloat_def Let_def roundMag_int [OF assms])
qed

lemma mkFloat_numeral [simp]:
  "numeral k < (2 :: int) ^ 53 \<Longrightarrow> mkFloat s (numeral k) = FFin s (numeral k)"
  using mkFloat_int [of "numeral k" s] by simp

lemma mkFloat_01 [simp]: "mkFloat s 0 = FFin s 0" "mkFloat s 1 = FFin s 1"
  using mkFloat_int [of 0 s] mkFloat_int [of 1 s] by simp_all

lemma floatOfInt_int32: "floatOfInt (sint (c :: int32)) = FFin (sint c < 0) \<bar>of_int (sint c)\<bar>"
proof -
  have "\<bar>sint c\<bar> < 2 ^ 53" using sint_range [of c] by (simp add: abs_if)
  then show ?thesis using mkFloat_int [of "\<bar>sint c\<bar>"] by (simp add: floatOfInt_def)
qed

section \<open>Facts about the operations\<close>

lemma flt_irrefl [simp]: "\<not> flt x x"
  by (simp add: flt_def)

lemma flt_trans: "flt x y \<Longrightarrow> flt y z \<Longrightarrow> flt x z"
  by (auto simp: flt_def)

lemma fle_trans: "fle x y \<Longrightarrow> fle y z \<Longrightarrow> fle x z"
  by (auto simp: fle_def)

lemma fle_refl: "\<not> isNaN x \<Longrightarrow> fle x x"
  by (simp add: fle_def)

lemma not_flt: "\<not> isNaN x \<Longrightarrow> \<not> isNaN y \<Longrightarrow> \<not> flt x y \<longleftrightarrow> fle y x"
  by (auto simp: flt_def fle_def)

lemma flt_imp_fle: "flt x y \<Longrightarrow> fle x y"
  by (auto simp: flt_def fle_def)

lemma flt_notNaN: "flt x y \<Longrightarrow> \<not> isNaN x \<and> \<not> isNaN y"
  by (simp add: flt_def)

lemma flt_fin [simp]: "flt (FFin s a) (FFin t b) \<longleftrightarrow> signed s a < signed t b"
  by (simp add: flt_def isNaN_def)

lemma fle_fin [simp]: "fle (FFin s a) (FFin t b) \<longleftrightarrow> signed s a \<le> signed t b"
  by (simp add: fle_def isNaN_def)

text \<open>\<open>1 - a / b\<close> for \<open>0 \<le> a \<le> b\<close>, \<open>b > 0\<close> stays between 0 and 1.\<close>

lemma one_minus_quotient_unit:
  assumes "0 \<le> a" "a \<le> b" "0 < b"
  obtains r where "fsub fone (fdiv (FFin False a) (FFin False b)) = FFin False r" "0 \<le> r" "r \<le> 1"
proof -
  from assms have "0 \<le> a / b" "a / b \<le> 1" by simp_all
  then obtain q where q: "mkFloat False (a / b) = FFin False q" "0 \<le> q" "q \<le> 1"
    by (rule mkFloat_unit)
  have "0 \<le> 1 - q" "1 - q \<le> 1" using q by simp_all
  then obtain r where r: "mkFloat False (1 - q) = FFin False r" "0 \<le> r" "r \<le> 1"
    by (rule mkFloat_unit)
  have "fsub fone (fdiv (FFin False a) (FFin False b)) =
      (if q = 1 then FFin False 0 else FFin False r)"
    using q r assms(3) by (simp add: fsub_def fone_def signed_def Let_def)
  with r that show thesis by (cases "q = 1") auto
qed

section \<open>Rounding and dyadic bounds\<close>

text \<open>
  Rounding does not step over a value that the binade of \<open>x\<close> can represent: a multiple of a power of
  two that is at least the quantum.
\<close>

lemma dyadic_multiple:
  assumes "max (ilog2 x) (- 1022) - 52 \<le> e"
  obtains m where "of_int n * pow2 e = of_int m * quantum x"
proof
  let ?q = "max (ilog2 x) (- 1022) - 52"
  have "pow2 e = pow2 (e - ?q) * pow2 ?q" using pow2_add [of "e - ?q" ?q] by simp
  moreover have "pow2 (e - ?q) = of_int (2 ^ nat (e - ?q))" using assms by (simp add: pow2_def)
  ultimately show "of_int n * pow2 e = of_int (n * 2 ^ nat (e - ?q)) * quantum x"
    by (simp add: quantum_def)
qed

lemma roundMag_dyadic:
  assumes "0 < x" "max (ilog2 x) (- 1022) - 52 \<le> e"
  shows "x \<le> of_int n * pow2 e \<Longrightarrow> roundMag x \<le> of_int n * pow2 e"
    and "of_int n * pow2 e \<le> x \<Longrightarrow> of_int n * pow2 e \<le> roundMag x"
proof -
  obtain m where m: "of_int n * pow2 e = of_int m * quantum x"
    using dyadic_multiple [OF assms(2)] .
  {
    assume "x \<le> of_int n * pow2 e"
    then have "x / quantum x \<le> of_int m" by (simp add: m pos_divide_le_eq)
    then have "rne (x / quantum x) \<le> m" by (rule rne_mono_int)
    then have "of_int (rne (x / quantum x)) * quantum x \<le> of_int m * quantum x"
      by (intro mult_right_mono) (simp_all only: of_int_le_iff quantum_pos)
    then show "roundMag x \<le> of_int n * pow2 e" using assms(1) by (simp add: roundMag_def m)
  }
  {
    assume "of_int n * pow2 e \<le> x"
    then have "of_int m \<le> x / quantum x" by (simp add: m pos_le_divide_eq)
    then have "m \<le> rne (x / quantum x)" by (rule rne_ge_int)
    then have "of_int m * quantum x \<le> of_int (rne (x / quantum x)) * quantum x"
      by (intro mult_right_mono) (simp_all only: of_int_le_iff quantum_pos)
    then show "of_int n * pow2 e \<le> roundMag x" using assms(1) by (simp add: roundMag_def m)
  }
qed

lemma ilog2_less: "0 < x \<Longrightarrow> x < pow2 e \<Longrightarrow> ilog2 x < e"
  using ilog2_bounds(1) [of x] pow2_less_imp [of "ilog2 x" e] by simp

text \<open>A sum of a whole number and a rounded fraction keeps its whole part.\<close>

lemma whole_plus_fraction:
  assumes "0 \<le> n" "n < 2 ^ 22" "0 \<le> q" "q \<le> 1 - pow2 (- 30)"
  shows "\<exists>r. mkFloat False (of_int n + q) = FFin False r \<and> \<lfloor>r\<rfloor> = n"
proof (cases "of_int n + q = 0")
  case True
  with assms have "of_int n = (0 :: rat)" by linarith
  with True show ?thesis by simp
next
  case False
  let ?x = "of_int n + q"
  have n: "of_int n < (2 ^ 22 :: rat)" "0 \<le> (of_int n :: rat)"
    using assms(1,2) by (simp_all only: of_int_0_le_iff of_int_less_numeral_power_cancel_iff)
  have x: "0 < ?x" using n(2) assms(3) False by linarith
  have "of_int n + 1 \<le> (of_int (2 ^ 22) :: rat)" using assms(2)
    by (metis add1_zle_eq of_int_1 of_int_add of_int_le_iff)
  moreover have "(0 :: rat) < pow2 (- 30)" "(of_int (2 ^ 22) :: rat) = pow2 22" by (simp_all add: pow2_def)
  ultimately have "?x < pow2 22" using assms(4) by linarith
  with x have "ilog2 ?x < 22" by (rule ilog2_less)
  then have prec: "max (ilog2 ?x) (- 1022) - 52 \<le> - 30" by simp
  have N: "of_int m = (of_int (m * 2 ^ 30) * pow2 (- 30) :: rat)" for m by (simp add: pow2_def)
  have N': "of_int (n + 1) - pow2 (- 30) = (of_int ((n + 1) * 2 ^ 30 - 1) * pow2 (- 30) :: rat)"
    by (simp add: pow2_def field_simps)
  have "of_int (n * 2 ^ 30) * pow2 (- 30) \<le> ?x" using assms(3) N [of n] by linarith
  from roundMag_dyadic(2) [OF x prec this] have lo: "of_int n \<le> roundMag ?x" unfolding N [of n, symmetric] .
  have "?x \<le> of_int ((n + 1) * 2 ^ 30 - 1) * pow2 (- 30)" using assms(4) N' by linarith
  from roundMag_dyadic(1) [OF x prec this] have hi: "roundMag ?x \<le> of_int (n + 1) - pow2 (- 30)"
    unfolding N' [symmetric] .
  have "roundMag ?x < of_int (n + 1)" using hi pow2_pos(1) [of "- 30"] by linarith
  then have "\<lfloor>roundMag ?x\<rfloor> = n" using lo by (simp add: floor_eq_iff)
  moreover have "\<not> pow2 1024 \<le> roundMag ?x"
    using \<open>roundMag ?x < _\<close> \<open>of_int n + 1 \<le> _\<close> \<open>of_int (2 ^ 22) = pow2 22\<close> pow2_mono [of 22 1024] by simp
  ultimately show ?thesis by (simp add: mkFloat_def Let_def)
qed

section \<open>Durations\<close>

text \<open>\<open>time.Duration.Seconds()\<close> of a duration in nanoseconds.\<close>

definition nanosPerSecond :: int where
  "nanosPerSecond = 1000000000"

definition durationSeconds :: "int \<Rightarrow> float64" where
  "durationSeconds d =
     (let sec = d sdiv nanosPerSecond; nsec = d smod nanosPerSecond
      in fadd (floatOfInt sec) (fdiv (floatOfInt nsec) (floatOfInt nanosPerSecond)))"

lemma nanos_fraction:
  assumes "0 \<le> nsec" "nsec < nanosPerSecond"
  obtains q where "fdiv (floatOfInt nsec) (floatOfInt nanosPerSecond) = FFin False q" "0 \<le> q" "q \<le> 1 - pow2 (- 30)"
proof -
  let ?x = "of_int nsec / of_int nanosPerSecond :: rat"
  have "nsec < 2 ^ 53" using assms(2) by (simp add: nanosPerSecond_def)
  then have fl: "floatOfInt nsec = FFin False (of_int nsec)" "floatOfInt nanosPerSecond = FFin False 1000000000"
    using mkFloat_int [of nsec] assms(1) by (simp_all add: floatOfInt_def nanosPerSecond_def)
  have div: "fdiv (floatOfInt nsec) (floatOfInt nanosPerSecond) = mkFloat False ?x"
    unfolding fl using assms(1) by (simp add: nanosPerSecond_def)
  show thesis
  proof (cases "nsec = 0")
    case True
    with div have "fdiv (floatOfInt nsec) (floatOfInt nanosPerSecond) = FFin False 0" by simp
    then show thesis by (rule that) (simp_all add: pow2_def)
  next
    case False
    have "of_int nsec \<le> (of_int (nanosPerSecond - 1) :: rat)"
      using assms(2) by (intro of_int_le_iff [THEN iffD2]) simp
    then have le: "?x \<le> 999999999 / 1000000000" by (simp add: nanosPerSecond_def)
    have x: "0 < ?x" using False assms(1) by (simp add: nanosPerSecond_def)
    have prec: "max (ilog2 ?x) (- 1022) - 52 \<le> - 30"
      using ilog2_less [OF x, of 0] le by simp
    have dy: "of_int (2 ^ 30 - 1) * pow2 (- 30) = 1 - pow2 (- 30)" by (simp add: pow2_def)
    have "?x \<le> 1 - pow2 (- 30)" by (rule order_trans [OF le]) (simp add: pow2_def)
    then have up: "roundMag ?x \<le> 1 - pow2 (- 30)"
      using roundMag_dyadic(1) [OF x prec, of "2 ^ 30 - 1"] unfolding dy by blast
    have "roundMag ?x < pow2 1024" using up one_less_pow2_1024 pow2_pos(1) [of "- 30"] by linarith
    then have "mkFloat False ?x = FFin False (roundMag ?x)" by (simp add: mkFloat_def Let_def)
    with div up roundMag_nonneg [of ?x] x show thesis by (intro that [of "roundMag ?x"]) simp_all
  qed
qed

text \<open>Up to 48 days the whole seconds of a duration survive the two roundings.\<close>

lemma int32_durationSeconds:
  assumes "0 \<le> d" "d < 2 ^ 22 * nanosPerSecond"
  shows "int32OfFloat ov (durationSeconds d) = word_of_int (d div nanosPerSecond)"
proof -
  let ?n = "d div nanosPerSecond"
  have N: "0 < nanosPerSecond" by (simp add: nanosPerSecond_def)
  have n: "0 \<le> ?n" "?n < 2 ^ 22"
    using assms by (simp_all add: nanosPerSecond_def) presburger?
  have sd: "d sdiv nanosPerSecond = ?n" "d smod nanosPerSecond = d mod nanosPerSecond"
    using assms(1) N by (simp_all add: signed_divide_int_def signed_modulo_int_def sgn_if minus_mult_div_eq_mod)
  obtain q where q: "fdiv (floatOfInt (d mod nanosPerSecond)) (floatOfInt nanosPerSecond) = FFin False q"
    "0 \<le> q" "q \<le> 1 - pow2 (- 30)"
    using nanos_fraction [of "d mod nanosPerSecond"] N by auto
  have fn: "floatOfInt ?n = FFin False (of_int ?n)"
    using mkFloat_int [of ?n] n by (simp add: floatOfInt_def)
  obtain r where r: "mkFloat False (of_int ?n + q) = FFin False r" "\<lfloor>r\<rfloor> = ?n"
    using whole_plus_fraction [OF n q(2,3)] by blast
  have "0 \<le> of_int ?n + q" using n(1) q(2) by simp
  then have "durationSeconds d = FFin False r \<or> (durationSeconds d = FFin False 0 \<and> ?n = 0)"
    using r q(2) n(1) by (auto simp: durationSeconds_def sd q(1) fn signed_def Let_def)
  then show ?thesis using r(2) n by auto
qed


section \<open>Binary64 values\<close>

text \<open>
  The floats that Go's \<open>float64\<close> can hold: a magnitude that rounding leaves alone. Every operation yields
  one.
\<close>

fun isFloat64 :: "float64 \<Rightarrow> bool" where
  "isFloat64 (FFin s m) \<longleftrightarrow> 0 \<le> m \<and> mkFloat s m = FFin s m"
| "isFloat64 _ \<longleftrightarrow> True"

lemma mkFloat_sign: "mkFloat s m = FFin t r \<longleftrightarrow> s = t \<and> mkFloat False m = FFin False r"
  by (auto simp: mkFloat_def Let_def split: if_splits)

lemma roundMag_idem:
  assumes "0 \<le> x"
  shows "roundMag (roundMag x) = roundMag x"
proof (cases "x = 0 \<or> roundMag x = 0")
  case False
  let ?r = "roundMag x" and ?e = "max (ilog2 x) (- 1022)"
  have x: "0 < x" and r: "0 < ?r" using False assms roundMag_nonneg [OF assms] by auto
  have q: "?r = of_int (rne (x / quantum x)) * pow2 (?e - 52)" using x by (simp add: roundMag_def quantum_def)
  have "x \<le> pow2 (ilog2 x + 1)" using ilog2_bounds(2) [OF x] by simp
  also have "\<dots> \<le> pow2 (?e + 1)" by (rule pow2_mono) simp
  finally have le: "?r \<le> pow2 (?e + 1)" using roundMag_dyadic(1) [OF x, of "?e + 1" 1] by simp
  show ?thesis
  proof (cases "?r < pow2 (?e + 1)")
    case True
    then have "max (ilog2 ?r) (- 1022) - 52 \<le> ?e - 52" using ilog2_less [OF r True] by simp
    from roundMag_dyadic [OF r this, of "rne (x / quantum x)"] show ?thesis unfolding q [symmetric] by simp
  next
    case False
    with le have eq: "?r = of_int 1 * pow2 (?e + 1)" by simp
    have "ilog2 ?r < ?e + 2" by (rule ilog2_less [OF r]) (simp add: eq pow2_strict_mono)
    then have "max (ilog2 ?r) (- 1022) - 52 \<le> ?e + 1" by simp
    from roundMag_dyadic [OF r this, of 1] show ?thesis unfolding eq [symmetric] by simp
  qed
qed (auto simp: roundMag_def)

named_theorems float_types "binary64 values are made of binary64 values"

lemma isFloat64_mkFloat [float_types]: "0 \<le> x \<Longrightarrow> isFloat64 (mkFloat s x)"
  using roundMag_idem [of x] roundMag_nonneg [of x] by (auto simp: mkFloat_def Let_def)

lemma isFloat64_zero [float_types]: "isFloat64 (FFin s 0)" "isFloat64 fzero" "isFloat64 fone"
  by (simp_all add: fzero_def fone_def)

lemma isFloat64_fneg [float_types]: "isFloat64 x \<Longrightarrow> isFloat64 (fneg x)"
  by (cases x) (auto simp: mkFloat_def Let_def split: if_splits)

lemma isFloat64_fadd [float_types]: "isFloat64 x \<Longrightarrow> isFloat64 y \<Longrightarrow> isFloat64 (fadd x y)"
  by (cases x; cases y) (simp_all add: Let_def float_types)

lemma isFloat64_fsub [float_types]: "isFloat64 x \<Longrightarrow> isFloat64 y \<Longrightarrow> isFloat64 (fsub x y)"
  by (simp add: fsub_def float_types)

lemma isFloat64_fmul [float_types]: "isFloat64 x \<Longrightarrow> isFloat64 y \<Longrightarrow> isFloat64 (fmul x y)"
  by (cases x; cases y) (simp_all add: float_types)

lemma isFloat64_fdiv [float_types]: "isFloat64 x \<Longrightarrow> isFloat64 y \<Longrightarrow> isFloat64 (fdiv x y)"
  by (cases x; cases y) (simp_all add: float_types)

lemma isFloat64_floatOfInt [float_types]: "isFloat64 (floatOfInt i)"
  by (simp add: floatOfInt_def float_types)

end
