(* ===== verification/Go_Strconv.thy ===== *)
theory Go_Strconv
  imports Go_Float
begin

text \<open>
  Go's \<open>strconv\<close> on \<open>float64\<close>: \<open>ParseFloat\<close>, which reads the values Prometheus answers and the numbers of a
  JSON document, and the shortest decimal form, in which \<open>encoding/json\<close> writes a float. Go computes both
  with fast paths that fall back to exact arithmetic; the exact arithmetic is what is modelled. The last
  section shows that what is written reads back as the same value.
\<close>

section \<open>Digits\<close>

definition isDigit :: "char \<Rightarrow> bool" where
  "isDigit x \<longleftrightarrow> 48 \<le> (of_char x :: nat) \<and> (of_char x :: nat) \<le> 57"

definition hexValue :: "char \<Rightarrow> nat option" where
  "hexValue x = (let n = (of_char x :: nat) in
     if 48 \<le> n \<and> n \<le> 57 then Some (n - 48)
     else if 97 \<le> n \<and> n \<le> 102 then Some (n - 87)
     else if 65 \<le> n \<and> n \<le> 70 then Some (n - 55) else None)"

definition digitIn :: "nat \<Rightarrow> char \<Rightarrow> nat option" where
  "digitIn base x = (case hexValue x of
     Some d \<Rightarrow> if d < base then Some d else None
   | None \<Rightarrow> None)"

section \<open>ParseFloat\<close>

text \<open>The sign in front, if there is one.\<close>

fun splitSign :: "string \<Rightarrow> string \<times> string" where
  "splitSign [] = ([], [])"
| "splitSign (x # xs) = (if x = CHR ''-'' \<or> x = CHR ''+'' then ([x], xs) else ([], x # xs))"

text \<open>\<open>commonPrefixLenIgnoreCase\<close>; the second argument is in lower case.\<close>

fun commonPrefixLen :: "string \<Rightarrow> string \<Rightarrow> nat" where
  "commonPrefixLen (x # xs) (y # ys) = (if lowerChar x = y then Suc (commonPrefixLen xs ys) else 0)"
| "commonPrefixLen _ _ = 0"

text \<open>\<open>special\<close>: infinities and NaN. The whole text has to be used up.\<close>

definition specialFloat :: "string \<Rightarrow> float64 option" where
  "specialFloat s =
     (let (sgn, r) = splitSign s; n = commonPrefixLen r ''infinity''
      in if (n = 3 \<or> n = 8) \<and> length r = n then Some (FInf (sgn = ''-''))
         else if sgn = [] \<and> commonPrefixLen r ''nan'' = 3 \<and> length r = 3 then Some FNaN
         else None)"

text \<open>
  The loop of \<open>readFloat\<close> over the mantissa: the number its digits make, how many of them stand after the
  point, whether there was a digit at all, and the rest. Underscores are passed over.
\<close>

fun scanMantissa :: "nat \<Rightarrow> bool \<Rightarrow> nat \<Rightarrow> nat \<Rightarrow> bool \<Rightarrow> string \<Rightarrow> nat \<times> nat \<times> bool \<times> string" where
  "scanMantissa base dot m fd dig [] = (m, fd, dig, [])"
| "scanMantissa base dot m fd dig (x # xs) =
     (if x = CHR ''_'' then scanMantissa base dot m fd dig xs
      else if x = CHR ''.'' then (if dot then (m, fd, dig, x # xs) else scanMantissa base True m fd dig xs)
      else case digitIn base x of
        Some d \<Rightarrow> scanMantissa base dot (m * base + d) (if dot then Suc fd else fd) True xs
      | None \<Rightarrow> (m, fd, dig, x # xs))"

text \<open>The digits of the exponent, of which Go stops taking notice at ten thousand.\<close>

fun scanExponent :: "nat \<Rightarrow> string \<Rightarrow> nat \<times> string" where
  "scanExponent e [] = (e, [])"
| "scanExponent e (x # xs) =
     (if x = CHR ''_'' then scanExponent e xs
      else case digitIn 10 x of
        Some d \<Rightarrow> scanExponent (if e < 10000 then e * 10 + d else e) xs
      | None \<Rightarrow> (e, x # xs))"

text \<open>\<open>underscoreOK\<close>: underscores stand between digits only; a base prefix counts as a digit.\<close>

fun underscoreScan :: "bool \<Rightarrow> char \<Rightarrow> string \<Rightarrow> bool" where
  "underscoreScan hex saw [] \<longleftrightarrow> saw \<noteq> CHR ''_''"
| "underscoreScan hex saw (x # xs) =
     (if digitIn (if hex then 16 else 10) x \<noteq> None then underscoreScan hex (CHR ''0'') xs
      else if x = CHR ''_'' then saw = CHR ''0'' \<and> underscoreScan hex (CHR ''_'') xs
      else saw \<noteq> CHR ''_'' \<and> underscoreScan hex (CHR ''!'') xs)"

definition underscoreOK :: "string \<Rightarrow> bool" where
  "underscoreOK s =
     (case snd (splitSign s) of
        x # y # r \<Rightarrow>
          if x = CHR ''0'' \<and> lowerChar y \<in> {CHR ''b'', CHR ''o'', CHR ''x''}
          then underscoreScan (lowerChar y = CHR ''x'') (CHR ''0'') r
          else underscoreScan False (CHR ''^'') (x # y # r)
      | r \<Rightarrow> underscoreScan False (CHR ''^'') r)"

text \<open>The optional exponent after a mantissa, which a hexadecimal number has to have.\<close>

definition readExp :: "bool \<Rightarrow> string \<Rightarrow> (int \<times> string) option" where
  "readExp hex s =
     (case s of
        x # xs \<Rightarrow>
          if lowerChar x = (if hex then CHR ''p'' else CHR ''e'')
          then (let (sgn, r) = splitSign xs
                in case r of
                     y # ys \<Rightarrow> if digitIn 10 y = None then None
                       else (let (e, rest) = scanExponent 0 r in Some (if sgn = ''-'' then - int e else int e, rest))
                   | [] \<Rightarrow> None)
          else if hex then None else Some (0, s)
      | [] \<Rightarrow> if hex then None else Some (0, s))"

text \<open>\<open>readFloat\<close>: the sign and the exact magnitude.\<close>

definition readFloat :: "string \<Rightarrow> (bool \<times> rat) option" where
  "readFloat s =
     (let (sgn, r) = splitSign s;
          hex = (2 < length r \<and> hd r = CHR ''0'' \<and> lowerChar (r ! 1) = CHR ''x'');
          (m, fd, dig, r') = scanMantissa (if hex then 16 else 10) False 0 0 False (if hex then drop 2 r else r)
      in if \<not> dig then None
         else case readExp hex r' of
           Some (e, []) \<Rightarrow>
             if CHR ''_'' \<in> set s \<and> \<not> underscoreOK s then None
             else Some (sgn = ''-'',
               if hex then rat_of_nat m * 2 powi (e - 4 * int fd) else rat_of_nat m * 10 powi (e - int fd))
         | _ \<Rightarrow> None)"

definition numError :: "string \<Rightarrow> string \<Rightarrow> goerr" where
  "numError s what = errorf (''strconv.ParseFloat: parsing '' @ quote s @ '': '' @ what)"

definition parseFloat :: "string \<Rightarrow> goerr + float64" where
  "parseFloat s =
     (case specialFloat s of
        Some f \<Rightarrow> Inr f
      | None \<Rightarrow>
          (case readFloat s of
             None \<Rightarrow> Inl (numError s ''invalid syntax'')
           | Some (neg, x) \<Rightarrow>
               (case mkFloat neg x of
                  FInf b \<Rightarrow> Inl (numError s ''value out of range'')
                | f \<Rightarrow> Inr f)))"

section \<open>The shortest decimal\<close>

text \<open>The exponent of the first decimal digit of a positive number.\<close>

definition ilog10 :: "rat \<Rightarrow> int" where
  "ilog10 m = (if 1 \<le> m then int (length (natDigits (nat \<lfloor>m\<rfloor>))) - 1
               else - int (length (natDigits (nat (\<lceil>1 / m\<rceil> - 1)))))"

text \<open>
  \<open>roundShortest\<close>: with \<open>n\<close> digits, rounding down or up will do if the result is read as the same
  value; if both will, the nearer one is taken. The answer is an integer, to be scaled by
  \<open>10\<close> to the power \<open>ilog10 m + 1 - n\<close>.
\<close>

definition withDigits :: "rat \<Rightarrow> int \<Rightarrow> int option" where
  "withDigits m x =
     (let q = m / 10 powi x; lo = \<lfloor>q\<rfloor>;
          ok = (\<lambda>c. mkFloat False (of_int c * 10 powi x) = FFin False m)
      in if ok lo \<and> ok (lo + 1) then Some (rne q)
         else if ok lo then Some lo
         else if ok (lo + 1) then Some (lo + 1) else None)"

text \<open>The first position from \<open>x\<close> down at which this works, and what it gives.\<close>

fun searchDigits :: "nat \<Rightarrow> rat \<Rightarrow> int \<Rightarrow> (int \<times> int) option" where
  "searchDigits 0 m x = None"
| "searchDigits (Suc n) m x =
     (case withDigits m x of Some c \<Rightarrow> Some (c, x) | None \<Rightarrow> searchDigits n m (x - 1))"

text \<open>A binary64 value is a multiple of \<open>2\<close> to the power \<open>-1074\<close>, so it has no more than 1074 decimal places.\<close>

definition shortest :: "rat \<Rightarrow> (int \<times> int) option" where
  "shortest m = searchDigits (Suc (nat (ilog10 m + 1074))) m (ilog10 m)"

section \<open>Formatting\<close>

text \<open>
  \<open>%f\<close> and \<open>%e\<close> from the digits and the position of the decimal point. \<open>encoding/json\<close> uses \<open>%e\<close> for
  very small and very large values, and drops the leading zero of a short exponent, so an exponent is
  written with the digits it has.
\<close>

definition formatF :: "string \<Rightarrow> int \<Rightarrow> string" where
  "formatF ds dp =
     (if 0 < dp then take (nat dp) ds @ replicate (nat dp - length ds) (CHR ''0'') else ''0'') @
     (if int (length ds) \<le> dp then '''' else ''.'' @ replicate (nat (- dp)) (CHR ''0'') @ drop (nat dp) ds)"

definition formatE :: "string \<Rightarrow> int \<Rightarrow> string" where
  "formatE ds dp =
     take 1 ds @ (if length ds \<le> 1 then '''' else ''.'' @ drop 1 ds) @
     ''e'' @ (if dp - 1 < 0 then ''-'' else ''+'') @ natDigits (nat \<bar>dp - 1\<bar>)"

definition decimalDigits :: "int \<Rightarrow> string" where
  "decimalDigits c = trimRight (natDigits (nat c)) (CHR ''0'')"

definition formatMag :: "rat \<Rightarrow> string" where
  "formatMag m =
     (if m = 0 then ''0''
      else case shortest m of
        Some (c, x) \<Rightarrow>
          (let ds = decimalDigits c; dp = int (length (natDigits (nat c))) + x
           in if m < roundMag (1 / 10 ^ 6) \<or> 10 ^ 21 \<le> m then formatE ds dp else formatF ds dp)
      | None \<Rightarrow> '''')"

text \<open>What \<open>json.Marshal\<close> writes for a finite float; it refuses the others.\<close>

fun jsonFloat :: "float64 \<Rightarrow> string" where
  "jsonFloat (FFin neg m) = (if neg then ''-'' else '''') @ formatMag m"
| "jsonFloat _ = ''''"

section \<open>Decimal digits and their value\<close>

definition digitsFrom :: "nat \<Rightarrow> string \<Rightarrow> nat" where
  "digitsFrom = foldl (\<lambda>a x. a * 10 + (of_char x - 48))"

lemma digitsFrom_simps [simp]:
  "digitsFrom a [] = a"
  "digitsFrom a (x # xs) = digitsFrom (a * 10 + (of_char x - 48)) xs"
  "digitsFrom a (xs @ ys) = digitsFrom (digitsFrom a xs) ys"
  by (simp_all add: digitsFrom_def)

lemma digitsFrom_zeros [simp]: "digitsFrom a (replicate n (CHR ''0'')) = a * 10 ^ n"
  by (induction n arbitrary: a) simp_all

lemma isDigit_char_of: "(n :: nat) < 10 \<Longrightarrow> isDigit (char_of (48 + n))"
  by (simp add: isDigit_def)

lemma digitIn_10: "digitIn 10 x = (if isDigit x then Some (of_char x - 48) else None)"
  by (auto simp: digitIn_def hexValue_def isDigit_def Let_def)

lemma natDigits_digits: "list_all isDigit (natDigits n)"
proof (induction n rule: natDigits.induct)
  case (1 n)
  then show ?case by (subst natDigits.simps) (simp add: isDigit_char_of)
qed

lemma natDigits_not_Nil [simp]: "natDigits n \<noteq> []"
  by (subst natDigits.simps) simp

lemma natDigits_value: "digitsFrom 0 (natDigits n) = n"
proof (induction n rule: natDigits.induct)
  case (1 n)
  then show ?case by (subst natDigits.simps) simp
qed

lemma natDigits_length: "n < 10 ^ k \<Longrightarrow> 0 < k \<Longrightarrow> length (natDigits n) \<le> k"
proof (induction n arbitrary: k rule: natDigits.induct)
  case (1 n)
  show ?case
  proof (cases "n < 10")
    case False
    then obtain j where k: "k = Suc j" "0 < j" using 1(2,3) by (cases k; cases "k - 1") auto
    with 1(2) have "n div 10 < 10 ^ j" by (simp add: less_mult_imp_div_less mult.commute)
    with 1(1) [OF False _ k(2)] False k show ?thesis by (subst natDigits.simps) simp
  qed (use 1(3) in \<open>subst natDigits.simps, simp\<close>)
qed

lemma natDigits_hd: "0 < n \<Longrightarrow> hd (natDigits n) \<noteq> CHR ''0''"
proof (induction n rule: natDigits.induct)
  case (1 n)
  show ?case
  proof (cases "n < 10")
    case True
    have "of_char (char_of (48 + n) :: char) \<noteq> (of_char (CHR ''0'') :: nat)" using True 1(2) by simp
    with True show ?thesis by (subst natDigits.simps) (auto simp del: of_char_of)
  next
    case False
    with 1(1) show ?thesis by (subst natDigits.simps) (simp add: hd_append)
  qed
qed

text \<open>The digits of a positive number without its trailing zeros.\<close>

lemma decimalDigits_split:
  assumes "0 < c"
  obtains z where "natDigits (nat c) = decimalDigits c @ replicate z (CHR ''0'')"
    "list_all isDigit (decimalDigits c)" "decimalDigits c \<noteq> []" "hd (decimalDigits c) \<noteq> CHR ''0''"
proof -
  let ?d = "natDigits (nat c)"
  let ?z = "takeWhile (\<lambda>x. x = CHR ''0'') (rev ?d)"
  have "set (rev ?z) \<subseteq> {CHR ''0''}" by (auto dest: set_takeWhileD)
  then have z: "rev ?z = replicate (length ?z) (CHR ''0'')" by (intro replicate_eqI) auto
  have d: "?d = decimalDigits c @ replicate (length ?z) (CHR ''0'')"
    by (simp only: decimalDigits_def trimRight_def z [symmetric] rev_append [symmetric] takeWhile_dropWhile_id rev_rev_ident)
  have h: "hd ?d \<noteq> CHR ''0''" using natDigits_hd [of "nat c"] assms by simp
  have "decimalDigits c \<noteq> []"
  proof
    assume "decimalDigits c = []"
    with d have "?d = replicate (length ?z) (CHR ''0'')" by simp
    with h show False by (cases "length ?z") auto
  qed
  moreover have "hd (decimalDigits c) \<noteq> CHR ''0''" using h d calculation by (metis hd_append2)
  moreover have "list_all isDigit (decimalDigits c)"
    using natDigits_digits [of "nat c"] by (subst (asm) d) simp
  ultimately show thesis using that d by blast
qed


section \<open>Reading a formatted decimal\<close>

text \<open>A text at which the digits end.\<close>

definition stops :: "string \<Rightarrow> bool" where
  "stops r \<longleftrightarrow> r = [] \<or> (\<not> isDigit (hd r) \<and> hd r \<noteq> CHR ''_'' \<and> hd r \<noteq> CHR ''.'')"

lemma isDigit_other: "isDigit x \<Longrightarrow> x \<noteq> CHR ''_'' \<and> x \<noteq> CHR ''.'' \<and> x \<noteq> CHR ''-'' \<and> x \<noteq> CHR ''+'' \<and> x \<noteq> CHR ''e''"
  by (auto simp: isDigit_def)

lemma scanMantissa_digits:
  "list_all isDigit ds \<Longrightarrow> scanMantissa 10 dot m fd dig (ds @ r) =
     scanMantissa 10 dot (digitsFrom m ds) (if dot then fd + length ds else fd) (dig \<or> ds \<noteq> []) r"
  by (induction ds arbitrary: m fd dig) (auto simp: digitIn_10 isDigit_other)

lemma scanMantissa_stops: "stops r \<Longrightarrow> scanMantissa 10 dot m fd dig r = (m, fd, dig, r)"
  by (cases r) (auto simp: stops_def digitIn_10)

lemma scanMantissa_point:
  assumes "list_all isDigit ds" "list_all isDigit es" "ds \<noteq> []" "stops r"
  shows "scanMantissa 10 False 0 0 False (ds @ CHR ''.'' # es @ r) = (digitsFrom 0 (ds @ es), length es, True, r)"
    "scanMantissa 10 False 0 0 False (ds @ r) = (digitsFrom 0 ds, 0, True, r)"
  using assms by (simp_all add: scanMantissa_digits scanMantissa_stops)

lemma scanExponent_digits:
  "list_all isDigit ds \<Longrightarrow> digitsFrom e ds < 100000 \<Longrightarrow> scanExponent e ds = (digitsFrom e ds, [])"
proof (induction ds arbitrary: e)
  case (Cons x xs)
  have mono: "a \<le> digitsFrom a ys" for a ys
  proof (induction ys arbitrary: a)
    case (Cons y ys)
    show ?case using order_trans [OF _ Cons, of a "a * 10 + (of_char y - 48)"] by simp
  qed simp
  have "e * 10 + (of_char x - 48) < 100000" using order.strict_trans1 [OF mono] Cons.prems(2) by simp
  then have "e < 10000" by simp
  with Cons show ?case by (simp add: digitIn_10 isDigit_other)
qed simp

lemma readExp_none: "readExp False [] = Some (0, [])"
  by (simp add: readExp_def)

lemma readExp_written:
  assumes "\<bar>e\<bar> < 100000"
  shows "readExp False (''e'' @ (if e < 0 then ''-'' else ''+'') @ natDigits (nat \<bar>e\<bar>)) = Some (e, [])"
proof -
  obtain y ys where d: "natDigits (nat \<bar>e\<bar>) = y # ys" "isDigit y"
    using natDigits_digits [of "nat \<bar>e\<bar>"] by (cases "natDigits (nat \<bar>e\<bar>)") auto
  have "scanExponent 0 (natDigits (nat \<bar>e\<bar>)) = (nat \<bar>e\<bar>, [])"
    using scanExponent_digits [OF natDigits_digits, of 0 "nat \<bar>e\<bar>"] assms by (simp add: natDigits_value)
  with d show ?thesis by (simp add: readExp_def digitIn_10 lowerChar_def Let_def)
qed

lemma lowerChar_x: "lowerChar x = CHR ''x'' \<Longrightarrow> x = CHR ''x'' \<or> x = CHR ''X''"
proof (cases "65 \<le> (of_char x :: nat) \<and> (of_char x :: nat) \<le> 90")
  case True
  assume "lowerChar x = CHR ''x''"
  with True have "(of_char (char_of ((of_char x :: nat) + 32) :: char) :: nat) = of_char (CHR ''x'')"
    by (simp add: lowerChar_def)
  with True have "(of_char x :: nat) = of_char (CHR ''X'')" by simp
  then have "x = CHR ''X''" by (simp only: of_char_eq_iff)
  then show ?thesis ..
qed (simp add: lowerChar_def)

text \<open>A decimal that begins with a digit, with nothing in it but digits, one point and an exponent.\<close>

lemma readFloat_decimal:
  assumes "t = x # xs" "isDigit x" "CHR ''_'' \<notin> set t" "CHR ''x'' \<notin> set t" "CHR ''X'' \<notin> set t"
    and "scanMantissa 10 False 0 0 False t = (m, fd, True, r)" "readExp False r = Some (e, [])"
  shows "readFloat ((if neg then ''-'' else '''') @ t) = Some (neg, rat_of_nat m * 10 powi (e - int fd))"
proof -
  have sp: "splitSign ((if neg then ''-'' else '''') @ t) = (if neg then ''-'' else '''', t)"
    using assms(1) isDigit_other [OF assms(2)] by simp
  have hex: "(2 < length t \<and> hd t = CHR ''0'' \<and> lowerChar (t ! 1) = CHR ''x'') = False"
    using lowerChar_x assms(4,5) by (metis One_nat_def Suc_1 Suc_lessD nth_mem)
  have "CHR ''_'' \<notin> set ((if neg then ''-'' else '''') @ t)" using assms(3) by simp
  then show ?thesis
    unfolding readFloat_def Let_def sp prod.case hex if_False assms(6,7) by simp
qed

text \<open>The digits before and after the point, as \<open>formatF\<close> writes them.\<close>

definition wholePart :: "string \<Rightarrow> int \<Rightarrow> string" where
  "wholePart ds dp = (if 0 < dp then take (nat dp) ds @ replicate (nat dp - length ds) (CHR ''0'') else ''0'')"

definition fractionPart :: "string \<Rightarrow> int \<Rightarrow> string" where
  "fractionPart ds dp = (if int (length ds) \<le> dp then '''' else replicate (nat (- dp)) (CHR ''0'') @ drop (nat dp) ds)"

definition digitText :: "string \<Rightarrow> bool" where
  "digitText ds \<longleftrightarrow> list_all isDigit ds \<and> ds \<noteq> [] \<and> hd ds \<noteq> CHR ''0''"

lemma formatF_parts:
  "formatF ds dp = wholePart ds dp @ (if int (length ds) \<le> dp then '''' else CHR ''.'' # fractionPart ds dp)"
  by (simp add: formatF_def wholePart_def fractionPart_def)

lemma digits_of_parts:
  assumes "digitText ds"
  shows "list_all isDigit (wholePart ds dp)" "list_all isDigit (fractionPart ds dp)" "wholePart ds dp \<noteq> []"
    "dp < int (length ds) \<Longrightarrow> fractionPart ds dp \<noteq> []"
    "int (length (fractionPart ds dp)) = max 0 (int (length ds) - dp)"
    "digitsFrom 0 (wholePart ds dp @ fractionPart ds dp) = digitsFrom 0 ds * 10 ^ nat (dp - int (length ds))"
proof -
  have zero: "isDigit (CHR ''0'')" by (simp add: isDigit_def)
  have r: "list_all isDigit (replicate n (CHR ''0''))" for n using zero by (simp add: list_all_iff)
  have td: "list_all isDigit (take n ds)" "list_all isDigit (drop n ds)" for n
    using assms by (auto simp: digitText_def list_all_iff dest: in_set_takeD in_set_dropD)
  show "list_all isDigit (wholePart ds dp)" "list_all isDigit (fractionPart ds dp)"
    using r td zero by (simp_all add: wholePart_def fractionPart_def)
  show "wholePart ds dp \<noteq> []" "dp < int (length ds) \<Longrightarrow> fractionPart ds dp \<noteq> []"
    "int (length (fractionPart ds dp)) = max 0 (int (length ds) - dp)"
    using assms by (auto simp: wholePart_def fractionPart_def digitText_def)
  have pos: "0 < length ds" using assms by (simp add: digitText_def)
  have "digitsFrom (digitsFrom 0 (take n ds)) (drop n ds) = digitsFrom 0 ds" for n
    by (simp only: digitsFrom_simps(3) [symmetric] append_take_drop_id)
  then show "digitsFrom 0 (wholePart ds dp @ fractionPart ds dp) = digitsFrom 0 ds * 10 ^ nat (dp - int (length ds))"
    using pos by (auto simp: wholePart_def fractionPart_def nat_diff_distrib simp del: length_greater_0_conv)
qed

lemma digits_free: "list_all isDigit ds \<Longrightarrow> x \<in> set ds \<Longrightarrow> isDigit x"
  by (simp add: list_all_iff)

lemma readFloat_formatF:
  assumes "digitText ds"
  shows "readFloat ((if neg then ''-'' else '''') @ formatF ds dp) =
    Some (neg, rat_of_nat (digitsFrom 0 ds) * 10 powi (dp - int (length ds)))"
proof -
  note p = digits_of_parts [OF assms, of dp]
  obtain x xs where w: "wholePart ds dp = x # xs" using p(3) by (cases "wholePart ds dp") auto
  then have f: "formatF ds dp = x # xs @ (if int (length ds) \<le> dp then '''' else CHR ''.'' # fractionPart ds dp)" "isDigit x"
    using p(1) by (simp_all add: formatF_parts)
  have free: "c \<notin> set (formatF ds dp)" if "c \<in> {CHR ''_'', CHR ''x'', CHR ''X''}" for c
    using that digits_free [OF p(1), of c] digits_free [OF p(2), of c] by (auto simp: formatF_parts isDigit_def)
  show ?thesis
  proof (cases "int (length ds) \<le> dp")
    case True
    then have "fractionPart ds dp = []" by (simp add: fractionPart_def)
    moreover have "scanMantissa 10 False 0 0 False (formatF ds dp) = (digitsFrom 0 (wholePart ds dp), 0, True, [])"
      using scanMantissa_point(2) [OF p(1) _ p(3), of "[]" "[]"] True by (simp add: formatF_parts stops_def)
    ultimately show ?thesis
      using readFloat_decimal [OF f(1,2) _ _ _ _ readExp_none] free p(6) True by (simp add: power_int_def)
  next
    case False
    have "scanMantissa 10 False 0 0 False (formatF ds dp) =
        (digitsFrom 0 (wholePart ds dp @ fractionPart ds dp), length (fractionPart ds dp), True, [])"
      using scanMantissa_point(1) [OF p(1,2,3), of "[]"] False by (simp add: formatF_parts stops_def)
    then show ?thesis
      using readFloat_decimal [OF f(1,2) _ _ _ _ readExp_none] free p(5,6) False by simp
  qed
qed

lemma readFloat_formatE:
  assumes "digitText ds" "\<bar>dp - 1\<bar> < 100000"
  shows "readFloat ((if neg then ''-'' else '''') @ formatE ds dp) =
    Some (neg, rat_of_nat (digitsFrom 0 ds) * 10 powi (dp - int (length ds)))"
proof -
  define e where "e = ''e'' @ (if dp - 1 < 0 then ''-'' else ''+'') @ natDigits (nat \<bar>dp - 1\<bar>)"
  obtain d es where ds: "ds = d # es" "isDigit d" "list_all isDigit es"
    using assms(1) by (cases ds) (auto simp: digitText_def)
  have s: "stops e" by (simp add: stops_def isDigit_def e_def)
  have f: "formatE ds dp = d # (if es = [] then '''' else CHR ''.'' # es) @ e"
    using ds(1) by (auto simp: formatE_def e_def)
  have free: "c \<notin> set (formatE ds dp)" if "c \<in> {CHR ''_'', CHR ''x'', CHR ''X''}" for c
    using that ds(2) digits_free [OF ds(3), of c] digits_free [OF natDigits_digits, of c "nat \<bar>dp - 1\<bar>"]
    by (auto simp: f e_def isDigit_def)
  have "scanMantissa 10 False 0 0 False (formatE ds dp) = (digitsFrom 0 ds, length es, True, e)"
  proof (cases "es = []")
    case True
    then show ?thesis using scanMantissa_point(2) [of "[d]" "[]" e] s ds unfolding f by (simp del: scanMantissa.simps)
  next
    case False
    then show ?thesis using scanMantissa_point(1) [of "[d]" es e] s ds unfolding f by (simp del: scanMantissa.simps)
  qed
  with readFloat_decimal [OF f ds(2) _ _ _ _ readExp_written [OF assms(2), folded e_def]] free ds(1) show ?thesis by (simp add: diff_diff_eq)
qed


section \<open>What is written reads back\<close>

lemma fixed_dyadic:
  assumes "mkFloat s m = FFin s m"
  obtains n e where "m = of_int n * pow2 e" "- 1074 \<le> e" "m < pow2 1024"
proof -
  have r: "roundMag m = m" "m < pow2 1024" using assms by (auto simp: mkFloat_def Let_def split: if_splits)
  show thesis
  proof (cases "m = 0")
    case False
    then have "m = of_int (rne (m / quantum m)) * pow2 (max (ilog2 m) (- 1022) - 52)"
      using r(1) by (simp add: roundMag_def quantum_def)
    then show thesis using that r(2) by simp
  qed (use that [of 0 0] in simp)
qed

lemma dyadic_decimal:
  assumes "- int k \<le> e"
  obtains N where "(of_int n * pow2 e) / 10 powi (- int k) = of_int N"
proof (cases "0 \<le> e")
  case True
  then have "(of_int n * pow2 e) / 10 powi (- int k) = of_int (n * 2 ^ nat e * 10 ^ k)"
    by (simp add: pow2_def power_int_minus divide_inverse)
  then show thesis by (rule that)
next
  case False
  let ?j = "nat (- e)"
  have "(10 :: rat) ^ k = 10 ^ (k - ?j) * 10 ^ ?j" using assms by (simp flip: power_add)
  also have "\<dots> = 10 ^ (k - ?j) * 5 ^ ?j * 2 ^ ?j" by (simp flip: power_mult_distrib)
  finally have "(of_int n * pow2 e) / 10 powi (- int k) = of_int (n * (10 ^ (k - ?j) * 5 ^ ?j))"
    using False by (simp add: pow2_def power_int_minus divide_inverse)
  then show thesis by (rule that)
qed

lemma withDigits_exact:
  assumes "mkFloat False m = FFin False m" "m / 10 powi x = of_int N"
  shows "withDigits m x \<noteq> None"
proof -
  have "of_int N * 10 powi x = m" using assms(2) [symmetric] by simp
  then show ?thesis using assms by (simp add: withDigits_def Let_def)
qed

lemma withDigits_sound:
  assumes "withDigits m x = Some c"
  shows "mkFloat False (of_int c * 10 powi x) = FFin False m" "\<lfloor>m / 10 powi x\<rfloor> \<le> c" "c \<le> \<lfloor>m / 10 powi x\<rfloor> + 1"
  using assms by (auto simp: withDigits_def rne_def Let_def split: if_splits)

lemma searchDigits_sound:
  "searchDigits n m x = Some (c, y) \<Longrightarrow> withDigits m y = Some c \<and> x - int n < y \<and> y \<le> x"
  by (induction n arbitrary: x) (fastforce split: option.splits)+

lemma searchDigits_complete:
  "withDigits m (x - int j) \<noteq> None \<Longrightarrow> j < n \<Longrightarrow> searchDigits n m x \<noteq> None"
proof (induction n arbitrary: x j)
  case (Suc n)
  show ?case
  proof (cases "withDigits m x")
    case None
    with Suc.prems obtain i where "j = Suc i" by (cases j) auto
    with Suc.IH [of "x - 1" i] Suc.prems None show ?thesis by (simp add: algebra_simps)
  qed (simp)
qed simp

lemma nat_floor_less: "0 < x \<Longrightarrow> x < rat_of_nat b \<Longrightarrow> nat \<lfloor>x\<rfloor> < b"
  by (simp add: nat_less_iff floor_less_iff)

lemma nat_ceiling_less: "x \<le> rat_of_nat b \<Longrightarrow> 0 < b \<Longrightarrow> nat (\<lceil>x\<rceil> - 1) < b"
  using ceiling_le_iff [of x "int b"] by simp

lemma pow2_nat: "pow2 (numeral k) = rat_of_nat (2 ^ numeral k)"
  by (simp add: pow2_def)

lemma pow2_recip: "1 / pow2 (- e) = pow2 e"
  by (simp add: pow2_powi power_int_minus divide_inverse)

lemma ilog10_bounds:
  assumes "0 < m" "m < pow2 1024" "pow2 (- 1074) \<le> m"
  shows "- 1074 \<le> ilog10 m" "ilog10 m \<le> 308"
proof -
  have P: "(2 :: nat) ^ 1024 < 10 ^ 309" "(2 :: nat) ^ 1074 < 10 ^ 324" by simp_all
  have "nat \<lfloor>m\<rfloor> < 2 ^ 1024" using assms(1,2) by (intro nat_floor_less) (simp_all only: pow2_nat)
  then have "nat \<lfloor>m\<rfloor> < 10 ^ 309" using P(1) by (rule less_trans)
  then have up: "length (natDigits (nat \<lfloor>m\<rfloor>)) \<le> 309" by (rule natDigits_length) simp
  have "1 / m \<le> 1 / pow2 (- 1074)" using assms(1,3) by (intro divide_left_mono) auto
  then have "1 / m \<le> rat_of_nat (2 ^ 1074)" by (simp only: pow2_recip pow2_nat)
  then have "nat (\<lceil>1 / m\<rceil> - 1) < 2 ^ 1074" by (rule nat_ceiling_less) simp
  then have "nat (\<lceil>1 / m\<rceil> - 1) < 10 ^ 324" using P(2) by (rule less_trans)
  then have "length (natDigits (nat (\<lceil>1 / m\<rceil> - 1))) \<le> 324" by (rule natDigits_length) simp
  with up show "- 1074 \<le> ilog10 m" "ilog10 m \<le> 308" by (simp_all add: ilog10_def)
qed


lemma scaled_less:
  assumes "0 < m" "m < rat_of_nat b" "- int k \<le> x"
  shows "nat \<lfloor>m / 10 powi x\<rfloor> < b * 10 ^ k"
proof (rule nat_floor_less)
  have "m / 10 powi x \<le> m / 10 powi (- int k)"
    using assms(1,3) by (intro divide_left_mono power_int_increasing) auto
  also have "\<dots> = m * 10 ^ k" by (simp add: power_int_minus divide_inverse)
  also have "\<dots> < rat_of_nat b * 10 ^ k" using assms(2) by simp
  finally show "m / 10 powi x < rat_of_nat (b * 10 ^ k)" by simp
qed (use assms(1) in simp)

lemma two_ten: "0 < a \<Longrightarrow> a + b = c \<Longrightarrow> 2 ^ a * 10 ^ b < (10 :: nat) ^ c"
  by (auto simp: power_add power_strict_mono)

lemma shortest_ok:
  assumes "mkFloat False m = FFin False m" "0 < m"
  obtains c x where "shortest m = Some (c, x)" "mkFloat False (of_int c * 10 powi x) = FFin False m" "0 < c"
    "\<bar>int (length (natDigits (nat c))) + x - 1\<bar> < 100000"
proof -
  obtain n e where d: "m = of_int n * pow2 e" "- 1074 \<le> e" "m < pow2 1024" using fixed_dyadic [OF assms(1)] .
  have "0 < (of_int n :: rat)" 
    using assms(2) pow2_pos(1) [of e] unfolding d(1) by (rule zero_less_mult_pos2)
  then have "1 \<le> (of_int n :: rat)" by (simp add: int_one_le_iff_zero_less)
  then have "1 * pow2 (- 1074) \<le> of_int n * pow2 e" using pow2_mono [OF d(2)] by (intro mult_mono) auto
  then have low: "pow2 (- 1074) \<le> m" using d(1) by simp
  note b = ilog10_bounds [OF assms(2) d(3) low]
  have pos: "ilog10 m - int (nat (ilog10 m + 1074)) = - int 1074" using b(1) by simp
  from d(2) have "- int 1074 \<le> e" by simp
  from dyadic_decimal [OF this, of n] obtain N where "m / 10 powi (- int 1074) = of_int N" using d(1) by metis
  then have "withDigits m (ilog10 m - int (nat (ilog10 m + 1074))) \<noteq> None"
    unfolding pos by (rule withDigits_exact [OF assms(1)])
  then have "shortest m \<noteq> None" unfolding shortest_def by (rule searchDigits_complete) simp
  then obtain c x where s: "shortest m = Some (c, x)" by auto
  then have w: "withDigits m x = Some c" and x: "- 1075 < x" "x \<le> 308"
    using searchDigits_sound [of _ m "ilog10 m" c x] b unfolding shortest_def by (fastforce)+
  note ws = withDigits_sound [OF w]
  have "0 \<le> m / 10 powi x" using assms(2) by simp
  then have "0 \<le> c" using ws(2) by (meson order_trans zero_le_floor)
  moreover have "c \<noteq> 0" using ws(1) assms(2) by auto
  ultimately have c: "0 < c" by simp
  from d(3) have "m < rat_of_nat (2 ^ 1024)" unfolding pow2_nat .
  then have f: "nat \<lfloor>m / 10 powi x\<rfloor> < 2 ^ 1024 * 10 ^ 1074"
    by (rule scaled_less [OF assms(2)]) (use x(1) in simp)
  have "nat c \<le> Suc (nat \<lfloor>m / 10 powi x\<rfloor>)" using ws(3) by simp
  also have "\<dots> \<le> 2 ^ 1024 * 10 ^ 1074" using f by (rule Suc_leI)
  also have "\<dots> < 10 ^ 2098" by (rule two_ten) simp_all
  finally have "length (natDigits (nat c)) \<le> 2098" by (rule natDigits_length) simp
  then have "\<bar>int (length (natDigits (nat c))) + x - 1\<bar> < 100000" using x by simp
  with s ws(1) c show thesis by (rule that)
qed

lemma specialFloat_none:
  assumes "isDigit x"
  shows "specialFloat ((if neg then ''-'' else '''') @ x # xs) = None"
proof -
  have "lowerChar x = x" using assms by (auto simp: lowerChar_def isDigit_def)
  then have "lowerChar x \<noteq> CHR ''i'' \<and> lowerChar x \<noteq> CHR ''n''" using assms by (auto simp: isDigit_def)
  then show ?thesis using isDigit_other [OF assms] by (simp add: specialFloat_def)
qed

lemma formatted_starts:
  assumes "digitText ds"
  obtains x xs where "formatF ds dp = x # xs" "isDigit x"
  using digits_of_parts(1,3) [OF assms, of dp] by (cases "wholePart ds dp") (auto simp: formatF_parts)

lemma readFloat_formatMag:
  assumes "mkFloat False m = FFin False m" "0 < m"
  obtains v x xs where "formatMag m = x # xs" "isDigit x" "mkFloat False v = FFin False m"
    "\<And>neg. readFloat ((if neg then ''-'' else '''') @ formatMag m) = Some (neg, v)"
proof -
  obtain c y where s: "shortest m = Some (c, y)" "mkFloat False (of_int c * 10 powi y) = FFin False m" "0 < c"
    "\<bar>int (length (natDigits (nat c))) + y - 1\<bar> < 100000" using shortest_ok [OF assms] .
  obtain z where z: "natDigits (nat c) = decimalDigits c @ replicate z (CHR ''0'')" and d: "digitText (decimalDigits c)"
    using decimalDigits_split [OF s(3)] by (metis digitText_def)
  let ?dp = "int (length (natDigits (nat c))) + y" and ?v = "of_int c * 10 powi y :: rat"
  have "digitsFrom 0 (decimalDigits c) * 10 ^ z = nat c"
    using natDigits_value [of "nat c"] unfolding z by simp
  then have "rat_of_nat (digitsFrom 0 (decimalDigits c)) * 10 ^ z = of_int c"
    using s(3) by (metis of_nat_mult of_nat_numeral of_nat_power of_nat_nat order_less_imp_le)
  then have v: "rat_of_nat (digitsFrom 0 (decimalDigits c)) * 10 powi (?dp - int (length (decimalDigits c))) = ?v"
    unfolding z by (simp add: power_int_add algebra_simps)
  obtain x xs where x: "formatF (decimalDigits c) ?dp = x # xs" "isDigit x" using formatted_starts [OF d] .
  obtain x' xs' where x': "formatE (decimalDigits c) ?dp = x' # xs'" "isDigit x'"
    using d by (cases "decimalDigits c") (auto simp: formatE_def digitText_def)
  have f: "formatMag m = (if m < roundMag (1 / 10 ^ 6) \<or> 10 ^ 21 \<le> m then formatE (decimalDigits c) ?dp else formatF (decimalDigits c) ?dp)"
    unfolding formatMag_def s(1) using assms(2) by (simp add: Let_def)
  show thesis
  proof (cases "m < roundMag (1 / 10 ^ 6) \<or> 10 ^ 21 \<le> m")
    case True
    then have "formatMag m = formatE (decimalDigits c) ?dp" unfolding f by (rule if_P)
    then show thesis using that [of x' xs' ?v] x' s(2) readFloat_formatE [OF d s(4)] v by metis
  next
    case False
    then have "formatMag m = formatF (decimalDigits c) ?dp" unfolding f by (rule if_not_P)
    then show thesis using that [of x xs ?v] x s(2) readFloat_formatF [OF d, of _ ?dp] v by metis
  qed
qed

theorem parse_jsonFloat:
  assumes "isFloat64 f" "isFinite f"
  shows "parseFloat (jsonFloat f) = Inr f"
proof -
  obtain s m where f: "f = FFin s m" using assms(2) by (cases f) simp_all
  with assms(1) have m: "0 \<le> m" "mkFloat False m = FFin False m" by (simp_all add: mkFloat_sign [of s m])
  show ?thesis
  proof (cases "m = 0")
    case True
    then show ?thesis
      by (cases s) (simp_all add: f formatMag_def parseFloat_def specialFloat_def readFloat_def lowerChar_def
        digitIn_def hexValue_def Let_def readExp_none)
  next
    case False
    with m have "0 < m" by simp
    from readFloat_formatMag [OF m(2) this] obtain v x xs where r: "formatMag m = x # xs" "isDigit x"
      "mkFloat False v = FFin False m" "readFloat ((if s then ''-'' else '''') @ formatMag m) = Some (s, v)" by metis
    have "mkFloat s v = FFin s m" using r(3) mkFloat_sign by metis
    moreover have "specialFloat (jsonFloat f) = None" using specialFloat_none [OF r(2)] by (simp add: f r(1))
    ultimately show ?thesis using r(4) by (simp add: parseFloat_def f)
  qed
qed


text \<open>Whatever is read is a binary64 value.\<close>

lemma readFloat_nonneg: "readFloat s = Some (neg, x) \<Longrightarrow> 0 \<le> x"
  by (auto simp: readFloat_def Let_def split: prod.splits if_splits option.splits list.splits)

lemma isFloat64_parseFloat [float_types]: "parseFloat s = Inr f \<Longrightarrow> isFloat64 f"
proof -
  assume p: "parseFloat s = Inr f"
  show ?thesis
  proof (cases "specialFloat s")
    case None
    with p obtain neg x where "readFloat s = Some (neg, x)" "mkFloat neg x = f"
      by (auto simp: parseFloat_def split: option.splits prod.splits float64.splits)
    then show ?thesis using readFloat_nonneg isFloat64_mkFloat by blast
  next
    case (Some g)
    then have "f = g" "g = FNaN \<or> (\<exists>b. g = FInf b)"
      using p by (auto simp: parseFloat_def specialFloat_def Let_def split: prod.splits if_splits)
    then show ?thesis by auto
  qed
qed

end
