(* ===== verification/Go_Json.thy ===== *)
theory Go_Json
  imports Go_Strconv
begin

text \<open>
  The values the controllers put into unstructured objects and into the JSON documents of the result
  ConfigMaps: Go's \<open>interface{}\<close> built from maps, slices, strings, numbers. A map is the list of
  its entries, with distinct keys.
\<close>

datatype json =
    JNull
  | JBool bool
  | JStr string
  | JInt int
  | JFloat float64
  | JArr "json list"
  | JObj "(string \<times> json) list"

text \<open>
  \<open>json.Marshal\<close> refuses a document that holds NaN or an infinity
  (\<open>json.UnsupportedValueError\<close>).
\<close>

fun jsonFinite :: "json \<Rightarrow> bool" where
  "jsonFinite (JFloat f) = isFinite f"
| "jsonFinite (JArr xs) = list_all jsonFinite xs"
| "jsonFinite (JObj kvs) = list_all (\<lambda>p. jsonFinite (snd p)) kvs"
| "jsonFinite _ = True"

text \<open>Reading a field of an object; a missing field is \<open>None\<close>.\<close>

fun jsonField :: "string \<Rightarrow> json \<Rightarrow> json option" where
  "jsonField k (JObj kvs) = map_of kvs k"
| "jsonField k _ = None"

lemma jsonField_Cons [simp]:
  "jsonField k (JObj ((k', v) # kvs)) = (if k = k' then Some v else jsonField k (JObj kvs))"
  by simp

text \<open>The values \<open>json.Marshal\<close> would refuse, in the order it meets them.\<close>

fun jsonUnsupported :: "json \<Rightarrow> float64 list" where
  "jsonUnsupported (JFloat f) = (if isFinite f then [] else [f])"
| "jsonUnsupported (JArr xs) = concat (map jsonUnsupported xs)"
| "jsonUnsupported (JObj kvs) = concat (map (\<lambda>p. jsonUnsupported (snd p)) kvs)"
| "jsonUnsupported _ = []"

lemma jsonUnsupported_Nil: "jsonUnsupported j = [] \<longleftrightarrow> jsonFinite j"
  by (induction j rule: jsonFinite.induct) (auto simp: list_all_iff)

fun showNonFinite :: "float64 \<Rightarrow> string" where
  "showNonFinite FNaN = ''NaN''"
| "showNonFinite (FInf s) = (if s then ''-Inf'' else ''+Inf'')"
| "showNonFinite (FFin s m) = ''''"

section \<open>The text of a document\<close>

text \<open>
  \<open>json.Marshal\<close> and \<open>json.MarshalIndent(v, "", "  ")\<close>. The entries of \<open>JObj\<close> are listed in the
  order they are written: sorted by key for a Go map, in the order of the fields for a struct. Strings are
  taken to be valid UTF-8 without the two Unicode line separators, which the Go encoder would rewrite.
\<close>

definition hexDigit :: "nat \<Rightarrow> char" where
  "hexDigit n = (if n < 10 then char_of (48 + n) else char_of (87 + n))"

definition jsonEscape :: "char \<Rightarrow> string" where
  "jsonEscape c =
     (let n = (of_char c :: nat)
      in if n = 0x22 \<or> n = 0x5C then [CHR 0x5C, c]
         else if n = 8 then [CHR 0x5C, CHR ''b'']
         else if n = 12 then [CHR 0x5C, CHR ''f'']
         else if n = 10 then [CHR 0x5C, CHR ''n'']
         else if n = 13 then [CHR 0x5C, CHR ''r'']
         else if n = 9 then [CHR 0x5C, CHR ''t'']
         else if n < 32 \<or> n = 0x3C \<or> n = 0x3E \<or> n = 0x26
         then CHR 0x5C # ''u00'' @ [hexDigit (n div 16), hexDigit (n mod 16)]
         else [c])"

definition jsonQuote :: "string \<Rightarrow> string" where
  "jsonQuote s = CHR 0x22 # concat (map jsonEscape s) @ [CHR 0x22]"

fun jsonText :: "json \<Rightarrow> string" where
  "jsonText JNull = ''null''"
| "jsonText (JBool b) = (if b then ''true'' else ''false'')"
| "jsonText (JStr s) = jsonQuote s"
| "jsonText (JInt i) = showInt i"
| "jsonText (JFloat f) = jsonFloat f"
| "jsonText (JArr xs) = ''['' @ joinWith '','' (map jsonText xs) @ '']''"
| "jsonText (JObj kvs) =
     ''{'' @ joinWith '','' (map (\<lambda>p. jsonQuote (fst p) @ '':'' @ jsonText (snd p)) kvs) @ ''}''"

definition newline :: string where
  "newline = [CHR 10]"

definition indent :: "nat \<Rightarrow> string" where
  "indent n = concat (replicate n ''  '')"

fun jsonIndent :: "nat \<Rightarrow> json \<Rightarrow> string" where
  "jsonIndent n (JArr xs) =
     (if xs = [] then ''[]''
      else ''['' @ newline @
        joinWith ('','' @ newline) (map (\<lambda>x. indent (Suc n) @ jsonIndent (Suc n) x) xs) @
        newline @ indent n @ '']'')"
| "jsonIndent n (JObj kvs) =
     (if kvs = [] then ''{}''
      else ''{'' @ newline @
        joinWith ('','' @ newline) (map (\<lambda>p. indent (Suc n) @ jsonQuote (fst p) @ '': '' @ jsonIndent (Suc n) (snd p)) kvs) @
        newline @ indent n @ ''}'')"
| "jsonIndent n j = jsonText j"

text \<open>\<open>json.Marshal\<close> with its error.\<close>

definition marshalWith :: "(json \<Rightarrow> string) \<Rightarrow> json \<Rightarrow> goerr + string" where
  "marshalWith text j =
     (case jsonUnsupported j of
        [] \<Rightarrow> Inr (text j)
      | f # _ \<Rightarrow> Inl (errorf (''json: unsupported value: '' @ showNonFinite f)))"

lemma marshalWith_finite: "jsonFinite j \<Longrightarrow> marshalWith text j = Inr (text j)"
  by (simp add: marshalWith_def flip: jsonUnsupported_Nil)

lemma marshalWith_infinite: "\<not> jsonFinite j \<Longrightarrow> \<exists>e. marshalWith text j = Inl e"
  by (cases "jsonUnsupported j") (simp_all add: marshalWith_def jsonUnsupported_Nil)

end
