(* ===== verification/Api_Types.thy ===== *)
theory Api_Types
  imports Go_Json
begin

text \<open>
  The custom resources of \<open>api/v1alpha1\<close>: \<open>Experiment\<close>, \<open>Topology\<close> and
  \<open>ChaosPhase\<close>. A pointer field is an \<open>option\<close>, an enum a datatype with one constructor per
  constant and one for any other string (the Go types are strings, and the code has branches for
  the strings no constant names). Field names carry a prefix of their struct where two structs share a
  name. These are values; how they lie in memory, and what a deep copy does there, is in \<open>Deep_Copies\<close>.
\<close>

section \<open>Experiment\<close>

datatype ThresholdDirection =
    ThresholdLT | ThresholdLTE | ThresholdGT | ThresholdGTE | ThresholdOther string

datatype ExperimentSubPhase =
    SubPhaseIdle \<comment> \<open>the empty string\<close>
  | SubPhaseDeploying
  | SubPhaseWaitingForTopology
  | SubPhaseTopologyDelay
  | SubPhaseLoadDelay
  | SubPhasePreChaosMeasurement
  | SubPhaseApplyingChaos
  | SubPhaseChaosMeasurement
  | SubPhaseCleanup
  | SubPhasePause
  | SubPhaseOther string

fun subPhaseString :: "ExperimentSubPhase \<Rightarrow> string" where
  "subPhaseString SubPhaseIdle = ''''"
| "subPhaseString SubPhaseDeploying = ''Deploying''"
| "subPhaseString SubPhaseWaitingForTopology = ''WaitingForTopology''"
| "subPhaseString SubPhaseTopologyDelay = ''TopologyDelay''"
| "subPhaseString SubPhaseLoadDelay = ''LoadDelay''"
| "subPhaseString SubPhasePreChaosMeasurement = ''PreChaosMeasurement''"
| "subPhaseString SubPhaseApplyingChaos = ''ApplyingChaos''"
| "subPhaseString SubPhaseChaosMeasurement = ''ChaosMeasurement''"
| "subPhaseString SubPhaseCleanup = ''Cleanup''"
| "subPhaseString SubPhasePause = ''Pause''"
| "subPhaseString (SubPhaseOther s) = s"

record DurationConfig =
  LoadDelay :: "int32 option"
  EvalDelay :: "int32 option"
  TopologyDelay :: "int32 option"
  ChaosDelay :: "int32 option"
  MeasurementDuration :: "int32 option"
  Repetitions :: int32
  PauseBetweenRepetitions :: int32
  MeasurementSampleInterval :: "int32 option"

text \<open>\<open>corev1.LocalObjectReference\<close> has one field, the name.\<close>

type_synonym LocalObjectReference = string

record ManifestRef =
  ConfigMapRef :: LocalObjectReference

record ManifestsConfig =
  Sut :: "ManifestRef option"
  Load :: "ManifestRef option"
  Infra :: "ManifestRef option"
  Monitor :: "ManifestRef option"

record PrometheusConfig =
  URL :: string
  QueryTimeoutSeconds :: "int32 option"

record SLOConfig =
  SloName :: string
  DisplayName :: string
  Description :: string
  Query :: string
  Threshold :: float64
  SloThresholdDirection :: ThresholdDirection
  IsBiggerBetter :: bool
  Weight :: float64

record ExperimentSpec =
  Duration :: DurationConfig
  Manifests :: ManifestsConfig
  ExpTopologyRef :: "LocalObjectReference option"
  ChaosPhaseRef :: "LocalObjectReference option"
  Prometheus :: PrometheusConfig
  SLOs :: "SLOConfig list"

record SLOResult =
  ResName :: string
  ViolationScore :: float64
  MeanSli :: float64
  MinSli :: "float64 option"
  MaxSli :: "float64 option"
  Evaluations :: int32
  ResViolations :: int32

record RepetitionResult =
  Repetition :: int32
  RepSloResults :: "SLOResult list"
  RepAggregateScore :: float64

record SLOMeasurementState =
  StName :: string
  Sum :: float64
  Count :: int32
  Violations :: int32
  MinVal :: float64
  MaxVal :: float64
  MinSet :: bool
  Values :: "float64 list"

datatype ExperimentPhase =
    PhaseEmpty \<comment> \<open>the empty string of a fresh object\<close>
  | PhasePending | PhaseRunning | PhaseSucceeded | PhaseFailed | PhaseCancelled
  | PhaseOther string

fun phaseString :: "ExperimentPhase \<Rightarrow> string" where
  "phaseString PhaseEmpty = ''''"
| "phaseString PhasePending = ''Pending''"
| "phaseString PhaseRunning = ''Running''"
| "phaseString PhaseSucceeded = ''Succeeded''"
| "phaseString PhaseFailed = ''Failed''"
| "phaseString PhaseCancelled = ''Cancelled''"
| "phaseString (PhaseOther s) = s"

text \<open>A point in time is its distance from the epoch in nanoseconds.\<close>

type_synonym Time = int

text \<open>The fields of \<open>metav1.Condition\<close> the code sets; the status is \<open>True\<close> or \<open>False\<close>.\<close>

record Condition =
  CondType :: string
  CondStatus :: bool
  LastTransitionTime :: Time
  CondReason :: string
  CondMessage :: string

record ExperimentStatus =
  Phase :: ExperimentPhase
  SubPhase :: ExperimentSubPhase
  SubPhaseStartTime :: "Time option"
  SubPhaseDuration :: int32
  SubPhaseElapsed :: int32
  MeasurementState :: "SLOMeasurementState list"
  ExperimentID :: string
  StTopologyRef :: string
  StartTime :: "Time option"
  CompletionTime :: "Time option"
  RepetitionsCompleted :: int32
  ManifestConfigMaps :: "string list"
  SloResults :: "SLOResult list"
  AggregateScore :: "float64 option"
  Conditions :: "Condition list"

record Experiment =
  ExpName :: string
  ExpNamespace :: string
  ExpCreationTimestamp :: Time
  Spec :: ExperimentSpec
  Status :: ExperimentStatus

section \<open>Topology\<close>

record ZoneCPUSpec =
  CpuLimit :: string

record ZoneMemorySpec =
  MemoryLimit :: string

record ZoneDiskSpec =
  Capacity :: string

record ZoneSpec =
  ZoneSpecName :: string
  CPU :: "ZoneCPUSpec option"
  Memory :: "ZoneMemorySpec option"
  Disk :: "ZoneDiskSpec option"

record ZoneLinkSpec =
  LinkZones :: "string list"
  Latency :: string
  Jitter :: string
  Bandwidth :: string
  PacketLoss :: string

record TopologySpec =
  Zones :: "ZoneSpec list"
  Links :: "ZoneLinkSpec list"
  Active :: bool

datatype TopologyPhase =
    TopologyPhaseEmpty | TopologyPhaseInactive | TopologyPhaseActive | TopologyPhaseFailed
  | TopologyPhaseOther string

fun topologyPhaseString :: "TopologyPhase \<Rightarrow> string" where
  "topologyPhaseString TopologyPhaseEmpty = ''''"
| "topologyPhaseString TopologyPhaseInactive = ''Inactive''"
| "topologyPhaseString TopologyPhaseActive = ''Active''"
| "topologyPhaseString TopologyPhaseFailed = ''Failed''"
| "topologyPhaseString (TopologyPhaseOther s) = s"

record ZoneStatus =
  ZsName :: string
  ZsNamespace :: string
  ResourceQuotaRef :: string

record TopologyStatus =
  TopPhase :: TopologyPhase
  ObservedGeneration :: int
  TopZones :: "ZoneStatus list"
  NetworkChaosRefs :: "string list"
  TopConditions :: "Condition list"

record Topology =
  TopName :: string
  TopNamespace :: string
  Generation :: int
  DeletionTimestamp :: "Time option"
  Finalizers :: "string list"
  TopSpec :: TopologySpec
  TopStatus :: TopologyStatus

section \<open>ChaosPhase\<close>

datatype FaultType =
    FaultNetworkDelay | FaultNetworkBandwidth | FaultNetworkLoss | FaultNetworkPartition
  | FaultCPUStress | FaultMemoryStress | FaultCustom | FaultOther string

fun faultTypeString :: "FaultType \<Rightarrow> string" where
  "faultTypeString FaultNetworkDelay = ''NetworkDelay''"
| "faultTypeString FaultNetworkBandwidth = ''NetworkBandwidth''"
| "faultTypeString FaultNetworkLoss = ''NetworkLoss''"
| "faultTypeString FaultNetworkPartition = ''NetworkPartition''"
| "faultTypeString FaultCPUStress = ''CPUStress''"
| "faultTypeString FaultMemoryStress = ''MemoryStress''"
| "faultTypeString FaultCustom = ''Custom''"
| "faultTypeString (FaultOther s) = s"

record FaultSpec =
  Type :: FaultType
  FaultZones :: "string list"
  FaultLatency :: string
  FaultJitter :: string
  FaultBandwidth :: string
  FaultPacketLoss :: string
  Workers :: int32
  CpuLoad :: int32
  Size :: string
  Manifest :: string

record ChaosPhaseSpec =
  CpTopologyRef :: LocalObjectReference
  Faults :: "FaultSpec list"

record ChaosPhase =
  CpName :: string
  CpNamespace :: string
  CpSpec :: ChaosPhaseSpec

section \<open>The order of the sub-phases\<close>

text \<open>
  The sub-phases in the order a repetition goes through them. With it the type is a linear order of
  the library, so that ``a transition moves forward'' is \<open><\<close>.
\<close>

fun subPhaseRank :: "ExperimentSubPhase \<Rightarrow> nat" where
  "subPhaseRank SubPhaseIdle = 0"
| "subPhaseRank SubPhaseDeploying = 1"
| "subPhaseRank SubPhaseTopologyDelay = 2"
| "subPhaseRank SubPhaseWaitingForTopology = 3"
| "subPhaseRank SubPhaseLoadDelay = 4"
| "subPhaseRank SubPhasePreChaosMeasurement = 5"
| "subPhaseRank SubPhaseApplyingChaos = 6"
| "subPhaseRank SubPhaseChaosMeasurement = 7"
| "subPhaseRank SubPhaseCleanup = 8"
| "subPhaseRank SubPhasePause = 9"
| "subPhaseRank (SubPhaseOther s) = 10"

definition subPhaseKey :: "ExperimentSubPhase \<Rightarrow> nat \<times> string" where
  "subPhaseKey p = (subPhaseRank p, case p of SubPhaseOther s \<Rightarrow> s | _ \<Rightarrow> '''')"

lemma subPhaseKey_inject: "subPhaseKey p = subPhaseKey q \<Longrightarrow> p = q"
  by (cases p; cases q) (simp_all add: subPhaseKey_def)

instantiation ExperimentSubPhase :: linorder
begin

definition less_eq_ExperimentSubPhase :: "ExperimentSubPhase \<Rightarrow> ExperimentSubPhase \<Rightarrow> bool" where
  "less_eq_ExperimentSubPhase p q \<longleftrightarrow> subPhaseKey p \<le> subPhaseKey q"

definition less_ExperimentSubPhase :: "ExperimentSubPhase \<Rightarrow> ExperimentSubPhase \<Rightarrow> bool" where
  "less_ExperimentSubPhase p q \<longleftrightarrow> subPhaseKey p < subPhaseKey q"

instance
  by standard
    (auto simp: less_eq_ExperimentSubPhase_def less_ExperimentSubPhase_def subPhaseKey_inject)

end

end
