(* ===== verification/Measurement.thy ===== *)
theory Measurement
  imports Api_Types
begin

text \<open>
  The measurement arithmetic of \<open>internal/controller/experiment_controller.go\<close>: the running
  aggregates of one service level objective (\<open>recordMeasurementAggregate\<close>,
  \<open>recordMeasurement\<close>) and the result of a repetition (\<open>buildRepetitionResult\<close>).
  Each product is rounded before it is added: the language would allow the two to be fused, which the compiler does on
  some machines but not on the usual amd64.
\<close>

section \<open>Definitions\<close>

definition derefOr :: "int32 option \<Rightarrow> int32 \<Rightarrow> int32" where
  "derefOr duration fallback = (case duration of Some d \<Rightarrow> d | None \<Rightarrow> fallback)"

text \<open>The state \<open>SLOMeasurementState{Name: name}\<close>, all other fields zero.\<close>

definition freshState :: "string \<Rightarrow> SLOMeasurementState" where
  "freshState name = \<lparr>StName = name, Sum = fzero, Count = 0, Violations = 0, MinVal = fzero,
     MaxVal = fzero, MinSet = False, Values = []\<rparr>"

definition violates :: "SLOConfig \<Rightarrow> float64 \<Rightarrow> bool" where
  "violates slo value = (if IsBiggerBetter slo then flt value (Threshold slo) else flt (Threshold slo) value)"

definition recordMeasurementAggregate ::
  "SLOMeasurementState \<Rightarrow> float64 \<Rightarrow> SLOConfig \<Rightarrow> SLOMeasurementState" where
  "recordMeasurementAggregate state value slo =
     (let s1 = state\<lparr>Sum := fadd (Sum state) value, Count := Count state + 1\<rparr>;
          s2 = (if \<not> MinSet s1 \<or> flt value (MinVal s1) then s1\<lparr>MinVal := value, MinSet := True\<rparr> else s1);
          s3 = (if flt (MaxVal s2) value then s2\<lparr>MaxVal := value\<rparr> else s2)
      in (if violates slo value then s3\<lparr>Violations := Violations s3 + 1\<rparr> else s3))"

text \<open>\<open>None\<close> is the run-time panic of \<open>elapsed%sampleInterval\<close> for a zero interval.\<close>

definition recordMeasurement ::
  "SLOMeasurementState \<Rightarrow> float64 \<Rightarrow> SLOConfig \<Rightarrow> int32 \<Rightarrow> int32 \<Rightarrow> SLOMeasurementState option" where
  "recordMeasurement state value slo elapsed sampleInterval =
     (if sampleInterval = 0 then None
      else if i32_rem elapsed sampleInterval = 0
      then (let s = recordMeasurementAggregate state value slo in Some (s\<lparr>Values := Values s @ [value]\<rparr>))
      else Some state)"

text \<open>The zero value of \<open>SLOConfig\<close>, which a lookup of a missing key yields.\<close>

definition zeroSLO :: SLOConfig where
  "zeroSLO = \<lparr>SloName = '''', DisplayName = '''', Description = '''', Query = '''', Threshold = fzero,
     SloThresholdDirection = ThresholdOther '''', IsBiggerBetter = False, Weight = fzero\<rparr>"

definition sloByName :: "SLOConfig list \<Rightarrow> string \<Rightarrow> SLOConfig option" where
  "sloByName slos = foldl (\<lambda>m slo. m(SloName slo \<mapsto> slo)) Map.empty slos"

definition meanOf :: "SLOMeasurementState \<Rightarrow> float64" where
  "meanOf state = (if i32_lt 0 (Count state) then fdiv (Sum state) (floatOfInt (sint (Count state))) else fzero)"

definition totalViolationScore :: "SLOConfig \<Rightarrow> float64 \<Rightarrow> float64" where
  "totalViolationScore slo meanSli =
     (if IsBiggerBetter slo
      then (if flt meanSli (Threshold slo) then fsub fone (fdiv meanSli (Threshold slo)) else fzero)
      else (if flt (Threshold slo) meanSli then fsub fone (fdiv (Threshold slo) meanSli) else fzero))"

definition violationScoreOf :: "(string \<Rightarrow> SLOConfig option) \<Rightarrow> SLOMeasurementState \<Rightarrow> float64" where
  "violationScoreOf byName state =
     (if i32_lt 0 (Count state)
      then totalViolationScore (case byName (StName state) of Some slo \<Rightarrow> slo | None \<Rightarrow> zeroSLO) (meanOf state)
      else fzero)"

definition sloResultOf :: "(string \<Rightarrow> SLOConfig option) \<Rightarrow> SLOMeasurementState \<Rightarrow> SLOResult" where
  "sloResultOf byName state =
     \<lparr>ResName = StName state, ViolationScore = violationScoreOf byName state, MeanSli = meanOf state,
      MinSli = (if MinSet state then Some (MinVal state) else None),
      MaxSli = (if MinSet state then Some (MaxVal state) else None),
      Evaluations = Count state, ResViolations = Violations state\<rparr>"

definition addScore :: "(string \<Rightarrow> SLOConfig option) \<Rightarrow> float64 \<Rightarrow> SLOMeasurementState \<Rightarrow> float64" where
  "addScore byName aggregateScore state =
     (case byName (StName state) of
        Some slo \<Rightarrow> fadd aggregateScore (fmul (violationScoreOf byName state) (Weight slo))
      | None \<Rightarrow> aggregateScore)"

definition buildRepetitionResult ::
  "int32 \<Rightarrow> SLOConfig list \<Rightarrow> SLOMeasurementState list \<Rightarrow> RepetitionResult" where
  "buildRepetitionResult repetition slos states =
     (let byName = sloByName slos
      in \<lparr>Repetition = repetition, RepSloResults = map (sloResultOf byName) states,
          RepAggregateScore = foldl (addScore byName) fzero states\<rparr>)"

section \<open>Choosing an extremum step by step\<close>

text \<open>
  The minimum and the maximum are kept by comparing each new value with the best so far. What that
  finds depends only on the comparison being a strict weak order on the values that are not NaN.
\<close>

definition better :: "('v \<Rightarrow> 'v \<Rightarrow> bool) \<Rightarrow> 'v \<Rightarrow> 'v \<Rightarrow> 'v" where
  "better before b v = (if before v b then v else b)"

locale strict_choice =
  fixes ok :: "'v \<Rightarrow> bool" and before :: "'v \<Rightarrow> 'v \<Rightarrow> bool"
  assumes before_irrefl: "\<not> before x x"
    and before_asym: "before x y \<Longrightarrow> \<not> before y x"
    and not_before_trans: "ok x \<Longrightarrow> ok y \<Longrightarrow> ok z \<Longrightarrow> \<not> before x y \<Longrightarrow> \<not> before y z \<Longrightarrow> \<not> before x z"
begin

lemma fold_better_in: "foldl (better before) b vs \<in> set (b # vs)"
  by (induction vs arbitrary: b) (auto simp: better_def split: if_splits)

lemma fold_better_le_start:
  "ok b \<Longrightarrow> list_all ok vs \<Longrightarrow> \<not> before b (foldl (better before) b vs)"
proof (induction vs arbitrary: b)
  case (Cons v vs)
  let ?c = "better before b v"
  have c: "ok ?c" "\<not> before b ?c" using Cons.prems by (auto simp: better_def before_irrefl dest: before_asym)
  have "ok (foldl (better before) ?c vs)"
    using fold_better_in [of ?c vs] c Cons.prems(2) by (auto simp: list_all_iff)
  moreover have "\<not> before ?c (foldl (better before) ?c vs)"
    using Cons.IH [of ?c] c Cons.prems(2) by simp
  ultimately have "\<not> before b (foldl (better before) ?c vs)"
    using not_before_trans [of b ?c] c Cons.prems(1) by blast
  then show ?case by simp
qed (simp add: before_irrefl)

lemma fold_better_best:
  "ok b \<Longrightarrow> list_all ok vs \<Longrightarrow> x \<in> set vs \<Longrightarrow> \<not> before x (foldl (better before) b vs)"
proof (induction vs arbitrary: b)
  case (Cons v vs)
  let ?c = "better before b v"
  have c: "ok ?c" "\<not> before v ?c" using Cons.prems by (auto simp: better_def before_irrefl dest: before_asym)
  have "ok (foldl (better before) ?c vs)"
    using fold_better_in [of ?c vs] c Cons.prems(2) by (auto simp: list_all_iff)
  moreover have "\<not> before ?c (foldl (better before) ?c vs)"
    using fold_better_le_start c Cons.prems(2) by auto
  ultimately have "\<not> before v (foldl (better before) ?c vs)"
    using not_before_trans [of v ?c] c Cons.prems(2) by auto
  with Cons.IH [of ?c] c Cons.prems show ?case by auto
qed simp

end

interpretation lowest: strict_choice "\<lambda>x. \<not> isNaN x" flt
  by unfold_locales (auto simp: flt_def)

interpretation highest: strict_choice "\<lambda>x. \<not> isNaN x" "\<lambda>x y. flt y x"
  by unfold_locales (auto simp: flt_def)

section \<open>The aggregates of a window\<close>

text \<open>All values of a window, in the order they were observed.\<close>

definition recordAll :: "SLOConfig \<Rightarrow> SLOMeasurementState \<Rightarrow> float64 list \<Rightarrow> SLOMeasurementState" where
  "recordAll slo = foldl (\<lambda>st v. recordMeasurementAggregate st v slo)"

lemma recordAll_simps [simp]:
  "recordAll slo st [] = st"
  "recordAll slo st (v # vs) = recordAll slo (recordMeasurementAggregate st v slo) vs"
  by (simp_all add: recordAll_def)

lemma aggregate_fields [simp]:
  "StName (recordMeasurementAggregate st v slo) = StName st"
  "Sum (recordMeasurementAggregate st v slo) = fadd (Sum st) v"
  "Count (recordMeasurementAggregate st v slo) = Count st + 1"
  "Violations (recordMeasurementAggregate st v slo) = Violations st + (if violates slo v then 1 else 0)"
  "MinSet (recordMeasurementAggregate st v slo)"
  "MinVal (recordMeasurementAggregate st v slo) = (if MinSet st then better flt (MinVal st) v else v)"
  "MaxVal (recordMeasurementAggregate st v slo) = better (\<lambda>x y. flt y x) (MaxVal st) v"
  "Values (recordMeasurementAggregate st v slo) = Values st"
  by (auto simp: recordMeasurementAggregate_def Let_def better_def)

lemma recordAll_fields:
  "StName (recordAll slo st vs) = StName st"
  "Sum (recordAll slo st vs) = foldl fadd (Sum st) vs"
  "Count (recordAll slo st vs) = Count st + of_nat (length vs)"
  "Violations (recordAll slo st vs) = Violations st + of_nat (length (filter (violates slo) vs))"
  "MaxVal (recordAll slo st vs) = foldl (better (\<lambda>x y. flt y x)) (MaxVal st) vs"
  "Values (recordAll slo st vs) = Values st"
  by (induction vs arbitrary: st) (simp_all add: algebra_simps)

lemma recordAll_min:
  "MinSet st \<Longrightarrow> MinSet (recordAll slo st vs) \<and> MinVal (recordAll slo st vs) = foldl (better flt) (MinVal st) vs"
  by (induction vs arbitrary: st) simp_all

lemma window_minimum:
  assumes "list_all (\<lambda>v. \<not> isNaN v) vs" "vs \<noteq> []"
  shows "MinSet (recordAll slo (freshState n) vs)" "MinVal (recordAll slo (freshState n) vs) \<in> set vs"
    "v \<in> set vs \<Longrightarrow> fle (MinVal (recordAll slo (freshState n) vs)) v"
proof -
  obtain w ws where vs: "vs = w # ws" using assms(2) by (cases vs) auto
  let ?m = "foldl (better flt) w ws"
  have min: "MinSet (recordAll slo (freshState n) vs)" "MinVal (recordAll slo (freshState n) vs) = ?m"
    using recordAll_min [of "recordMeasurementAggregate (freshState n) w slo" slo ws]
    by (simp_all add: vs freshState_def)
  have nan: "\<not> isNaN w" "list_all (\<lambda>v. \<not> isNaN v) ws" using assms(1) by (auto simp: vs)
  have "fle ?m v" if "v \<in> set vs" for v
    using that nan lowest.fold_better_le_start [OF nan] lowest.fold_better_best [OF nan]
      lowest.fold_better_in [of w ws] assms(1)
    by (auto simp: vs list_all_iff simp flip: not_flt)
  then show "MinSet (recordAll slo (freshState n) vs)" "MinVal (recordAll slo (freshState n) vs) \<in> set vs"
    "v \<in> set vs \<Longrightarrow> fle (MinVal (recordAll slo (freshState n) vs)) v"
    using min lowest.fold_better_in [of w ws] by (simp_all add: vs)
qed

lemma recordMeasurement_fields:
  assumes "recordMeasurement st v slo elapsed iv = Some st'"
  shows "StName st' = StName st"
  using assms by (auto simp: recordMeasurement_def Let_def split: if_splits)

section \<open>Properties\<close>

text \<open>
  C18. The aggregates of a measurement window are what they are called: after any non-empty sequence of
  values that are not NaN, recorded from the fresh state, \<open>Count\<close> is their number (as an
  \<open>int32\<close>), \<open>Sum\<close> their sum in order of arrival, \<open>Violations\<close> the number of values on the
  wrong side of the threshold, and \<open>Min\<close> one of them that none of the others is below.
\<close>

theorem window_aggregates:
  assumes "list_all (\<lambda>v. \<not> isNaN v) vs" "vs \<noteq> []"
  shows "let st = recordAll slo (freshState n) vs in
     Count st = of_nat (length vs) \<and> Sum st = foldl fadd fzero vs \<and>
     Violations st = of_nat (length (filter (violates slo) vs)) \<and>
     MinSet st \<and> MinVal st \<in> set vs \<and> (\<forall>v \<in> set vs. fle (MinVal st) v)"
  using window_minimum [OF assms] by (simp add: recordAll_fields freshState_def)

theorem window_aggregates_witness:
  "MinVal (recordAll zeroSLO (freshState ''a'') [FFin False 3, FFin False 2]) \<in> {FFin False 3, FFin False 2}"
  using window_aggregates [of "[FFin False 3, FFin False 2]" zeroSLO "''a''"]
  by (simp add: isNaN_def)

text \<open>
  \<open>Max\<close> is the largest observed value only when some value is not negative: its initial zero
  takes part in the comparison. So it is the largest of the values and zero, and a window whose values
  are all negative reports the maximum \<open>0\<close>, which was never observed.
\<close>

theorem window_maximum:
  assumes "list_all (\<lambda>v. \<not> isNaN v) vs"
  shows "let m = MaxVal (recordAll slo (freshState n) vs) in
    m \<in> set (fzero # vs) \<and> (\<forall>v \<in> set (fzero # vs). fle v m) \<and>
    (list_all (\<lambda>v. flt v fzero) vs \<longrightarrow> m = fzero)"
proof -
  let ?m = "foldl (better (\<lambda>x y. flt y x)) fzero vs"
  have m: "MaxVal (recordAll slo (freshState n) vs) = ?m" by (simp add: recordAll_fields freshState_def)
  have z: "\<not> isNaN fzero" by (simp add: fzero_def isNaN_def)
  have in_set: "?m \<in> set (fzero # vs)" by (rule highest.fold_better_in)
  then have ok: "\<not> isNaN ?m" using z assms(1) by (auto simp: list_all_iff)
  have all: "fle v ?m" if "v \<in> set (fzero # vs)" for v
    using that z ok highest.fold_better_le_start [OF z assms(1)] highest.fold_better_best [OF z assms(1)]
      assms(1) by (auto simp: list_all_iff simp flip: not_flt)
  have "?m = fzero" if "list_all (\<lambda>v. flt v fzero) vs"
    using that in_set all [of fzero] by (auto simp: list_all_iff flt_def fle_def)
  with in_set all show ?thesis unfolding m Let_def by blast
qed

theorem window_maximum_witness:
  "MaxVal (recordAll zeroSLO (freshState ''a'') [FFin True 3, FFin True 2]) = fzero"
  using window_maximum [of "[FFin True 3, FFin True 2]" zeroSLO "''a''"]
  by (simp add: isNaN_def fzero_def signed_def Let_def)

text \<open>
  C19. The violation score of an objective with a positive threshold and a non-negative finite mean is
  a number between 0 and 1, as \<open>SLOResult.ViolationScore\<close> documents, and it is 0 when the mean is on
  the right side of the threshold.
\<close>

theorem violation_score_unit:
  assumes "Threshold slo = FFin False t" "0 < t" "0 \<le> m"
  shows "\<exists>r. totalViolationScore slo (FFin False m) = FFin False r \<and> 0 \<le> r \<and> r \<le> 1 \<and>
    (\<not> violates slo (FFin False m) \<longrightarrow> r = 0)"
proof -
  consider (up) "IsBiggerBetter slo" "m < t" | (down) "\<not> IsBiggerBetter slo" "t < m"
    | (fine) "\<not> violates slo (FFin False m)"
    using assms(1) by (cases "IsBiggerBetter slo"; cases "violates slo (FFin False m)")
      (simp_all add: violates_def signed_def)
  then show ?thesis
  proof cases
    case up
    then obtain r where "fsub fone (fdiv (FFin False m) (FFin False t)) = FFin False r" "0 \<le> r" "r \<le> 1"
      using one_minus_quotient_unit [of m t] assms(2,3) by auto
    with up assms(1) show ?thesis by (simp add: totalViolationScore_def violates_def signed_def)
  next
    case down
    then obtain r where "fsub fone (fdiv (FFin False t) (FFin False m)) = FFin False r" "0 \<le> r" "r \<le> 1"
      using one_minus_quotient_unit [of t m] assms(2) by auto
    with down assms(1) show ?thesis by (simp add: totalViolationScore_def violates_def signed_def)
  next
    case fine
    then have "totalViolationScore slo (FFin False m) = FFin False 0"
      by (auto simp: totalViolationScore_def violates_def fzero_def)
    then show ?thesis by simp
  qed
qed

theorem violation_score_unit_witness:
  "\<exists>r. totalViolationScore (zeroSLO\<lparr>Threshold := FFin False 2\<rparr>) (FFin False 4) = FFin False r \<and> 0 \<le> r \<and> r \<le> 1"
  using violation_score_unit [of "zeroSLO\<lparr>Threshold := FFin False 2\<rparr>" 2 4] by auto

text \<open>
  Outside those hypotheses the documented range does not hold: with threshold 1, higher values
  better, a mean of \<open>-1\<close> scores 2; with threshold 0 the score is infinite.
\<close>

theorem violation_score_escapes:
  "totalViolationScore (zeroSLO\<lparr>Threshold := fone, IsBiggerBetter := True\<rparr>) (FFin True 1) = FFin False 2 \<and>
   totalViolationScore (zeroSLO\<lparr>IsBiggerBetter := True\<rparr>) (FFin True 1) = FInf False"
  by (simp add: totalViolationScore_def zeroSLO_def fone_def fzero_def signed_def fsub_def)

text \<open>
  The comparison direction of an objective plays no part: neither the count of violations nor the
  score reads \<open>thresholdDirection\<close>, and a value equal to the threshold never counts as a violation.
\<close>

theorem threshold_direction_ignored:
  "recordMeasurementAggregate st v (slo\<lparr>SloThresholdDirection := d\<rparr>) = recordMeasurementAggregate st v slo \<and>
   totalViolationScore (slo\<lparr>SloThresholdDirection := d\<rparr>) v = totalViolationScore slo v \<and>
   Violations (recordMeasurementAggregate st (Threshold slo) slo) = Violations st"
  by (simp add: recordMeasurementAggregate_def violates_def totalViolationScore_def Let_def)

text \<open>The last objective of a name is the one a lookup finds.\<close>

lemma sloByName_map_of: "sloByName slos = map_of (rev (map (\<lambda>slo. (SloName slo, slo)) slos))"
proof -
  have "foldl (\<lambda>m slo. m(SloName slo \<mapsto> slo)) m0 slos = m0 ++ map_of (rev (map (\<lambda>slo. (SloName slo, slo)) slos))"
    for m0 :: "string \<Rightarrow> SLOConfig option"
    by (induction slos arbitrary: m0) (auto simp: map_add_def fun_eq_iff split: option.split)
  then show ?thesis by (simp add: sloByName_def)
qed

lemma sloByName_distinct:
  "distinct (map SloName slos) \<Longrightarrow> slo \<in> set slos \<Longrightarrow> sloByName slos (SloName slo) = Some slo"
  by (subst sloByName_map_of, rule map_of_is_SomeI) (simp_all add: rev_map comp_def flip: distinct_rev [of "map SloName slos"])

lemma sint_of_nat32: "n < 2 ^ 31 \<Longrightarrow> sint (of_nat n :: int32) = int n"
  by (simp add: signed_of_nat signed_take_bit_int_eq_self)

text \<open>The states of a window in which each objective has seen the values listed for it.\<close>

definition windowStates :: "(SLOConfig \<times> float64 list) list \<Rightarrow> SLOMeasurementState list" where
  "windowStates windows = map (\<lambda>(slo, vs). recordAll slo (freshState (SloName slo)) vs) windows"

definition resultReports :: "SLOConfig \<Rightarrow> float64 list \<Rightarrow> SLOResult \<Rightarrow> bool" where
  "resultReports slo vs r \<longleftrightarrow>
     ResName r = SloName slo \<and> sint (Evaluations r) = int (length vs) \<and>
     sint (ResViolations r) =
       int (length (filter (\<lambda>v. if IsBiggerBetter slo then flt v (Threshold slo) else flt (Threshold slo) v) vs)) \<and>
     (if vs = [] then MinSli r = None \<and> MaxSli r = None \<and> MeanSli r = fzero \<and> ViolationScore r = fzero
      else (\<exists>low \<in> set vs. MinSli r = Some low \<and> (\<forall>v \<in> set vs. fle low v)) \<and>
        (\<exists>high \<in> set (fzero # vs). MaxSli r = Some high \<and> (\<forall>v \<in> set (fzero # vs). fle v high)) \<and>
        MeanSli r = fdiv (foldl fadd fzero vs) (floatOfInt (int (length vs))) \<and>
        ViolationScore r = totalViolationScore slo (MeanSli r))"

lemma sloResultOf_reports:
  assumes "list_all (\<lambda>v. \<not> isNaN v) vs" "length vs < 2 ^ 31" "byName (SloName slo) = Some slo"
  shows "resultReports slo vs (sloResultOf byName (recordAll slo (freshState (SloName slo)) vs))"
proof -
  let ?st = "recordAll slo (freshState (SloName slo)) vs"
  have count: "sint (Count ?st) = int (length vs)"
    using assms(2) by (simp add: recordAll_fields freshState_def sint_of_nat32)
  have "length (filter (violates slo) vs) < 2 ^ 31"
    using assms(2) by (rule le_less_trans [OF length_filter_le])
  then have violations: "sint (Violations ?st) =
      int (length (filter (\<lambda>v. if IsBiggerBetter slo then flt v (Threshold slo) else flt (Threshold slo) v) vs))"
    by (simp add: recordAll_fields freshState_def sint_of_nat32 violates_def [abs_def])
  have mean: "meanOf ?st = (if vs = [] then fzero else fdiv (foldl fadd fzero vs) (floatOfInt (int (length vs))))"
    by (simp add: meanOf_def i32_lt_def count) (simp add: recordAll_fields freshState_def)
  show ?thesis
  proof (cases "vs = []")
    case True
    with count violations mean show ?thesis
      by (simp add: resultReports_def sloResultOf_def violationScoreOf_def freshState_def i32_lt_def)
  next
    case False
    have m: "MaxVal ?st \<in> set (fzero # vs) \<and> (\<forall>v \<in> set (fzero # vs). fle v (MaxVal ?st))"
      using window_maximum [OF assms(1), of slo "SloName slo"] by (simp add: Let_def)
    have name: "StName ?st = SloName slo" by (simp add: recordAll_fields freshState_def)
    show ?thesis
      using False count violations mean m window_minimum [OF assms(1) False, where slo = slo and n = "SloName slo"]
      by (simp add: resultReports_def sloResultOf_def violationScoreOf_def name assms(3) i32_lt_def)
  qed
qed

text \<open>
  C20. \<open>buildRepetitionResult\<close> reports on every objective of a measurement window, in order, under its name: how many
  values were taken and how many of them were on the wrong side of the threshold, their minimum, their maximum (zero takes
  part in it), their mean as the sum in order of arrival divided by their number, and the score of that mean; an objective
  without a value has neither minimum nor maximum and scores zero. The aggregate is the sum of the scores, each times the
  weight of its objective. The values are no NaN and fewer than \<open>2 ^ 31\<close>, and no two objectives have the same name.
\<close>

theorem repetition_result_reports:
  assumes "distinct (map (SloName \<circ> fst) windows)"
    and "\<forall>(slo, vs) \<in> set windows. list_all (\<lambda>v. \<not> isNaN v) vs \<and> length vs < 2 ^ 31"
  shows "let r = buildRepetitionResult rep (map fst windows) (windowStates windows) in
     Repetition r = rep \<and> list_all2 (\<lambda>(slo, vs). resultReports slo vs) windows (RepSloResults r) \<and>
     RepAggregateScore r = foldl (\<lambda>a (slo, x). fadd a (fmul (ViolationScore x) (Weight slo))) fzero
       (zip (map fst windows) (RepSloResults r))"
proof -
  let ?by = "sloByName (map fst windows)"
  let ?state = "\<lambda>(slo, vs). recordAll slo (freshState (SloName slo)) vs"
  have by_name: "?by (SloName (fst w)) = Some (fst w)" if "w \<in> set windows" for w
    using that assms(1) by (intro sloByName_distinct) (simp_all add: comp_def)
  have one: "case w of (slo, vs) \<Rightarrow> resultReports slo vs (sloResultOf ?by (?state w))" if "w \<in> set windows" for w
    using that assms(2) by_name [OF that] by (cases w) (auto intro!: sloResultOf_reports)
  have reports: "list_all2 (\<lambda>(slo, vs). resultReports slo vs) windows (map (sloResultOf ?by) (map ?state windows))"
    using one [OF nth_mem] by (simp add: list_all2_conv_all_nth split_beta)
  have "foldl (addScore ?by) a (map ?state ws) = foldl (\<lambda>a (slo, x). fadd a (fmul (ViolationScore x) (Weight slo))) a
      (zip (map fst ws) (map (sloResultOf ?by) (map ?state ws)))" if "set ws \<subseteq> set windows" for ws a
    using that
  proof (induction ws arbitrary: a)
    case (Cons w ws)
    then have "StName (?state w) = SloName (fst w)" "?by (SloName (fst w)) = Some (fst w)"
      by (auto simp: recordAll_fields freshState_def by_name split: prod.split)
    with Cons show ?case by (simp add: addScore_def sloResultOf_def)
  qed simp
  with reports show ?thesis
    by (simp add: buildRepetitionResult_def windowStates_def Let_def)
qed

theorem repetition_result_reports_witness:
  "resultReports zeroSLO [FFin False 3, FFin False 2]
     (hd (RepSloResults (buildRepetitionResult 1 [zeroSLO] (windowStates [(zeroSLO, [FFin False 3, FFin False 2])]))))"
  using repetition_result_reports [of "[(zeroSLO, [FFin False 3, FFin False 2])]" 1]
  by (simp add: isNaN_def Let_def list_all2_Cons1) (metis list.sel(1))

section \<open>Numbers stay binary64\<close>

text \<open>The states, objectives and results whose numbers are values of \<open>float64\<close>.\<close>

definition typedState :: "SLOMeasurementState \<Rightarrow> bool" where
  "typedState st \<longleftrightarrow> isFloat64 (Sum st) \<and> isFloat64 (MinVal st) \<and> isFloat64 (MaxVal st) \<and> list_all isFloat64 (Values st)"

definition typedSLO :: "SLOConfig \<Rightarrow> bool" where
  "typedSLO slo \<longleftrightarrow> isFloat64 (Threshold slo) \<and> isFloat64 (Weight slo)"

definition typedResult :: "SLOResult \<Rightarrow> bool" where
  "typedResult r \<longleftrightarrow> isFloat64 (ViolationScore r) \<and> isFloat64 (MeanSli r) \<and>
     pred_option isFloat64 (MinSli r) \<and> pred_option isFloat64 (MaxSli r)"

definition typedRepetition :: "RepetitionResult \<Rightarrow> bool" where
  "typedRepetition r \<longleftrightarrow> list_all typedResult (RepSloResults r) \<and> isFloat64 (RepAggregateScore r)"

lemma typed_freshState: "typedState (freshState name)"
  by (simp add: typedState_def freshState_def float_types)

lemma typed_recordMeasurementAggregate:
  "typedState st \<Longrightarrow> isFloat64 v \<Longrightarrow> typedState (recordMeasurementAggregate st v slo)"
  by (simp add: typedState_def recordMeasurementAggregate_def Let_def float_types)

lemma typed_meanOf: "typedState st \<Longrightarrow> isFloat64 (meanOf st)"
  by (simp add: typedState_def meanOf_def float_types)

lemma typed_totalViolationScore: "isFloat64 (Threshold slo) \<Longrightarrow> isFloat64 m \<Longrightarrow> isFloat64 (totalViolationScore slo m)"
  by (simp add: totalViolationScore_def float_types)

lemma sloByName_in: "sloByName slos name = Some slo \<Longrightarrow> slo \<in> set slos"
proof -
  have "foldl (\<lambda>m slo. m(SloName slo \<mapsto> slo)) m0 slos name = Some slo \<Longrightarrow> slo \<in> set slos \<or> m0 name = Some slo" for m0
    by (induction slos arbitrary: m0) (fastforce split: if_splits)+
  then show "sloByName slos name = Some slo \<Longrightarrow> slo \<in> set slos" by (fastforce simp: sloByName_def)
qed

lemma typed_violationScoreOf:
  "list_all typedSLO slos \<Longrightarrow> typedState st \<Longrightarrow> isFloat64 (violationScoreOf (sloByName slos) st)"
  by (auto simp: violationScoreOf_def zeroSLO_def typed_meanOf typedSLO_def list_all_iff float_types
      intro!: typed_totalViolationScore dest: sloByName_in split: option.split)

lemma typed_sloResultOf:
  "list_all typedSLO slos \<Longrightarrow> typedState st \<Longrightarrow> typedResult (sloResultOf (sloByName slos) st)"
  by (auto simp: typedResult_def sloResultOf_def typed_meanOf typed_violationScoreOf typedState_def)

lemma typed_addScore:
  "list_all typedSLO slos \<Longrightarrow> typedState st \<Longrightarrow> isFloat64 a \<Longrightarrow> isFloat64 (addScore (sloByName slos) a st)"
  by (auto simp: addScore_def typedSLO_def list_all_iff
      intro!: isFloat64_fadd isFloat64_fmul typed_violationScoreOf dest: sloByName_in split: option.split)

lemma typed_buildRepetitionResult:
  assumes "list_all typedSLO slos" "list_all typedState states"
  shows "typedRepetition (buildRepetitionResult n slos states)"
proof -
  have "isFloat64 a \<Longrightarrow> isFloat64 (foldl (addScore (sloByName slos)) a states)" for a
    using assms(2) by (induction states arbitrary: a) (simp_all add: typed_addScore assms(1))
  then show ?thesis using assms
    by (simp add: typedRepetition_def buildRepetitionResult_def Let_def list.pred_map list_all_iff typed_sloResultOf float_types)
qed

end
