(* ===== verification/Kube_Client.thy ===== *)
theory Kube_Client
  imports Api_Types
begin

text \<open>
  What the controllers talk to: the Kubernetes API server behind controller-runtime's
  \<open>client.Client\<close>, the clock, the random source, Prometheus, and the third-party decoders. None of
  it is code of this repository, so all of it is the parameter \<open>'w env\<close>, over an arbitrary type
  \<open>'w\<close> of world states. Nothing is assumed about it here: a theorem about a definition below
  holds for every API server, whatever it answers and however other clients change the cluster
  between two calls.

  The state of a run also keeps the list of the calls made so far, each with whether it succeeded.
  No definition reads this list; it is what the theorems about effects speak of.
\<close>

section \<open>Objects\<close>

text \<open>
  \<open>Data\<close> of a ConfigMap is a Go map: the list of its entries with distinct keys. An existing
  ConfigMap has a creation timestamp.
\<close>

record ConfigMap =
  CmNamespace :: string
  CmName :: string
  CmData :: "(string \<times> string) list"
  CmCreationTimestamp :: "Time option"

record Namespace =
  NsName :: string
  NsLabels :: "(string \<times> string) list"

record ResourceQuota =
  RqNamespace :: string
  RqName :: string
  RqLabels :: "(string \<times> string) list"
  RqHard :: "(string \<times> string) list"

text \<open>
  \<open>unstructured.Unstructured\<close>: its identifying fields and the resource version by name; all
  other content is one JSON value.
\<close>

record Unstructured =
  UsAPIVersion :: string
  UsKind :: string
  UsNamespace :: string
  UsName :: string
  UsLabels :: "(string \<times> string) list"
  UsResourceVersion :: string
  UsSpec :: json

datatype kobj =
    OExperiment Experiment
  | OTopology Topology
  | OConfigMap ConfigMap
  | ONamespace Namespace
  | OQuota ResourceQuota
  | OUnstructured Unstructured

text \<open>What identifies an object: apiVersion, kind, namespace (empty if cluster-scoped), name.\<close>

datatype objkey = ObjKey (key_apiVersion: string) (key_kind: string) (key_ns: string) (key_name: string)

definition ecoscapeAPIVersion :: string where
  "ecoscapeAPIVersion = ''ecoscape.cau-se.de/v1alpha1''"

definition usKey :: "Unstructured \<Rightarrow> objkey" where
  "usKey u = ObjKey (UsAPIVersion u) (UsKind u) (UsNamespace u) (UsName u)"

definition cmKey :: "string \<Rightarrow> string \<Rightarrow> objkey" where
  "cmKey ns n = ObjKey ''v1'' ''ConfigMap'' ns n"

definition nsKey :: "string \<Rightarrow> objkey" where
  "nsKey n = ObjKey ''v1'' ''Namespace'' '''' n"

fun kobjKey :: "kobj \<Rightarrow> objkey" where
  "kobjKey (OExperiment e) = ObjKey ecoscapeAPIVersion ''Experiment'' (ExpNamespace e) (ExpName e)"
| "kobjKey (OTopology t) = ObjKey ecoscapeAPIVersion ''Topology'' (TopNamespace t) (TopName t)"
| "kobjKey (OConfigMap c) = cmKey (CmNamespace c) (CmName c)"
| "kobjKey (ONamespace n) = nsKey (NsName n)"
| "kobjKey (OQuota q) = ObjKey ''v1'' ''ResourceQuota'' (RqNamespace q) (RqName q)"
| "kobjKey (OUnstructured u) = usKey u"

section \<open>Calls\<close>

text \<open>
  \<open>Patch obj base\<close> and \<open>StatusPatch obj base\<close> are \<open>Patch(ctx, obj,
  client.MergeFrom(base))\<close>: the server receives the difference of the two. The last four are made by the
  command-line tool only: listing a kind in a namespace, printing, and writing files and directories.
\<close>

datatype call =
    Get objkey
  | Create kobj
  | Update kobj
  | Delete objkey
  | Patch kobj kobj
  | StatusPatch kobj kobj
  | StatusUpdate kobj
  | HttpGet string string int32
  | ListAll string string
  | Print string
  | WriteFile string string
  | MakeDir string

record 'w kst =
  world :: 'w
  calls :: "(call \<times> bool) list"

record 'w env =
  \<comment> \<open>third-party and library functions without an effect\<close>
  eYaml :: "string \<Rightarrow> goerr + Unstructured"
  eGroupOf :: "string \<Rightarrow> string"
  eGvString :: "string \<Rightarrow> string \<Rightarrow> string"
  eParseQuantity :: "string \<Rightarrow> goerr + string"
  eJsonError :: "string \<Rightarrow> goerr"
  eInt32Overflow :: "float64 \<Rightarrow> int32"
  \<comment> \<open>clock, random source, iteration order of maps\<close>
  eNow :: "'w \<Rightarrow> Time \<times> 'w"
  eRand :: "'w \<Rightarrow> nat \<times> 'w"
  eMapOrder :: "'w \<Rightarrow> nat list \<times> 'w"
  \<comment> \<open>Prometheus over HTTP: the body, or the error of the request\<close>
  eHttp :: "string \<Rightarrow> string \<Rightarrow> int32 \<Rightarrow> 'w \<Rightarrow> (goerr + string) \<times> 'w"
  \<comment> \<open>reads from the API server\<close>
  eGetExperiment :: "string \<Rightarrow> string \<Rightarrow> 'w \<Rightarrow> (goerr + Experiment) \<times> 'w"
  eGetTopology :: "string \<Rightarrow> string \<Rightarrow> 'w \<Rightarrow> (goerr + Topology) \<times> 'w"
  eGetChaosPhase :: "string \<Rightarrow> string \<Rightarrow> 'w \<Rightarrow> (goerr + ChaosPhase) \<times> 'w"
  eGetConfigMap :: "string \<Rightarrow> string \<Rightarrow> 'w \<Rightarrow> (goerr + ConfigMap) \<times> 'w"
  eGetNamespace :: "string \<Rightarrow> 'w \<Rightarrow> (goerr + Namespace) \<times> 'w"
  eGetQuota :: "string \<Rightarrow> string \<Rightarrow> 'w \<Rightarrow> (goerr + ResourceQuota) \<times> 'w"
  eGetUnstructured :: "objkey \<Rightarrow> 'w \<Rightarrow> (goerr + Unstructured) \<times> 'w"
  \<comment> \<open>writes to the API server\<close>
  eWrite :: "call \<Rightarrow> 'w \<Rightarrow> goerr option \<times> 'w"

section \<open>The programs' primitives\<close>

fun isInr :: "'a + 'b \<Rightarrow> bool" where
  "isInr (Inr _) = True"
| "isInr (Inl _) = False"

text \<open>A read: the call is recorded with whether it found something.\<close>

definition request :: "call \<Rightarrow> ('w \<Rightarrow> (goerr + 'a) \<times> 'w) \<Rightarrow> ('w kst, goerr + 'a) state" where
  "request c f = State (\<lambda>s. case f (world s) of
     (r, w) \<Rightarrow> (r, \<lparr>world = w, calls = calls s @ [(c, isInr r)]\<rparr>))"

text \<open>A write: \<open>None\<close> is Go's \<open>nil\<close> error.\<close>

definition perform :: "'w env \<Rightarrow> call \<Rightarrow> ('w kst, goerr option) state" where
  "perform k c = State (\<lambda>s. case eWrite k c (world s) of
     (r, w) \<Rightarrow> (r, \<lparr>world = w, calls = calls s @ [(c, r = None)]\<rparr>))"

text \<open>The same for what the command-line tool does to the outside.\<close>

definition act :: "call \<Rightarrow> ('w \<Rightarrow> goerr option \<times> 'w) \<Rightarrow> ('w kst, goerr option) state" where
  "act c f = State (\<lambda>s. case f (world s) of
     (r, w) \<Rightarrow> (r, \<lparr>world = w, calls = calls s @ [(c, r = None)]\<rparr>))"

lemma perform_act: "perform k c = act c (eWrite k c)"
  by (simp add: perform_def act_def)

text \<open>A question to the clock, the random source or the runtime leaves no call.\<close>

definition silent :: "('w \<Rightarrow> 'a \<times> 'w) \<Rightarrow> ('w kst, 'a) state" where
  "silent f = State (\<lambda>s. case f (world s) of (r, w) \<Rightarrow> (r, \<lparr>world = w, calls = calls s\<rparr>))"

definition now :: "'w env \<Rightarrow> ('w kst, Time) state" where
  "now k = silent (eNow k)"

text \<open>\<open>rand.Intn(n)\<close>, a number below \<open>n\<close>.\<close>

definition randIntn :: "'w env \<Rightarrow> nat \<Rightarrow> ('w kst, nat) state" where
  "randIntn k n = do { r \<leftarrow> silent (eRand k); ret (r mod n) }"

text \<open>The entries of a map in the order \<open>range\<close> visits them.\<close>

definition rangeMap :: "'w env \<Rightarrow> 'a list \<Rightarrow> ('w kst, 'a list) state" where
  "rangeMap k xs = do { ns \<leftarrow> silent (eMapOrder k); ret (draw ns xs) }"

definition getExperiment :: "'w env \<Rightarrow> string \<Rightarrow> string \<Rightarrow> ('w kst, goerr + Experiment) state" where
  "getExperiment k ns n = request (Get (ObjKey ecoscapeAPIVersion ''Experiment'' ns n)) (eGetExperiment k ns n)"

definition getTopology :: "'w env \<Rightarrow> string \<Rightarrow> string \<Rightarrow> ('w kst, goerr + Topology) state" where
  "getTopology k ns n = request (Get (ObjKey ecoscapeAPIVersion ''Topology'' ns n)) (eGetTopology k ns n)"

definition getChaosPhase :: "'w env \<Rightarrow> string \<Rightarrow> string \<Rightarrow> ('w kst, goerr + ChaosPhase) state" where
  "getChaosPhase k ns n = request (Get (ObjKey ecoscapeAPIVersion ''ChaosPhase'' ns n)) (eGetChaosPhase k ns n)"

definition getConfigMap :: "'w env \<Rightarrow> string \<Rightarrow> string \<Rightarrow> ('w kst, goerr + ConfigMap) state" where
  "getConfigMap k ns n = request (Get (cmKey ns n)) (eGetConfigMap k ns n)"

definition getNamespace :: "'w env \<Rightarrow> string \<Rightarrow> ('w kst, goerr + Namespace) state" where
  "getNamespace k n = request (Get (nsKey n)) (eGetNamespace k n)"

definition getQuota :: "'w env \<Rightarrow> string \<Rightarrow> string \<Rightarrow> ('w kst, goerr + ResourceQuota) state" where
  "getQuota k ns n = request (Get (ObjKey ''v1'' ''ResourceQuota'' ns n)) (eGetQuota k ns n)"

definition getUnstructured :: "'w env \<Rightarrow> objkey \<Rightarrow> ('w kst, goerr + Unstructured) state" where
  "getUnstructured k key = request (Get key) (eGetUnstructured k key)"

definition httpGet :: "'w env \<Rightarrow> string \<Rightarrow> string \<Rightarrow> int32 \<Rightarrow> ('w kst, goerr + string) state" where
  "httpGet k url q t = request (HttpGet url q t) (eHttp k url q t)"

lemmas get_defs = getExperiment_def getTopology_def getChaosPhase_def getConfigMap_def
  getNamespace_def getQuota_def getUnstructured_def httpGet_def

section \<open>Running a program backwards\<close>

text \<open>
  From the result of a run to what happened in it: a sequence is taken apart at each bind, and each
  primitive tells which call it left.
\<close>

lemma run_bindE:
  assumes "run (m \<bind> f) s = (x, s')"
  obtains a s1 where "run m s = (a, s1)" "run (f a) s1 = (x, s')"
  using assms by (cases "run m s") (auto simp: run_simps)

lemma run_retE:
  assumes "run (ret a) s = (x, s')"
  obtains "x = a" "s' = s"
  using assms by simp

lemma run_performE:
  assumes "run (perform k c) s = (r, s')"
  obtains "calls s' = calls s @ [(c, r = None)]" "r = fst (eWrite k c (world s))"
proof -
  obtain r' w where "eWrite k c (world s) = (r', w)" by fastforce
  with assms have "calls s' = calls s @ [(c, r = None)]" "r = fst (eWrite k c (world s))"
    by (auto simp: perform_def)
  then show thesis by (rule that)
qed

lemma run_requestE:
  assumes "run (request c f) s = (r, s')"
  obtains "calls s' = calls s @ [(c, isInr r)]" "r = fst (f (world s))"
proof -
  obtain r' w where "f (world s) = (r', w)" by fastforce
  with assms have "calls s' = calls s @ [(c, isInr r)]" "r = fst (f (world s))"
    by (auto simp: request_def)
  then show thesis by (rule that)
qed

lemma run_silentE:
  assumes "run (silent f) s = (r, s')"
  obtains "calls s' = calls s"
  using assms by (auto simp: silent_def split: prod.splits)

lemma run_nowE:
  assumes "run (now k) s = (r, s')"
  obtains "calls s' = calls s"
  using assms unfolding now_def by (rule run_silentE)

lemma run_rangeMapE:
  assumes "run (rangeMap k xs) s = (ys, s')"
  obtains "calls s' = calls s" "mset ys = mset xs" "set ys = set xs"
proof -
  from assms obtain ns where "calls s' = calls s" "ys = draw ns xs"
    unfolding rangeMap_def by (auto elim!: run_bindE run_silentE run_retE)
  then show thesis by (intro that) simp_all
qed

lemmas run_elims = run_bindE run_retE run_performE run_requestE run_silentE run_nowE run_rangeMapE

section \<open>What a program may send\<close>

text \<open>
  \<open>emits P m\<close>: whatever the world answers, \<open>m\<close> only appends to the calls, and every call it
  appends satisfies \<open>P\<close>. The rules below follow the structure of a program, so that a proof about
  the effects of a handler is one pass over its text.
\<close>

definition emits :: "(call \<times> bool \<Rightarrow> bool) \<Rightarrow> ('w kst, 'a) state \<Rightarrow> bool" where
  "emits P m \<longleftrightarrow> (\<forall>s. \<exists>cs. calls (snd (run m s)) = calls s @ cs \<and> list_all P cs)"

lemma emitsD:
  assumes "emits P m" "run m s = (r, s')"
  obtains cs where "calls s' = calls s @ cs" "list_all P cs"
  using assms unfolding emits_def by (metis snd_conv)

lemma emits_ret [trace_intro]: "emits P (ret x)"
  by (simp add: emits_def)

lemma emits_bind [trace_intro]:
  assumes "emits P m" "\<And>a. emits P (f a)"
  shows "emits P (m \<bind> f)"
  unfolding emits_def
proof
  fix s
  obtain a s1 where 1: "run m s = (a, s1)" by fastforce
  obtain b s2 where 2: "run (f a) s1 = (b, s2)" by fastforce
  from assms(1) 1 obtain cs where "calls s1 = calls s @ cs" "list_all P cs" by (rule emitsD)
  moreover from assms(2) 2 obtain ds where "calls s2 = calls s1 @ ds" "list_all P ds" by (rule emitsD)
  ultimately show "\<exists>cs. calls (snd (run (m \<bind> f) s)) = calls s @ cs \<and> list_all P cs"
    using 1 2 by (simp add: run_simps)
qed

lemma emits_request: "(\<And>b. P (c, b)) \<Longrightarrow> emits P (request c f)"
  by (auto simp: emits_def request_def split: prod.split)

lemma emits_perform: "(\<And>b. P (c, b)) \<Longrightarrow> emits P (perform k c)"
  by (auto simp: emits_def perform_def split: prod.split)

lemma emits_act: "(\<And>b. P (c, b)) \<Longrightarrow> emits P (act c f)"
  by (auto simp: emits_def act_def split: prod.split)

lemma emits_silent [trace_intro]: "emits P (silent f)"
  by (auto simp: emits_def silent_def split: prod.split)

lemma emits_now [trace_intro]: "emits P (now k)"
  by (simp add: now_def emits_silent)

lemma emits_randIntn [trace_intro]: "emits P (randIntn k n)"
  unfolding randIntn_def by (intro trace_intro)

lemma emits_rangeMap [trace_intro]: "emits P (rangeMap k xs)"
  unfolding rangeMap_def by (intro trace_intro)

lemma emits_if [trace_intro]: "(b \<Longrightarrow> emits P m) \<Longrightarrow> (\<not> b \<Longrightarrow> emits P n) \<Longrightarrow> emits P (if b then m else n)"
  by simp

lemma emits_option [trace_intro]:
  "(x = None \<Longrightarrow> emits P m) \<Longrightarrow> (\<And>a. x = Some a \<Longrightarrow> emits P (f a)) \<Longrightarrow>
   emits P (case x of None \<Rightarrow> m | Some a \<Rightarrow> f a)"
  by (cases x) simp_all

lemma emits_sum [trace_intro]:
  "(\<And>a. x = Inl a \<Longrightarrow> emits P (f a)) \<Longrightarrow> (\<And>b. x = Inr b \<Longrightarrow> emits P (g b)) \<Longrightarrow>
   emits P (case x of Inl a \<Rightarrow> f a | Inr b \<Rightarrow> g b)"
  by (cases x) simp_all

lemma emits_prod [trace_intro]:
  "(\<And>a b. x = (a, b) \<Longrightarrow> emits P (f a b)) \<Longrightarrow> emits P (case x of (a, b) \<Rightarrow> f a b)"
  by (cases x) simp

lemma emits_let [trace_intro]: "emits P (f x) \<Longrightarrow> emits P (Let x f)"
  by simp

lemma emits_forEach [trace_intro]:
  "(\<And>x. x \<in> set xs \<Longrightarrow> emits P (body x)) \<Longrightarrow> emits P (forEach body xs)"
  by (induction xs) (auto intro!: trace_intro)

lemma emits_traverse [trace_intro]:
  "(\<And>x. x \<in> set xs \<Longrightarrow> emits P (body x)) \<Longrightarrow> emits P (State_Monad.traverse_list body xs)"
  by (induction xs) (auto intro!: trace_intro)

lemma emits_mono: "emits P m \<Longrightarrow> (\<And>c. P c \<Longrightarrow> Q c) \<Longrightarrow> emits Q m"
  by (fastforce simp: emits_def list_all_iff)

lemma emits_appended:
  assumes "emits P m" "run m s = (r, s')" "c \<in> set (calls s')"
  shows "c \<in> set (calls s) \<or> P c"
proof -
  from assms(1,2) obtain cs where "calls s' = calls s @ cs" "list_all P cs" by (rule emitsD)
  with assms(3) show ?thesis by (auto simp: list_all_iff)
qed

text \<open>
  The calls a program has issued, whether or not they succeeded, and how they grow. For a loop
  whose body issues calls that depend on its element alone, the calls are known in advance; the
  deletion loops of all three cleanup routines are of this kind.
\<close>

definition issued :: "'w kst \<Rightarrow> call list" where
  "issued s = map fst (calls s)"

locale fixed_calls =
  fixes body :: "'a \<Rightarrow> ('w kst, 'b) state"
    and sent :: "'a \<Rightarrow> call list"
  assumes body_issues: "issued (snd (run (body x) s)) = issued s @ sent x"
begin

lemma loop_issues: "issued (snd (run (forEach body xs) s)) = issued s @ concat (map sent xs)"
proof (induction xs arbitrary: s)
  case (Cons x xs)
  obtain u s1 where 1: "run (body x) s = (u, s1)" by (cases "run (body x) s") auto
  with body_issues [of x s] have "issued s1 = issued s @ sent x" by simp
  with 1 Cons.IH [of s1] show ?case by (simp add: run_simps)
qed simp

lemma traverse_issues:
  "issued (snd (run (State_Monad.traverse_list body xs) s)) = issued s @ concat (map sent xs)"
proof (induction xs arbitrary: s)
  case (Cons x xs)
  obtain u s1 where 1: "run (body x) s = (u, s1)" by (cases "run (body x) s") auto
  with body_issues [of x s] have 2: "issued s1 = issued s @ sent x" by simp
  obtain us s2 where 3: "run (State_Monad.traverse_list body xs) s1 = (us, s2)" by fastforce
  with Cons.IH [of s1] 1 2 show ?case by (simp add: run_simps)
qed simp

lemma loop_sends: "x \<in> set xs \<Longrightarrow> c \<in> set (sent x) \<Longrightarrow> c \<in> set (issued (snd (run (forEach body xs) s)))"
  by (auto simp: loop_issues)

lemma loop_sends_only:
  "c \<in> set (issued (snd (run (forEach body xs) s))) \<Longrightarrow>
   c \<in> set (issued s) \<or> (\<exists>x \<in> set xs. c \<in> set (sent x))"
  by (auto simp: loop_issues)

end

lemma issued_request: "issued (snd (run (request c f) s)) = issued s @ [c]"
  by (simp add: request_def issued_def split: prod.split)

lemma issued_perform: "issued (snd (run (perform k c) s)) = issued s @ [c]"
  by (simp add: perform_def issued_def split: prod.split)

lemma issued_silent: "issued (snd (run (silent f) s)) = issued s"
  by (simp add: silent_def issued_def split: prod.split)

lemma issued_now [simp]: "issued (snd (run (now k) s)) = issued s"
  by (simp add: now_def issued_silent)

lemma issued_perform_ret [simp]:
  "issued (snd (run (do { r \<leftarrow> perform k c; ret (g r) }) s)) = issued s @ [c]"
  using issued_perform [of k c s] by (cases "run (perform k c) s") (simp add: run_simps)

section \<open>The calls of one run\<close>

text \<open>The calls between an earlier and a later state of a run.\<close>

definition newCalls :: "'w kst \<Rightarrow> 'w kst \<Rightarrow> (call \<times> bool) list" where
  "newCalls s s' = drop (length (calls s)) (calls s')"

definition extends :: "'w kst \<Rightarrow> 'w kst \<Rightarrow> bool" where
  "extends s s' \<longleftrightarrow> calls s' = calls s @ newCalls s s'"

lemma newCalls_append: "calls s' = calls s @ cs \<Longrightarrow> newCalls s s' = cs"
  by (simp add: newCalls_def)

lemma extendsI: "calls s' = calls s @ cs \<Longrightarrow> extends s s'"
  by (simp add: extends_def newCalls_def)

lemma extends_refl [simp]: "extends s s"
  by (simp add: extends_def newCalls_def)

lemma extends_trans: "extends s s1 \<Longrightarrow> extends s1 s2 \<Longrightarrow> extends s s2"
  by (metis append.assoc extends_def extendsI)

lemma newCalls_trans:
  "extends s s1 \<Longrightarrow> extends s1 s2 \<Longrightarrow> newCalls s s2 = newCalls s s1 @ newCalls s1 s2"
  by (metis append.assoc extends_def newCalls_append)

lemma emits_extends: "emits P m \<Longrightarrow> run m s = (r, s') \<Longrightarrow> extends s s'"
  by (metis emitsD extendsI)

lemma emits_newCalls: "emits P m \<Longrightarrow> run m s = (r, s') \<Longrightarrow> list_all P (newCalls s s')"
  by (metis emitsD newCalls_append)

lemma emitsI:
  assumes "\<And>s r s'. run m s = (r, s') \<Longrightarrow> \<exists>cs. calls s' = calls s @ cs \<and> list_all P cs"
  shows "emits P m"
  unfolding emits_def using assms by (metis prod.collapse)

lemma issued_newCalls: "extends s s' \<Longrightarrow> issued s' = issued s @ map fst (newCalls s s')"
  by (metis extends_def issued_def map_append)

section \<open>What a program does\<close>

text \<open>
  \<open>does m Q\<close>: whatever the world answers, the calls \<open>m\<close> appends and its result satisfy \<open>Q\<close>.
  The rules compute from a program and \<open>Q\<close> what remains to be shown, one primitive at a time.
\<close>

definition does :: "('w kst, 'a) state \<Rightarrow> ((call \<times> bool) list \<Rightarrow> 'a \<Rightarrow> bool) \<Rightarrow> bool" where
  "does m Q \<longleftrightarrow> (\<forall>s r s'. run m s = (r, s') \<longrightarrow> extends s s' \<and> Q (newCalls s s') r)"

lemma doesD: "does m Q \<Longrightarrow> run m s = (r, s') \<Longrightarrow> extends s s' \<and> Q (newCalls s s') r"
  by (simp add: does_def)

lemma does_mono: "does m R \<Longrightarrow> (\<And>cs r. R cs r \<Longrightarrow> Q cs r) \<Longrightarrow> does m Q"
  by (simp add: does_def)

lemma does_conj: "does m Q \<Longrightarrow> does m R \<Longrightarrow> does m (\<lambda>cs r. Q cs r \<and> R cs r)"
  by (simp add: does_def)

lemma emits_does: "emits P m \<longleftrightarrow> does m (\<lambda>cs _. list_all P cs)"
proof
  show "emits P m \<Longrightarrow> does m (\<lambda>cs _. list_all P cs)"
    unfolding does_def by (blast intro: emits_extends emits_newCalls)
  show "does m (\<lambda>cs _. list_all P cs) \<Longrightarrow> emits P m"
    by (rule emitsI) (metis does_def extends_def)
qed

lemma does_ret [does_rules]: "Q [] x \<Longrightarrow> does (ret x) Q"
  by (simp add: does_def newCalls_def)

lemma does_bind [does_rules]:
  assumes "does m (\<lambda>cs a. does (f a) (\<lambda>ds b. Q (cs @ ds) b))"
  shows "does (m \<bind> f) Q"
  unfolding does_def
proof (intro allI impI)
  fix s r s'
  assume "run (m \<bind> f) s = (r, s')"
  then obtain a s1 where 1: "run m s = (a, s1)" and 2: "run (f a) s1 = (r, s')" by (rule run_bindE)
  from doesD [OF assms 1] have e1: "extends s s1"
    and d: "does (f a) (\<lambda>ds b. Q (newCalls s s1 @ ds) b)" by auto
  from doesD [OF d 2] show "extends s s' \<and> Q (newCalls s s') r"
    using extends_trans [OF e1] newCalls_trans [OF e1] by metis
qed

lemma does_perform [does_rules]: "(\<And>r. Q [(c, r = None)] r) \<Longrightarrow> does (perform k c) Q"
  unfolding does_def by (metis extendsI newCalls_append run_performE)

lemma does_request [does_rules]: "(\<And>r. Q [(c, isInr r)] r) \<Longrightarrow> does (request c f) Q"
  unfolding does_def by (metis extendsI newCalls_append run_requestE)

lemma does_request_world: "(\<And>w. Q [(c, isInr (fst (f w)))] (fst (f w))) \<Longrightarrow> does (request c f) Q"
  unfolding does_def by (metis extendsI newCalls_append run_requestE)

lemma does_act [does_rules]: "(\<And>r. Q [(c, r = None)] r) \<Longrightarrow> does (act c f) Q"
  unfolding does_def act_def by (auto simp: extends_def newCalls_def split: prod.splits)

lemma does_silent [does_rules]: "(\<And>r. Q [] r) \<Longrightarrow> does (silent f) Q"
  unfolding does_def by (metis append_Nil2 extendsI newCalls_append run_silentE)

lemma does_now [does_rules]: "(\<And>r. Q [] r) \<Longrightarrow> does (now k) Q"
  by (simp add: now_def does_silent)

lemma does_if [does_rules]: "(b \<Longrightarrow> does m Q) \<Longrightarrow> (\<not> b \<Longrightarrow> does n Q) \<Longrightarrow> does (if b then m else n) Q"
  by simp

lemma does_option [does_rules]:
  "(x = None \<Longrightarrow> does m Q) \<Longrightarrow> (\<And>a. x = Some a \<Longrightarrow> does (f a) Q) \<Longrightarrow>
   does (case x of None \<Rightarrow> m | Some a \<Rightarrow> f a) Q"
  by (cases x) simp_all

lemma does_sum [does_rules]:
  "(\<And>a. x = Inl a \<Longrightarrow> does (f a) Q) \<Longrightarrow> (\<And>b. x = Inr b \<Longrightarrow> does (g b) Q) \<Longrightarrow>
   does (case x of Inl a \<Rightarrow> f a | Inr b \<Rightarrow> g b) Q"
  by (cases x) simp_all

lemma does_prod [does_rules]:
  "(\<And>a b. x = (a, b) \<Longrightarrow> does (f a b) Q) \<Longrightarrow> does (case x of (a, b) \<Rightarrow> f a b) Q"
  by (cases x) simp

lemma does_let [does_rules]: "does (f x) Q \<Longrightarrow> does (Let x f) Q"
  by simp

section \<open>A world to evaluate in\<close>

text \<open>
  A closed environment for the witnesses: a world without state in which nothing exists, every write
  succeeds, time stands at \<open>t\<close>, maps are visited in order, and the decoders are given.
\<close>

definition emptyWorld :: "(string \<Rightarrow> goerr + Unstructured) \<Rightarrow> Time \<Rightarrow> unit env" where
  "emptyWorld yaml t = (let missing = GoErr NotFound ''not found'' in
     \<lparr>eYaml = yaml, eGroupOf = (\<lambda>v. takeWhile (\<lambda>c. c \<noteq> CHR ''/'') v),
      eGvString = (\<lambda>g v. if g = '''' then v else g @ ''/'' @ v), eParseQuantity = Inr,
      eJsonError = (\<lambda>x. errorf ''invalid character''),
      eInt32Overflow = (\<lambda>f. 0), eNow = (\<lambda>w. (t, w)), eRand = (\<lambda>w. (0, w)), eMapOrder = (\<lambda>w. ([], w)),
      eHttp = (\<lambda>u q n w. (Inl (errorf ''refused''), w)),
      eGetExperiment = (\<lambda>ns n w. (Inl missing, w)), eGetTopology = (\<lambda>ns n w. (Inl missing, w)),
      eGetChaosPhase = (\<lambda>ns n w. (Inl missing, w)), eGetConfigMap = (\<lambda>ns n w. (Inl missing, w)),
      eGetNamespace = (\<lambda>n w. (Inl missing, w)), eGetQuota = (\<lambda>ns n w. (Inl missing, w)),
      eGetUnstructured = (\<lambda>key w. (Inl missing, w)), eWrite = (\<lambda>c w. (None, w))\<rparr>)"

definition start :: "unit kst" where
  "start = \<lparr>world = (), calls = []\<rparr>"

end
