(* ===== verification/Manifests.thy ===== *)
theory Manifests
  imports Kube_Client
begin

text \<open>
  \<open>internal/controller/manifest.go\<close>: deploying the manifests of a ConfigMap, remembering them in an
  owned copy, and removing them again.
\<close>

section \<open>Definitions\<close>

definition nsSlashName :: "string \<Rightarrow> string \<Rightarrow> string" where
  "nsSlashName ns n = ns @ ''/'' @ n"

definition readConfigMap :: "'w env \<Rightarrow> string \<Rightarrow> string \<Rightarrow> ('w kst, goerr + ConfigMap) state" where
  "readConfigMap k ns name = do {
     r \<leftarrow> getConfigMap k ns name;
     ret (case r of
            Inl e \<Rightarrow> Inl (wrapf (''read ConfigMap '' @ nsSlashName ns name) e)
          | Inr cm \<Rightarrow> Inr cm)
   }"

definition newConfigMap :: "string \<Rightarrow> string \<Rightarrow> ConfigMap" where
  "newConfigMap ns name = \<lparr>CmNamespace = ns, CmName = name, CmData = [], CmCreationTimestamp = None\<rparr>"

definition storeConfigMap :: "'w env \<Rightarrow> ConfigMap \<Rightarrow> ('w kst, goerr option) state" where
  "storeConfigMap k configMap =
     (if CmCreationTimestamp configMap = None then perform k (Create (OConfigMap configMap))
      else perform k (Update (OConfigMap configMap)))"

definition ensureOwnedConfigMap ::
  "'w env \<Rightarrow> string \<Rightarrow> string \<Rightarrow> ConfigMap \<Rightarrow> ('w kst, goerr option) state" where
  "ensureOwnedConfigMap k ns ownedName source = do {
     r \<leftarrow> getConfigMap k ns ownedName;
     case r of
       Inl e \<Rightarrow>
         if \<not> isNotFound e then ret (Some (wrapf (''get ConfigMap '' @ nsSlashName ns ownedName) e))
         else storeConfigMap k (newConfigMap ns ownedName\<lparr>CmData := CmData source\<rparr>)
     | Inr configMap \<Rightarrow> storeConfigMap k (configMap\<lparr>CmData := CmData source\<rparr>)
   }"

definition deleteConfigMap :: "'w env \<Rightarrow> string \<Rightarrow> string \<Rightarrow> ('w kst, goerr option) state" where
  "deleteConfigMap k ns name = do {
     r \<leftarrow> perform k (Delete (cmKey ns name));
     ret (case r of
            Some e \<Rightarrow> if isNotFound e then None
                      else Some (wrapf (''delete ConfigMap '' @ nsSlashName ns name) e)
          | None \<Rightarrow> None)
   }"

definition parseManifest :: "'w env \<Rightarrow> string \<Rightarrow> goerr + Unstructured" where
  "parseManifest k content =
     (case eYaml k content of
        Inl e \<Rightarrow> Inl (wrapf ''decode'' e)
      | Inr object \<Rightarrow>
          if UsName object = '''' then Inl (errorf ''manifest has no metadata.name'') else Inr object)"

definition isManifestFile :: "string \<Rightarrow> bool" where
  "isManifestFile key \<longleftrightarrow> fileExt key = ''.yaml'' \<or> fileExt key = ''.yml''"

definition inNamespace :: "string \<Rightarrow> Unstructured \<Rightarrow> Unstructured" where
  "inNamespace ns object = (if UsNamespace object = '''' then object\<lparr>UsNamespace := ns\<rparr> else object)"

text \<open>The part of the loop body of \<open>applyManifests\<close> after the object is complete.\<close>

definition applyObject :: "'w env \<Rightarrow> Unstructured \<Rightarrow> ('w kst, goerr option) state" where
  "applyObject k object = do {
     let name = nsSlashName (UsNamespace object) (UsName object);
     err \<leftarrow> perform k (Create (OUnstructured object));
     case err of
       None \<Rightarrow> ret None
     | Some e \<Rightarrow>
         if isAlreadyExists e then do {
           g \<leftarrow> getUnstructured k (usKey object);
           case g of
             Inl getErr \<Rightarrow> ret (Some (wrapf (''get existing '' @ name) getErr))
           | Inr existing \<Rightarrow> do {
               updErr \<leftarrow> perform k (Update (OUnstructured (object\<lparr>UsResourceVersion := UsResourceVersion existing\<rparr>)));
               ret (map_option (wrapf (''update '' @ name)) updErr)
             }
         }
         else ret (Some (wrapf (''create '' @ name) e))
   }"

fun applyEntries :: "'w env \<Rightarrow> string \<Rightarrow> (string \<times> string) list \<Rightarrow> ('w kst, goerr option) state" where
  "applyEntries k ns [] = ret None"
| "applyEntries k ns ((key, content) # entries) =
     (if \<not> isManifestFile key then applyEntries k ns entries
      else case parseManifest k content of
        Inl e \<Rightarrow> ret (Some (wrapf (''parse '' @ key) e))
      | Inr object \<Rightarrow> do {
          err \<leftarrow> applyObject k (inNamespace ns object);
          case err of
            Some e \<Rightarrow> ret (Some e)
          | None \<Rightarrow> applyEntries k ns entries
        })"

definition applyManifests :: "'w env \<Rightarrow> string \<Rightarrow> ConfigMap \<Rightarrow> ('w kst, goerr option) state" where
  "applyManifests k ns configMap = do {
     entries \<leftarrow> rangeMap k (CmData configMap);
     applyEntries k ns entries
   }"

definition deleteEntry :: "'w env \<Rightarrow> string \<times> string \<Rightarrow> ('w kst, goerr list) state" where
  "deleteEntry k entry =
     (case entry of (key, content) \<Rightarrow>
        if \<not> isManifestFile key then ret []
        else case parseManifest k content of
          Inl e \<Rightarrow> ret []
        | Inr object \<Rightarrow> do {
            r \<leftarrow> perform k (Delete (usKey object));
            ret (case r of
                   Some e \<Rightarrow> if isNotFound e \<or> isNoMatch e then []
                             else [wrapf (''delete '' @ nsSlashName (UsNamespace object) (UsName object)) e]
                 | None \<Rightarrow> [])
          })"

definition deleteManifests :: "'w env \<Rightarrow> ConfigMap \<Rightarrow> ('w kst, goerr list) state" where
  "deleteManifests k configMap = do {
     entries \<leftarrow> rangeMap k (CmData configMap);
     deleteErrors \<leftarrow> State_Monad.traverse_list (deleteEntry k) entries;
     ret (concat deleteErrors)
   }"

definition deployManifests :: "'w env \<Rightarrow> string \<Rightarrow> string \<Rightarrow> string \<Rightarrow> ('w kst, goerr option) state" where
  "deployManifests k ns sourceName ownedName = do {
     r \<leftarrow> readConfigMap k ns sourceName;
     case r of
       Inl e \<Rightarrow> ret (Some e)
     | Inr source \<Rightarrow> do {
         err \<leftarrow> ensureOwnedConfigMap k ns ownedName source;
         case err of
           Some e \<Rightarrow> ret (Some e)
         | None \<Rightarrow> applyManifests k ns source
       }
   }"

definition undeployManifests :: "'w env \<Rightarrow> string \<Rightarrow> string \<Rightarrow> ('w kst, unit) state" where
  "undeployManifests k ns ownedName = do {
     r \<leftarrow> getConfigMap k ns ownedName;
     case r of
       Inl e \<Rightarrow> ret ()
     | Inr configMap \<Rightarrow> do {
         _ \<leftarrow> deleteManifests k configMap;
         _ \<leftarrow> deleteConfigMap k ns ownedName;
         ret ()
       }
   }"

section \<open>The objects of a manifest set\<close>

text \<open>What a set of entries stands for: the objects of its manifests, as they are written.\<close>

definition manifestObject :: "'w env \<Rightarrow> string \<times> string \<Rightarrow> Unstructured option" where
  "manifestObject k entry =
     (if isManifestFile (fst entry)
      then (case parseManifest k (snd entry) of Inl e \<Rightarrow> None | Inr object \<Rightarrow> Some object)
      else None)"

lemma applyEntries_step:
  "applyEntries k ns (entry # entries) =
     (if \<not> isManifestFile (fst entry) then applyEntries k ns entries
      else case parseManifest k (snd entry) of
        Inl e \<Rightarrow> ret (Some (wrapf (''parse '' @ fst entry) e))
      | Inr object \<Rightarrow> do {
          err \<leftarrow> applyObject k (inNamespace ns object);
          case err of Some e \<Rightarrow> ret (Some e) | None \<Rightarrow> applyEntries k ns entries
        })"
  by (cases entry) (simp split: sum.split)

lemma usKey_resourceVersion [simp]: "usKey (object\<lparr>UsResourceVersion := v\<rparr>) = usKey object"
  by (simp add: usKey_def)

text \<open>Was an object with this key created or updated?\<close>

definition written :: "objkey \<Rightarrow> call \<times> bool \<Rightarrow> bool" where
  "written key c \<longleftrightarrow> snd c \<and>
     (\<exists>u. usKey u = key \<and> (fst c = Create (OUnstructured u) \<or> fst c = Update (OUnstructured u)))"

text \<open>Was this very object created, or stored over an existing one under the version of that one?\<close>

definition objectStored :: "Unstructured \<Rightarrow> (call \<times> bool) list \<Rightarrow> bool" where
  "objectStored object cs \<longleftrightarrow> (Create (OUnstructured object), True) \<in> set cs \<or>
     (\<exists>version. (Update (OUnstructured (object\<lparr>UsResourceVersion := version\<rparr>)), True) \<in> set cs)"

lemma objectStored_mono: "objectStored object cs \<Longrightarrow> set cs \<subseteq> set ds \<Longrightarrow> objectStored object ds"
  by (auto simp: objectStored_def)

lemma objectStored_written:
  assumes "objectStored object cs"
  shows "\<exists>c \<in> set cs. written (usKey object) c"
proof -
  have "written (usKey object) (Create (OUnstructured object), True)"
    "written (usKey object) (Update (OUnstructured (object\<lparr>UsResourceVersion := version\<rparr>)), True)" for version
    by (auto simp: written_def intro: usKey_resourceVersion)
  with assms show ?thesis unfolding objectStored_def by blast
qed

lemma applyObject_stores:
  assumes "run (applyObject k object) s = (None, s')"
  shows "objectStored object (newCalls s s')"
proof -
  have crt: "objectStored object [(Create (OUnstructured object), True)]" by (simp add: objectStored_def)
  have upd: "objectStored object [c, g, (Update (OUnstructured (object\<lparr>UsResourceVersion := version\<rparr>)), True)]" for c g version
    unfolding objectStored_def by (intro disjI2 exI [of _ version]) simp
  show ?thesis
    using assms unfolding applyObject_def Let_def get_defs
    by (auto elim!: run_elims split: option.splits if_splits sum.splits simp: newCalls_def crt upd)
qed

text \<open>Which calls the operations make.\<close>

fun appliesOnly :: "(Unstructured \<Rightarrow> bool) \<Rightarrow> call \<times> bool \<Rightarrow> bool" where
  "appliesOnly Q (Create (OUnstructured u), b) = Q u"
| "appliesOnly Q (Update (OUnstructured u), b) = Q u"
| "appliesOnly Q (Get key, b) = True"
| "appliesOnly Q c = False"

lemma applyObject_emits [trace_intro]:
  assumes "Q object" "\<And>v. Q (object\<lparr>UsResourceVersion := v\<rparr>)"
  shows "emits (appliesOnly Q) (applyObject k object)"
  unfolding applyObject_def get_defs
  by (intro trace_intro emits_perform emits_request) (simp_all add: assms)

lemma applyEntries_emits:
  assumes "\<And>entry object v. entry \<in> set entries \<Longrightarrow> manifestObject k entry = Some object \<Longrightarrow>
    Q (inNamespace ns object) \<and> Q ((inNamespace ns object)\<lparr>UsResourceVersion := v\<rparr>)"
  shows "emits (appliesOnly Q) (applyEntries k ns entries)"
  using assms
proof (induction entries)
  case (Cons entry entries)
  have "emits (appliesOnly Q) (applyEntries k ns entries)"
    using Cons.IH Cons.prems by (meson list.set_intros(2))
  moreover have "Q (inNamespace ns object) \<and> Q ((inNamespace ns object)\<lparr>UsResourceVersion := v\<rparr>)"
    if "isManifestFile (fst entry)" "parseManifest k (snd entry) = Inr object" for object v
    using Cons.prems [of entry object v] that by (simp add: manifestObject_def)
  ultimately show ?case
    unfolding applyEntries_step by (intro trace_intro) auto
qed (simp add: emits_ret)

interpretation deletions: fixed_calls "deleteEntry k"
  "\<lambda>entry. case manifestObject k entry of None \<Rightarrow> [] | Some object \<Rightarrow> [Delete (usKey object)]" for k :: "'w env"
proof (unfold_locales)
  fix entry :: "string \<times> string" and s :: "'w kst"
  show "issued (snd (run (deleteEntry k entry) s)) =
    issued s @ (case manifestObject k entry of None \<Rightarrow> [] | Some object \<Rightarrow> [Delete (usKey object)])"
    
    by (cases entry) (auto simp: deleteEntry_def manifestObject_def case_prod_unfold split: sum.splits)
qed

section \<open>Deployment writes everything\<close>

lemma applyObject_extends: "run (applyObject k object) s = (r, s') \<Longrightarrow> extends s s'"
  using applyObject_emits [of "\<lambda>_. True"] emits_extends by metis

lemma applyEntries_extends: "run (applyEntries k ns entries) s = (r, s') \<Longrightarrow> extends s s'"
  using applyEntries_emits [of entries k "\<lambda>_. True" ns] emits_extends by metis

lemma applyEntries_complete:
  assumes "run (applyEntries k ns entries) s = (None, s')" "entry \<in> set entries" "isManifestFile (fst entry)"
  shows "\<exists>object. parseManifest k (snd entry) = Inr object \<and> objectStored (inNamespace ns object) (newCalls s s')"
  using assms
proof (induction entries arbitrary: s)
  case (Cons e es)
  show ?case
  proof (cases "isManifestFile (fst e)")
    case False
    with Cons show ?thesis by (auto simp: applyEntries_step)
  next
    case True
    with Cons.prems(1) obtain object s1 where o: "parseManifest k (snd e) = Inr object"
      and 1: "run (applyObject k (inNamespace ns object)) s = (None, s1)"
      and 2: "run (applyEntries k ns es) s1 = (None, s')"
      by (auto simp: applyEntries_step elim!: run_elims split: sum.splits option.splits)
    have split: "newCalls s s' = newCalls s s1 @ newCalls s1 s'"
      using applyObject_extends [OF 1] applyEntries_extends [OF 2] by (rule newCalls_trans)
    then have sub: "set (newCalls s s1) \<subseteq> set (newCalls s s')" "set (newCalls s1 s') \<subseteq> set (newCalls s s')" by auto
    show ?thesis
    proof (cases "entry = e")
      case True
      then show ?thesis using o applyObject_stores [OF 1] objectStored_mono sub(1) by blast
    next
      case False
      with Cons.IH [OF 2] Cons.prems show ?thesis using objectStored_mono sub(2) by (metis set_ConsD)
    qed
  qed
qed simp

lemma ensureOwned_emits: "emits (\<lambda>_. True) (ensureOwnedConfigMap k ns ownedName source)"
  unfolding ensureOwnedConfigMap_def storeConfigMap_def get_defs
  by (intro trace_intro emits_perform emits_request) simp_all

text \<open>
  The owned copy, as the API server in state \<open>w\<close> makes it necessary: a new ConfigMap of that name and namespace, or
  the one it has, with the data replaced.
\<close>

definition ownedCopy :: "'w env \<Rightarrow> string \<Rightarrow> string \<Rightarrow> (string \<times> string) list \<Rightarrow> 'w \<Rightarrow> (call \<times> bool) list \<Rightarrow> bool" where
  "ownedCopy k ns ownedName entries w cs \<longleftrightarrow> (Get (cmKey ns ownedName), isInr (fst (eGetConfigMap k ns ownedName w))) \<in> set cs \<and>
     (case fst (eGetConfigMap k ns ownedName w) of
        Inl e \<Rightarrow> isNotFound e \<and> (Create (OConfigMap \<lparr>CmNamespace = ns, CmName = ownedName, CmData = entries,
          CmCreationTimestamp = None\<rparr>), True) \<in> set cs
      | Inr owned \<Rightarrow> let copy = OConfigMap (owned\<lparr>CmData := entries\<rparr>) in
          (if CmCreationTimestamp owned = None then Create copy else Update copy, True) \<in> set cs)"

lemma ownedCopy_mono: "ownedCopy k ns ownedName entries w cs \<Longrightarrow> set cs \<subseteq> set ds \<Longrightarrow> ownedCopy k ns ownedName entries w ds"
  by (auto simp: ownedCopy_def Let_def split: sum.splits if_splits)

lemma ensureOwned_stores:
  assumes "run (ensureOwnedConfigMap k ns ownedName source) s = (None, s')"
  shows "ownedCopy k ns ownedName (CmData source) (world s) (newCalls s s')"
  using assms unfolding ensureOwnedConfigMap_def get_defs storeConfigMap_def
  by (auto elim!: run_elims split: sum.splits if_splits simp: newCalls_def ownedCopy_def newConfigMap_def Let_def)

text \<open>
  C28. When \<open>deployManifests\<close> reports success, the source ConfigMap was read and its data stored in the owned
  ConfigMap: a new one of the owned name in the same namespace, or the existing one of that name with its data replaced.
  The text of every \<open>.yaml\<close> and \<open>.yml\<close> entry decoded to an object with a name, and exactly this object, put into the
  experiment's namespace if the manifest names none, was created or stored over the existing one during the call.
\<close>

theorem deploy_writes_everything:
  assumes "run (deployManifests k ns sourceName ownedName) s = (None, s')"
  shows "\<exists>source w. eGetConfigMap k ns sourceName (world s) = (Inr source, w) \<and>
    ownedCopy k ns ownedName (CmData source) w (newCalls s s') \<and>
    (\<forall>(filename, content) \<in> set (CmData source). fileExt filename \<in> {''.yaml'', ''.yml''} \<longrightarrow>
       (\<exists>object. eYaml k content = Inr object \<and> UsName object \<noteq> '''' \<and>
          objectStored (if UsNamespace object = '''' then object\<lparr>UsNamespace := ns\<rparr> else object) (newCalls s s')))"
proof -
  obtain r w where g: "eGetConfigMap k ns sourceName (world s) = (r, w)" by fastforce
  with assms obtain source where r: "r = Inr source"
    by (cases r) (simp_all add: deployManifests_def readConfigMap_def get_defs request_def run_simps)
  let ?s1 = "\<lparr>world = w, calls = calls s @ [(Get (cmKey ns sourceName), True)]\<rparr>"
  from assms g r obtain s2 entries s3 where
      2: "run (ensureOwnedConfigMap k ns ownedName source) ?s1 = (None, s2)"
    and 3: "calls s3 = calls s2" "set entries = set (CmData source)"
    and 4: "run (applyEntries k ns entries) s3 = (None, s')"
    unfolding deployManifests_def readConfigMap_def applyManifests_def get_defs
    by (simp add: request_def run_simps split: prod.splits option.splits)
      (auto elim!: run_elims split: prod.splits)
  have new: "set (newCalls s3 s') \<subseteq> set (newCalls s s')" "set (newCalls ?s1 s2) \<subseteq> set (newCalls s s')"
  proof -
    have e2: "extends ?s1 s2" using emits_extends [OF ensureOwned_emits 2] .
    have e1: "extends s ?s1" by (rule extendsI) simp
    have e3: "extends s2 s'" "newCalls s2 s' = newCalls s3 s'"
      using applyEntries_extends [OF 4] 3(1) by (auto simp: extends_def newCalls_def)
    show "set (newCalls s3 s') \<subseteq> set (newCalls s s')" "set (newCalls ?s1 s2) \<subseteq> set (newCalls s s')"
      using newCalls_trans [OF extends_trans [OF e1 e2] e3(1)] newCalls_trans [OF e1 e2] e3(2) by auto
  qed
  have copy: "ownedCopy k ns ownedName (CmData source) w (newCalls s s')"
    using ownedCopy_mono [OF ensureOwned_stores [OF 2] new(2)] by simp
  have "\<exists>object. eYaml k content = Inr object \<and> UsName object \<noteq> '''' \<and>
      objectStored (if UsNamespace object = '''' then object\<lparr>UsNamespace := ns\<rparr> else object) (newCalls s s')"
    if "(filename, content) \<in> set (CmData source)" "fileExt filename \<in> {''.yaml'', ''.yml''}" for filename content
  proof -
    from applyEntries_complete [OF 4, of "(filename, content)"] that 3(2) obtain object
      where "parseManifest k content = Inr object" "objectStored (inNamespace ns object) (newCalls s3 s')"
      by (auto simp: isManifestFile_def)
    then show ?thesis using objectStored_mono [OF _ new(1)]
      by (auto simp: parseManifest_def inNamespace_def split: sum.splits if_splits)
  qed
  with copy g r show ?thesis by blast
qed

text \<open>A world with one ConfigMap \<open>src\<close> that holds one manifest, for the witnesses.\<close>

definition samplePod :: Unstructured where
  "samplePod = \<lparr>UsAPIVersion = ''v1'', UsKind = ''Pod'', UsNamespace = [], UsName = ''p'', UsLabels = [],
     UsResourceVersion = [], UsSpec = JNull\<rparr>"

definition sampleSource :: ConfigMap where
  "sampleSource = \<lparr>CmNamespace = ''x'', CmName = ''src'', CmData = [(''pod.yaml'', ''kind: Pod'')], CmCreationTimestamp = Some 1\<rparr>"

definition sampleWorld :: "unit env" where
  "sampleWorld = (emptyWorld (\<lambda>_. Inr samplePod) 0)\<lparr>eGetConfigMap :=
     (\<lambda>ns n w. (if n = ''src'' then Inr sampleSource else Inl (GoErr NotFound ''not found''), w))\<rparr>"

lemma sample_manifest: "isManifestFile ''pod.yaml''" "manifestObject sampleWorld (''pod.yaml'', ''kind: Pod'') = Some samplePod"
  by (simp_all add: manifestObject_def isManifestFile_def fileExt_def parseManifest_def sampleWorld_def emptyWorld_def
      samplePod_def Let_def)

lemma sample_deploy:
  "fst (run (deployManifests sampleWorld ''x'' ''src'' ''own'') start) = None"
  using sample_manifest
  by (simp add: deployManifests_def readConfigMap_def ensureOwnedConfigMap_def applyManifests_def get_defs
      request_def perform_def rangeMap_def silent_def run_simps sampleWorld_def emptyWorld_def Let_def start_def
      storeConfigMap_def newConfigMap_def isNotFound_def sampleSource_def manifestObject_def
      applyObject_def split: sum.splits)

theorem deploy_writes_everything_witness:
  "let cs = newCalls start (snd (run (deployManifests sampleWorld ''x'' ''src'' ''own'') start)) in
     (Create (OConfigMap \<lparr>CmNamespace = ''x'', CmName = ''own'', CmData = [(''pod.yaml'', ''kind: Pod'')],
       CmCreationTimestamp = None\<rparr>), True) \<in> set cs \<and> objectStored (samplePod\<lparr>UsNamespace := ''x''\<rparr>) cs"
proof -
  let ?s' = "snd (run (deployManifests sampleWorld ''x'' ''src'' ''own'') start)"
  have "run (deployManifests sampleWorld ''x'' ''src'' ''own'') start = (None, ?s')"
    using sample_deploy by (metis prod.collapse)
  from deploy_writes_everything [OF this] show ?thesis
    by (auto simp: sampleWorld_def sampleSource_def emptyWorld_def Let_def ownedCopy_def fileExt_def samplePod_def)
qed

section \<open>Removal deletes everything, as it is written\<close>

text \<open>The deletion of a manifest: of the object as the text has it, without a default namespace.\<close>

definition manifestDeletion :: "'w env \<Rightarrow> string \<times> string \<Rightarrow> call list" where
  "manifestDeletion k entry =
     (if fileExt (fst entry) \<notin> {''.yaml'', ''.yml''} then []
      else case eYaml k (snd entry) of
        Inl e \<Rightarrow> []
      | Inr object \<Rightarrow>
          if UsName object = '''' then []
          else [Delete (ObjKey (UsAPIVersion object) (UsKind object) (UsNamespace object) (UsName object))])"

lemma manifestDeletion_object:
  "manifestDeletion k entry = (case manifestObject k entry of None \<Rightarrow> [] | Some object \<Rightarrow> [Delete (usKey object)])"
  by (simp add: manifestDeletion_def manifestObject_def isManifestFile_def parseManifest_def usKey_def split: sum.split)

text \<open>
  C29. \<open>undeployManifests\<close>: if the owned ConfigMap cannot be read, that read is its only call; otherwise one deletion is
  issued for every manifest of the set that decodes to an object with a name, in some order and whatever the others answer,
  and last the deletion of the ConfigMap itself. The deletions name the objects as they are written, so an object whose
  manifest names no namespace is asked for in none, not in the one it was created in.
\<close>

theorem undeploy_deletes:
  "case fst (eGetConfigMap k ns ownedName (world s)) of
     Inl e \<Rightarrow> newCalls s (snd (run (undeployManifests k ns ownedName) s)) = [(Get (cmKey ns ownedName), False)]
   | Inr cm \<Rightarrow> \<exists>dels. mset dels = mset (concat (map (manifestDeletion k) (CmData cm))) \<and>
       issued (snd (run (undeployManifests k ns ownedName) s)) =
         issued s @ [Get (cmKey ns ownedName)] @ dels @ [Delete (cmKey ns ownedName)]"
proof -
  obtain r w where g: "eGetConfigMap k ns ownedName (world s) = (r, w)" by fastforce
  show ?thesis
  proof (cases r)
    case (Inl e)
    then show ?thesis
      by (simp add: undeployManifests_def getConfigMap_def request_def g run_simps newCalls_def)
  next
    case (Inr cm)
    let ?s1 = "\<lparr>world = w, calls = calls s @ [(Get (cmKey ns ownedName), True)]\<rparr>"
    obtain entries s2 where 2: "run (rangeMap k (CmData cm)) ?s1 = (entries, s2)" by fastforce
    then have e: "calls s2 = calls ?s1" "mset entries = mset (CmData cm)" by (auto elim: run_rangeMapE)
    obtain errs s3 where 3: "run (State_Monad.traverse_list (deleteEntry k) entries) s2 = (errs, s3)" by fastforce
    have "run (undeployManifests k ns ownedName) s = run (do { _ \<leftarrow> deleteConfigMap k ns ownedName; ret () }) s3"
      by (simp add: undeployManifests_def getConfigMap_def request_def g Inr run_simps deleteManifests_def 2 3)
    then have "issued (snd (run (undeployManifests k ns ownedName) s)) = issued s3 @ [Delete (cmKey ns ownedName)]"
      by (simp add: deleteConfigMap_def)
    also have "issued s3 = issued s2 @ concat (map (manifestDeletion k) entries)"
      using deletions.traverse_issues [of k entries s2] 3 by (simp add: manifestDeletion_object [abs_def])
    also have "issued s2 = issued s @ [Get (cmKey ns ownedName)]" using e by (simp add: issued_def)
    finally have "issued (snd (run (undeployManifests k ns ownedName) s)) =
      issued s @ [Get (cmKey ns ownedName)] @ concat (map (manifestDeletion k) entries) @ [Delete (cmKey ns ownedName)]" by simp
    moreover have "mset (concat (map (manifestDeletion k) entries)) = mset (concat (map (manifestDeletion k) (CmData cm)))"
      using e(2) by (rule mset_concat_map_cong)
    ultimately show ?thesis using g Inr by auto
  qed
qed

theorem undeploy_deletes_witness:
  "issued (snd (run (undeployManifests sampleWorld ''x'' ''src'') start)) =
     [Get (cmKey ''x'' ''src''), Delete (ObjKey ''v1'' ''Pod'' '''' ''p''), Delete (cmKey ''x'' ''src'')]"
  using undeploy_deletes [where k = sampleWorld and ns = "''x''" and ownedName = "''src''" and s = start]
  by (simp add: sampleWorld_def sampleSource_def emptyWorld_def Let_def manifestDeletion_def fileExt_def samplePod_def start_def issued_def)

text \<open>
  Removal does not put back the default namespace that deployment filled in. Where the manifests
  name no namespace, everything is created in the experiment's namespace, but the deletions name the
  empty one: none of them is for an object that was created.
\<close>

theorem removal_misses_default_namespace:
  assumes "ns \<noteq> ''''"
    and "\<forall>entry \<in> set (CmData configMap). \<forall>object. manifestObject k entry = Some object \<longrightarrow> UsNamespace object = ''''"
  shows "emits (appliesOnly (\<lambda>u. UsNamespace u = ns)) (applyManifests k ns configMap) \<and>
    emits (\<lambda>c. \<exists>key. fst c = Delete key \<and> key_ns key = '''') (deleteManifests k configMap)"
proof
  have set: "entries \<in> {es. set es = set (CmData configMap)} \<Longrightarrow>
      emits (appliesOnly (\<lambda>u. UsNamespace u = ns)) (applyEntries k ns entries)" for entries
    using assms(2) by (intro applyEntries_emits) (auto simp: inNamespace_def)
  show "emits (appliesOnly (\<lambda>u. UsNamespace u = ns)) (applyManifests k ns configMap)"
    unfolding applyManifests_def
  proof (rule emitsI)
    fix s r s'
    assume "run (rangeMap k (CmData configMap) \<bind> applyEntries k ns) s = (r, s')"
    then obtain entries s1 where 1: "calls s1 = calls s" "set entries = set (CmData configMap)"
      and 2: "run (applyEntries k ns entries) s1 = (r, s')" by (auto elim!: run_bindE run_rangeMapE)
    from set [of entries] 1(2) 2 obtain cs where "calls s' = calls s1 @ cs"
      "list_all (appliesOnly (\<lambda>u. UsNamespace u = ns)) cs" by (auto elim: emitsD)
    with 1(1) show "\<exists>cs. calls s' = calls s @ cs \<and> list_all (appliesOnly (\<lambda>u. UsNamespace u = ns)) cs" by auto
  qed
  show "emits (\<lambda>c. \<exists>key. fst c = Delete key \<and> key_ns key = '''') (deleteManifests k configMap)"
    unfolding deleteManifests_def
  proof (rule emitsI)
    fix s r s'
    assume "run (do { entries \<leftarrow> rangeMap k (CmData configMap);
      deleteErrors \<leftarrow> State_Monad.traverse_list (deleteEntry k) entries; ret (concat deleteErrors) }) s = (r, s')"
    then obtain entries s1 errs where 1: "calls s1 = calls s" "set entries = set (CmData configMap)"
      and 2: "run (State_Monad.traverse_list (deleteEntry k) entries) s1 = (errs, s')"
      by (auto elim!: run_bindE run_rangeMapE run_retE)
    have "emits (\<lambda>c. \<exists>key. fst c = Delete key \<and> key_ns key = '''') (deleteEntry k entry)"
      if "entry \<in> set entries" for entry
      using assms(2) that 1(2) unfolding deleteEntry_def
      by (intro trace_intro emits_perform) (auto simp: manifestObject_def usKey_def)
    then have "emits (\<lambda>c. \<exists>key. fst c = Delete key \<and> key_ns key = '''') (State_Monad.traverse_list (deleteEntry k) entries)"
      by (rule emits_traverse)
    from this 2 obtain cs where "calls s' = calls s1 @ cs"
      "list_all (\<lambda>c. \<exists>key. fst c = Delete key \<and> key_ns key = '''') cs" by (rule emitsD)
    with 1(1) show "\<exists>cs. calls s' = calls s @ cs \<and> list_all (\<lambda>c. \<exists>key. fst c = Delete key \<and> key_ns key = '''') cs" by auto
  qed
qed

theorem removal_misses_default_namespace_witness:
  "emits (\<lambda>c. \<exists>key. fst c = Delete key \<and> key_ns key = '''') (deleteManifests sampleWorld sampleSource)"
proof -
  have "\<forall>entry \<in> set (CmData sampleSource). \<forall>object. manifestObject sampleWorld entry = Some object \<longrightarrow> UsNamespace object = ''''"
    using sample_manifest by (simp add: sampleSource_def samplePod_def)
  then show ?thesis
    using removal_misses_default_namespace [of "''x''" sampleSource sampleWorld] by blast
qed

end
