(* ===== verification/Go_Json_Read.thy ===== *)
theory Go_Json_Read
  imports Go_Json
begin

text \<open>
  \<open>json.Unmarshal\<close>, first half: the grammar of JSON as \<open>encoding/json\<close> accepts it. Number literals stay texts, since
  what they mean depends on the type they are decoded into. Strings are bytes in UTF-8. The limit of ten thousand
  nested brackets, at which the Go decoder stops, is left out.
\<close>

datatype token =
    TNull
  | TBool bool
  | TNum string
  | TStr string
  | TArr "token list"
  | TObj "(string \<times> token) list"

section \<open>White space and numbers\<close>

definition isSpace :: "char \<Rightarrow> bool" where
  "isSpace x \<longleftrightarrow> x = CHR 32 \<or> x = CHR 9 \<or> x = CHR 10 \<or> x = CHR 13"

definition skipSpace :: "string \<Rightarrow> string" where
  "skipSpace = dropWhile isSpace"

definition spanDigits :: "string \<Rightarrow> string \<times> string" where
  "spanDigits s = (takeWhile isDigit s, dropWhile isDigit s)"

text \<open>The parts of a number literal. Each continues what has been read so far.\<close>

definition readWhole :: "string \<Rightarrow> (string \<times> string) option" where
  "readWhole s =
     (let (minus, r) = (case s of x # xs \<Rightarrow> if x = CHR ''-'' then ([x], xs) else ([], s) | [] \<Rightarrow> ([], []))
      in case r of
           [] \<Rightarrow> None
         | x # xs \<Rightarrow>
             if x = CHR ''0'' then Some (minus @ [x], xs)
             else if isDigit x then (let (ds, r') = spanDigits r in Some (minus @ ds, r'))
             else None)"

definition readFraction :: "string \<times> string \<Rightarrow> (string \<times> string) option" where
  "readFraction = (\<lambda>(lit, s). case s of
     x # xs \<Rightarrow>
       if x = CHR ''.'' then (let (ds, r) = spanDigits xs in if ds = [] then None else Some (lit @ x # ds, r))
       else Some (lit, s)
   | [] \<Rightarrow> Some (lit, s))"

definition readExponent :: "string \<times> string \<Rightarrow> (string \<times> string) option" where
  "readExponent = (\<lambda>(lit, s). case s of
     x # xs \<Rightarrow>
       if x = CHR ''e'' \<or> x = CHR ''E''
       then (let (sgn, ys) = (case xs of y # ys \<Rightarrow> if y = CHR ''+'' \<or> y = CHR ''-'' then ([y], ys) else ([], xs) | [] \<Rightarrow> ([], []));
                 (ds, r) = spanDigits ys
             in if ds = [] then None else Some (lit @ x # sgn @ ds, r))
       else Some (lit, s)
   | [] \<Rightarrow> Some (lit, s))"

definition readNumber :: "string \<Rightarrow> (string \<times> string) option" where
  "readNumber s = Option.bind (Option.bind (readWhole s) readFraction) readExponent"

section \<open>Strings\<close>

text \<open>Four hexadecimal digits.\<close>

fun hex4 :: "string \<Rightarrow> nat option" where
  "hex4 (a # b # c # d # rest) =
     (case (hexValue a, hexValue b, hexValue c, hexValue d) of
        (Some a', Some b', Some c', Some d') \<Rightarrow> Some (((a' * 16 + b') * 16 + c') * 16 + d')
      | _ \<Rightarrow> None)"
| "hex4 _ = None"

definition utf8Encode :: "nat \<Rightarrow> string" where
  "utf8Encode n = map char_of
     (if n < 0x80 then [n]
      else if n < 0x800 then [0xC0 + n div 64, 0x80 + n mod 64]
      else if n < 0x10000 then [0xE0 + n div 4096, 0x80 + n div 64 mod 64, 0x80 + n mod 64]
      else [0xF0 + n div 262144, 0x80 + n div 4096 mod 64, 0x80 + n div 64 mod 64, 0x80 + n mod 64])"

definition isSurrogate :: "nat \<Rightarrow> bool" where
  "isSurrogate n \<longleftrightarrow> 0xD800 \<le> n \<and> n < 0xE000"

text \<open>The second half of a surrogate pair, written as an escape: the decoded character.\<close>

fun pairWith :: "nat \<Rightarrow> string \<Rightarrow> nat option" where
  "pairWith hi (x # y # rest) =
     (if x = CHR 0x5C \<and> y = CHR ''u''
      then (case hex4 rest of
              Some lo \<Rightarrow> if hi < 0xDC00 \<and> 0xDC00 \<le> lo \<and> lo < 0xE000
                then Some ((hi - 0xD800) * 1024 + (lo - 0xDC00) + 0x10000) else None
            | None \<Rightarrow> None)
      else None)"
| "pairWith hi _ = None"

text \<open>What follows a backslash: the bytes it stands for and how many were read.\<close>

definition readEscape :: "string \<Rightarrow> (string \<times> nat) option" where
  "readEscape s =
     (case s of
        [] \<Rightarrow> None
      | x # xs \<Rightarrow>
          if x = CHR 0x22 \<or> x = CHR 0x5C \<or> x = CHR ''/'' then Some ([x], 1)
          else if x = CHR ''b'' then Some ([CHR 8], 1)
          else if x = CHR ''f'' then Some ([CHR 12], 1)
          else if x = CHR ''n'' then Some ([CHR 10], 1)
          else if x = CHR ''r'' then Some ([CHR 13], 1)
          else if x = CHR ''t'' then Some ([CHR 9], 1)
          else if x = CHR ''u''
          then (case hex4 xs of
                  None \<Rightarrow> None
                | Some n \<Rightarrow>
                    if \<not> isSurrogate n then Some (utf8Encode n, 5)
                    else case pairWith n (drop 4 xs) of
                      Some m \<Rightarrow> Some (utf8Encode m, 11)
                    | None \<Rightarrow> Some (utf8Encode 0xFFFD, 5))
          else None)"

text \<open>The rest of a string after its opening quote.\<close>

function readString :: "string \<Rightarrow> (string \<times> string) option" where
  "readString [] = None"
| "readString (x # xs) =
     (if x = CHR 0x22 then Some ([], xs)
      else if (of_char x :: nat) < 32 then None
      else if x = CHR 0x5C
      then (case readEscape xs of
              None \<Rightarrow> None
            | Some (bytes, n) \<Rightarrow> map_option (\<lambda>(t, r). (bytes @ t, r)) (readString (drop n xs)))
      else map_option (\<lambda>(t, r). (x # t, r)) (readString xs))"
  by pat_completeness auto
termination by (relation "measure length") auto

section \<open>Values\<close>

lemma dropWhile_length_Cons: "dropWhile P s = x # xs \<Longrightarrow> length xs < length s"
  by (metis impossible_Cons length_dropWhile_le not_le_imp_less order_trans)

text \<open>
  The comparisons of lengths are always true where they stand, since reading a value leaves a shorter rest
  (\<open>readValue_shorter\<close>); they make the recursion evident.
\<close>

function (sequential) readValue :: "string \<Rightarrow> (token \<times> string) option"
  and readElems :: "string \<Rightarrow> (token list \<times> string) option"
  and readMembers :: "string \<Rightarrow> ((string \<times> token) list \<times> string) option" where
  "readValue s =
     (case skipSpace s of
        [] \<Rightarrow> None
      | x # xs \<Rightarrow>
          if x = CHR ''{''
          then (case skipSpace xs of
                  [] \<Rightarrow> None
                | y # ys \<Rightarrow> if y = CHR ''}'' then Some (TObj [], ys)
                    else map_option (\<lambda>(ms, r). (TObj ms, r)) (readMembers xs))
          else if x = CHR ''[''
          then (case skipSpace xs of
                  [] \<Rightarrow> None
                | y # ys \<Rightarrow> if y = CHR '']'' then Some (TArr [], ys)
                    else map_option (\<lambda>(vs, r). (TArr vs, r)) (readElems xs))
          else if x = CHR 0x22 then map_option (\<lambda>(t, r). (TStr t, r)) (readString xs)
          else if take 4 (x # xs) = ''true'' then Some (TBool True, drop 4 (x # xs))
          else if take 5 (x # xs) = ''false'' then Some (TBool False, drop 5 (x # xs))
          else if take 4 (x # xs) = ''null'' then Some (TNull, drop 4 (x # xs))
          else map_option (\<lambda>(lit, r). (TNum lit, r)) (readNumber (x # xs)))"
| "readElems s =
     (case readValue s of
        None \<Rightarrow> None
      | Some (v, r) \<Rightarrow>
          (case skipSpace r of
             [] \<Rightarrow> None
           | y # ys \<Rightarrow> if y = CHR '']'' then Some ([v], ys)
               else if y = CHR '','' \<and> length ys < length s then map_option (\<lambda>(vs, r'). (v # vs, r')) (readElems ys)
               else None))"
| "readMembers s =
     (case skipSpace s of
        [] \<Rightarrow> None
      | x # xs \<Rightarrow>
          if x \<noteq> CHR 0x22 then None
          else (case readString xs of
            None \<Rightarrow> None
          | Some (key, r) \<Rightarrow>
              (case skipSpace r of
                 [] \<Rightarrow> None
               | y # ys \<Rightarrow>
                   if y \<noteq> CHR '':'' \<or> length s \<le> length ys then None
                   else (case readValue ys of
                     None \<Rightarrow> None
                   | Some (v, r') \<Rightarrow>
                       (case skipSpace r' of
                          [] \<Rightarrow> None
                        | z # zs \<Rightarrow> if z = CHR ''}'' then Some ([(key, v)], zs)
                            else if z = CHR '','' \<and> length zs < length s
                            then map_option (\<lambda>(ms, r''). ((key, v) # ms, r'')) (readMembers zs)
                            else None)))))"
  by pat_completeness auto
termination
  by (relation "measure (\<lambda>x. case x of Inl s \<Rightarrow> 2 * length s | Inr (Inl s) \<Rightarrow> 2 * length s + 1 | Inr (Inr s) \<Rightarrow> 2 * length s + 1)")
    (auto simp: skipSpace_def dest!: dropWhile_length_Cons)

text \<open>A document: one value, and white space around it.\<close>

definition readJson :: "string \<Rightarrow> token option" where
  "readJson s = (case readValue s of
     Some (v, r) \<Rightarrow> if skipSpace r = [] then Some v else None
   | None \<Rightarrow> None)"

declare readValue.simps [simp del] readElems.simps [simp del] readMembers.simps [simp del]

section \<open>A reader consumes what it reads\<close>

lemma spanDigits_shorter: "spanDigits s = (ds, r) \<Longrightarrow> length r \<le> length s"
  by (auto simp: spanDigits_def length_dropWhile_le)

lemma dropWhile_less: "length s < n \<Longrightarrow> length (dropWhile P s) < n"
  using length_dropWhile_le [of P s] by simp

lemma readWhole_shorter: "readWhole s = Some (lit, r) \<Longrightarrow> length r < length s"
  by (cases s)
    (auto simp: readWhole_def spanDigits_def Let_def isDigit_def dropWhile_less split: list.splits if_splits)

lemma readFraction_shorter: "readFraction (lit', s) = Some (lit, r) \<Longrightarrow> length r \<le> length s"
  by (auto simp: readFraction_def Let_def le_SucI dest!: spanDigits_shorter split: list.splits if_splits prod.splits)

lemma readExponent_shorter: "readExponent (lit', s) = Some (lit, r) \<Longrightarrow> length r \<le> length s"
  by (auto simp: readExponent_def Let_def le_SucI dest!: spanDigits_shorter split: list.splits if_splits prod.splits)

lemma readNumber_shorter: "readNumber s = Some (lit, r) \<Longrightarrow> length r < length s"
  by (auto simp: readNumber_def bind_eq_Some_conv dest!: readWhole_shorter readFraction_shorter readExponent_shorter)

lemma readString_shorter: "readString s = Some (t, r) \<Longrightarrow> length r < length s"
proof (induction s arbitrary: t r rule: readString.induct)
  case (2 x xs)
  show ?case
  proof (cases "x \<noteq> CHR 0x22 \<and> \<not> (of_char x :: nat) < 32 \<and> x = CHR 0x5C")
    case True
    with 2 obtain bytes n t' where e: "readEscape xs = Some (bytes, n)" "readString (drop n xs) = Some (t', r)"
      by (auto split: option.splits)
    with 2 True show ?thesis by fastforce
  qed (use 2 in \<open>fastforce split: if_splits\<close>)
qed simp

lemma skipSpace_shorter: "length (skipSpace s) \<le> length s" "skipSpace s = x # xs \<Longrightarrow> length xs < length s"
  unfolding skipSpace_def by (simp_all add: length_dropWhile_le dropWhile_length_Cons)

lemma readValue_shorter:
  "readValue s = Some (v, r) \<Longrightarrow> length r < length s"
  "readElems s = Some (vs, r) \<Longrightarrow> length r < length s"
  "readMembers s = Some (ms, r) \<Longrightarrow> length r < length s"
proof (induction s and s and s arbitrary: v r and vs r and ms r rule: readValue_readElems_readMembers.induct)
  case (1 s)
  show ?case
  proof (cases "skipSpace s")
    case (Cons x xs)
    note l = skipSpace_shorter(2) [OF Cons]
    have "length r < length xs" if "readMembers xs = Some (ms, r)" "skipSpace xs = y # ys" "x = CHR ''{''" "y \<noteq> CHR ''}''" for ms y ys
      using 1(1) [OF Cons that(3,2)] that by simp
    moreover have "length r < length xs" if "readElems xs = Some (vs, r)" "skipSpace xs = y # ys" "x = CHR ''[''" "y \<noteq> CHR '']''" for vs y ys
      using 1(2) [OF Cons _ that(3,2)] that by simp
    ultimately show ?thesis
      using 1(3) Cons l readString_shorter [of xs] readNumber_shorter [of "x # xs"]
      by (subst (asm) readValue.simps)
        (auto split: list.splits if_splits dest: skipSpace_shorter(2), (meson less_trans)+)
  qed (use 1(3) in \<open>simp add: readValue.simps\<close>)
next
  case (2 s)
  obtain v0 r0 y ys where a: "readValue s = Some (v0, r0)" "skipSpace r0 = y # ys"
    and b: "ys = r \<or> (\<exists>vs'. readElems ys = Some (vs', r) \<and> y \<noteq> CHR '']'' \<and> y = CHR '','' \<and> length ys < length s)"
    using 2(3) by (subst (asm) readElems.simps) (auto split: list.splits if_splits option.splits)
  have l: "length ys < length s" using 2(1) [OF a(1)] skipSpace_shorter(2) [OF a(2)] by simp
  from b show ?case
  proof
    assume "\<exists>vs'. readElems ys = Some (vs', r) \<and> y \<noteq> CHR '']'' \<and> y = CHR '','' \<and> length ys < length s"
    then show ?thesis using 2(2) [OF a(1) refl a(2)] l by auto
  qed (use l in simp)
next
  case (3 s)
  obtain x xs key r0 y ys v r1 z zs where a: "skipSpace s = x # xs" "readString xs = Some (key, r0)" "skipSpace r0 = y # ys"
    "readValue ys = Some (v, r1)" "skipSpace r1 = z # zs" "x = CHR 0x22" "y = CHR '':''" "length ys < length s"
    and b: "zs = r \<or> (\<exists>ms'. readMembers zs = Some (ms', r) \<and> z \<noteq> CHR ''}'' \<and> z = CHR '','' \<and> length zs < length s)"
    using 3(3) by (subst (asm) readMembers.simps) (auto split: list.splits if_splits option.splits simp: not_le)
  have l: "length zs < length s"
    using 3(1) [OF a(1) _ a(2) refl a(3) _ a(4)] a(6-8) skipSpace_shorter(2) [OF a(5)] by simp
  from b show ?case
  proof
    assume "\<exists>ms'. readMembers zs = Some (ms', r) \<and> z \<noteq> CHR ''}'' \<and> z = CHR '','' \<and> length zs < length s"
    then show ?thesis using 3(2) [OF a(1) _ a(2) refl a(3) _ a(4) refl a(5)] a(6-8) l by auto
  qed (use l in simp)
qed

end
