(* ===== verification/Go_Json_Layout.thy ===== *)
theory Go_Json_Layout
  imports Go_Json_Read
begin

text \<open>
  A document that \<open>json.Marshal\<close> or \<open>json.MarshalIndent\<close> has written is read back as the value it was
  written from. Both printers are instances of one relation, \<open>valueText\<close>, which allows white space wherever
  JSON does; the reader is shown to invert the relation.
\<close>

section \<open>Numbers\<close>

text \<open>What may follow a number: the reader does not take it for a part of the literal.\<close>

definition numberEnd :: "string \<Rightarrow> bool" where
  "numberEnd r \<longleftrightarrow> r = [] \<or> (\<not> isDigit (hd r) \<and> hd r \<notin> {CHR ''.'', CHR ''e'', CHR ''E''})"

definition noDigit :: "string \<Rightarrow> bool" where
  "noDigit r \<longleftrightarrow> r = [] \<or> \<not> isDigit (hd r)"

lemma spanDigits_append: "list_all isDigit ds \<Longrightarrow> noDigit r \<Longrightarrow> spanDigits (ds @ r) = (ds, r)"
  by (induction ds) (auto simp: spanDigits_def noDigit_def intro: takeWhile_eq_Nil_iff [THEN iffD2] dropWhile_eq_self_iff [THEN iffD2])

lemma readWhole_append:
  assumes "ds = ''0'' \<or> digitText ds" "noDigit r"
  shows "readWhole ((if neg then ''-'' else '''') @ ds @ r) = Some ((if neg then ''-'' else '''') @ ds, r)"
proof (cases "ds = ''0''")
  case False
  then have d: "digitText ds" using assms(1) by simp
  then obtain x xs where x: "ds = x # xs" "isDigit x" "x \<noteq> CHR ''0''" "x \<noteq> CHR ''-''"
    using isDigit_other by (cases ds) (auto simp: digitText_def)
  have "spanDigits (x # xs @ r) = (x # xs, r)" using spanDigits_append [of ds r] d assms(2) x(1) by (simp add: digitText_def)
  with x show ?thesis by (simp add: readWhole_def)
qed (simp add: readWhole_def)

lemma readFraction_append:
  assumes "list_all isDigit ds" "ds \<noteq> []" "noDigit r"
  shows "readFraction (l, CHR ''.'' # ds @ r) = Some (l @ CHR ''.'' # ds, r)"
  using spanDigits_append [OF assms(1,3)] assms(2) by (simp add: readFraction_def)

lemma readFraction_none: "r = [] \<or> hd r \<noteq> CHR ''.'' \<Longrightarrow> readFraction (l, r) = Some (l, r)"
  by (cases r) (simp_all add: readFraction_def)

lemma readExponent_append:
  assumes "list_all isDigit ds" "ds \<noteq> []" "noDigit r"
  shows "readExponent (l, ''e'' @ (if neg then ''-'' else ''+'') @ ds @ r) =
    Some (l @ ''e'' @ (if neg then ''-'' else ''+'') @ ds, r)"
  using spanDigits_append [OF assms(1,3)] assms(2) by (simp add: readExponent_def)

lemma readExponent_none: "numberEnd r \<Longrightarrow> readExponent (l, r) = Some (l, r)"
  by (cases r) (simp_all add: readExponent_def numberEnd_def)

lemma numberEnd_noDigit: "numberEnd r \<Longrightarrow> noDigit r"
  by (auto simp: numberEnd_def noDigit_def)

text \<open>The literals the encoder writes.\<close>

lemma readNumber_whole:
  assumes "ds = ''0'' \<or> digitText ds" "numberEnd r"
  shows "readNumber ((if neg then ''-'' else '''') @ ds @ r) = Some ((if neg then ''-'' else '''') @ ds, r)"
  unfolding readNumber_def readWhole_append [OF assms(1) numberEnd_noDigit [OF assms(2)]]
  using assms(2) readFraction_none readExponent_none by (auto simp: numberEnd_def)

lemma readNumber_point:
  assumes "ds = ''0'' \<or> digitText ds" "list_all isDigit es" "es \<noteq> []" "numberEnd r"
  shows "readNumber ((if neg then ''-'' else '''') @ ds @ CHR ''.'' # es @ r) =
    Some ((if neg then ''-'' else '''') @ ds @ CHR ''.'' # es, r)"
proof -
  have "noDigit (CHR ''.'' # es @ r)" by (simp add: noDigit_def isDigit_def)
  from readWhole_append [OF assms(1) this, of neg]
  show ?thesis using readFraction_append [OF assms(2,3) numberEnd_noDigit [OF assms(4)]] readExponent_none [OF assms(4)]
    by (simp add: readNumber_def)
qed

lemma noDigit_e: "noDigit (''e'' @ t)" "hd (''e'' @ t) \<noteq> CHR ''.''"
  by (simp_all add: noDigit_def isDigit_def)

lemma readNumber_formatE:
  assumes "digitText ds" "numberEnd r"
  shows "readNumber ((if neg then ''-'' else '''') @ formatE ds dp @ r) = Some ((if neg then ''-'' else '''') @ formatE ds dp, r)"
proof -
  define n where "n = natDigits (nat \<bar>dp - 1\<bar>)"
  define e where "e = ''e'' @ (if dp - 1 < 0 then ''-'' else ''+'') @ n"
  obtain d es where ds: "ds = d # es" "digitText [d]" "list_all isDigit es"
    using assms(1) by (cases ds) (auto simp: digitText_def)
  have f: "formatE ds dp = [d] @ (if es = [] then '''' else CHR ''.'' # es) @ e"
    using ds(1) by (auto simp: formatE_def e_def n_def)
  have ee: "readExponent (l, e @ r) = Some (l @ e, r)" for l
    using readExponent_append [of n r l "dp - 1 < 0"] natDigits_digits numberEnd_noDigit [OF assms(2)] by (simp add: e_def n_def)
  have e: "noDigit (e @ r)" "hd (e @ r) \<noteq> CHR ''.''" "e @ r \<noteq> []" by (simp_all add: e_def noDigit_def isDigit_def)
  let ?s = "if neg then ''-'' else ''''"
  show ?thesis
  proof (cases "es = []")
    case True
    have "readWhole (?s @ [d] @ e @ r) = Some (?s @ [d], e @ r)" using ds(2) e(1) by (intro readWhole_append) simp
    moreover have "readFraction (?s @ [d], e @ r) = Some (?s @ [d], e @ r)" using e(2) by (intro readFraction_none) simp
    ultimately show ?thesis using ee True by (simp add: readNumber_def f)
  next
    case False
    have "readWhole (?s @ [d] @ CHR ''.'' # es @ e @ r) = Some (?s @ [d], CHR ''.'' # es @ e @ r)"
      using ds(2) by (intro readWhole_append) (simp_all add: noDigit_def isDigit_def)
    with readFraction_append [OF ds(3) False e(1)] ee False show ?thesis by (simp add: readNumber_def f)
  qed
qed

lemma wholePart_digitText:
  assumes "digitText ds"
  shows "wholePart ds dp = ''0'' \<or> digitText (wholePart ds dp)"
proof (cases "0 < dp")
  case True
  then obtain n where "nat dp = Suc n" by (cases "nat dp") auto
  with assms True show ?thesis
    using digits_of_parts(1) [OF assms, of dp] by (cases ds) (auto simp: wholePart_def digitText_def)
qed (simp add: wholePart_def)

lemma readNumber_formatF:
  assumes "digitText ds" "numberEnd r"
  shows "readNumber ((if neg then ''-'' else '''') @ formatF ds dp @ r) = Some ((if neg then ''-'' else '''') @ formatF ds dp, r)"
proof -
  note w = wholePart_digitText [OF assms(1), of dp] and p = digits_of_parts(2,4) [OF assms(1), of dp]
  show ?thesis
  proof (cases "int (length ds) \<le> dp")
    case True
    then show ?thesis using readNumber_whole [OF w assms(2), of neg] by (simp add: formatF_parts)
  next
    case False
    then show ?thesis using readNumber_point [OF w p(1) p(2) assms(2), of neg] by (simp add: formatF_parts)
  qed
qed

lemma natDigits_0: "natDigits 0 = ''0''"
  using char_of_char [of "CHR ''0''", where 'a = nat] by (simp add: natDigits.simps [of 0])

lemma natDigits_literal: "natDigits n = ''0'' \<or> digitText (natDigits n)"
  by (cases "n = 0") (simp_all add: natDigits_0 digitText_def natDigits_digits natDigits_hd)

lemma readNumber_showInt: "numberEnd r \<Longrightarrow> readNumber (showInt i @ r) = Some (showInt i, r)"
  using readNumber_whole [OF natDigits_literal, of r "i < 0"] by (cases "i < 0") (simp_all add: showInt_def)

lemma readNumber_jsonFloat:
  assumes "isFloat64 f" "isFinite f" "numberEnd r"
  shows "readNumber (jsonFloat f @ r) = Some (jsonFloat f, r)"
proof -
  obtain s m where f: "f = FFin s m" using assms(2) by (cases f) simp_all
  with assms(1) have m: "0 \<le> m" "mkFloat False m = FFin False m" by (simp_all add: mkFloat_sign [of s m])
  show ?thesis
  proof (cases "m = 0")
    case True
    then show ?thesis using readNumber_whole [of "''0''" r s] assms(3) by (simp add: f formatMag_def)
  next
    case False
    then obtain c y where s: "shortest m = Some (c, y)" "0 < c" using shortest_ok [OF m(2)] m(1) by (metis order_le_less)
    then have d: "digitText (decimalDigits c)" using decimalDigits_split by (metis digitText_def)
    define dp where "dp = int (length (natDigits (nat c))) + y"
    let ?s = "if s then ''-'' else ''''"
    have "formatMag m \<in> {formatE (decimalDigits c) dp, formatF (decimalDigits c) dp}"
      unfolding formatMag_def s(1) using False by (simp add: dp_def Let_def)
    then have "readNumber (?s @ formatMag m @ r) = Some (?s @ formatMag m, r)"
      using readNumber_formatE [OF d assms(3), of s dp] readNumber_formatF [OF d assms(3), of s dp] by auto
    then show ?thesis by (simp add: f)
  qed
qed

section \<open>Strings\<close>

lemma hexValue_hexDigit: "n < 16 \<Longrightarrow> hexValue (hexDigit n) = Some n"
  by (auto simp: hexValue_def hexDigit_def Let_def)

lemma readEscape_u:
  assumes "(of_char c :: nat) < 128"
  shows "readEscape (''u00'' @ [hexDigit ((of_char c :: nat) div 16), hexDigit ((of_char c :: nat) mod 16)] @ t) = Some ([c], 5)"
proof -
  let ?n = "of_char c :: nat"
  have "hexValue (CHR ''0'') = Some 0" by (simp add: hexValue_def)
  moreover have "?n div 16 < 16" using assms by simp
  ultimately have "hex4 (''00'' @ [hexDigit (?n div 16), hexDigit (?n mod 16)] @ t) = Some ?n"
    by (simp add: hexValue_hexDigit)
  then show ?thesis using assms by (simp add: readEscape_def isSurrogate_def utf8Encode_def)
qed

lemma readString_escape: "readString (jsonEscape c @ t) = map_option (\<lambda>(u, r). (c # u, r)) (readString t)"
proof -
  let ?n = "of_char c :: nat"
  have eq: "?n = of_char d \<longleftrightarrow> c = d" for d by simp
  note codes = eq [of "CHR 0x22"] eq [of "CHR 0x5C"] eq [of "CHR 8"] eq [of "CHR 12"] eq [of "CHR 10"] eq [of "CHR 13"] eq [of "CHR 9"]
  consider "?n \<in> {0x22, 0x5C, 8, 12, 10, 13, 9}"
    | "?n \<notin> {0x22, 0x5C, 8, 12, 10, 13, 9}" "?n < 32 \<or> ?n = 0x3C \<or> ?n = 0x3E \<or> ?n = 0x26"
    | "?n \<notin> {0x22, 0x5C, 8, 12, 10, 13, 9}" "\<not> (?n < 32 \<or> ?n = 0x3C \<or> ?n = 0x3E \<or> ?n = 0x26)" by blast
  then show ?thesis
  proof cases
    case 1
    then have "c \<in> {CHR 0x22, CHR 0x5C, CHR 8, CHR 12, CHR 10, CHR 13, CHR 9}" using codes by simp
    then show ?thesis by (auto simp: jsonEscape_def readEscape_def)
  next
    case 2
    then have "?n < 128" by auto
    from readEscape_u [OF this, of t] 2 show ?thesis by (simp add: jsonEscape_def Let_def)
  next
    case 3
    then show ?thesis using codes by (simp add: jsonEscape_def Let_def)
  qed
qed

lemma readString_quoted: "readString (concat (map jsonEscape s) @ CHR 0x22 # r) = Some (s, r)"
  by (induction s) (simp_all add: readString_escape del: readString.simps(2), simp)

section \<open>White space and layouts\<close>

abbreviation spaces :: "string \<Rightarrow> bool" where
  "spaces \<equiv> list_all isSpace"

lemma skipSpace_append: "spaces w \<Longrightarrow> skipSpace (w @ s) = skipSpace s"
  by (induction w) (auto simp: skipSpace_def)

lemma skipSpace_char: "\<not> isSpace x \<Longrightarrow> skipSpace (x # s) = x # s"
  by (simp add: skipSpace_def)

text \<open>A value as the decoder sees it.\<close>

fun token :: "json \<Rightarrow> token" where
  "token JNull = TNull"
| "token (JBool b) = TBool b"
| "token (JStr s) = TStr s"
| "token (JInt i) = TNum (showInt i)"
| "token (JFloat f) = TNum (jsonFloat f)"
| "token (JArr xs) = TArr (map token xs)"
| "token (JObj kvs) = TObj (map (\<lambda>p. (fst p, token (snd p))) kvs)"

text \<open>The texts of a value: \<open>valueText j t\<close> allows any white space inside, none around it.\<close>

inductive valueText :: "json \<Rightarrow> string \<Rightarrow> bool"
  and elemsText :: "json list \<Rightarrow> string \<Rightarrow> bool"
  and membersText :: "(string \<times> json) list \<Rightarrow> string \<Rightarrow> bool" where
  null: "valueText JNull ''null''"
| bool: "valueText (JBool b) (if b then ''true'' else ''false'')"
| str: "valueText (JStr s) (jsonQuote s)"
| int: "valueText (JInt i) (showInt i)"
| float: "isFloat64 f \<Longrightarrow> isFinite f \<Longrightarrow> valueText (JFloat f) (jsonFloat f)"
| no_elems: "spaces w \<Longrightarrow> valueText (JArr []) (''['' @ w @ '']'')"
| elems: "elemsText xs t \<Longrightarrow> valueText (JArr xs) (''['' @ t @ '']'')"
| no_members: "spaces w \<Longrightarrow> valueText (JObj []) (''{'' @ w @ ''}'')"
| members: "membersText kvs t \<Longrightarrow> valueText (JObj kvs) (''{'' @ t @ ''}'')"
| last_elem: "spaces w \<Longrightarrow> spaces w' \<Longrightarrow> valueText x t \<Longrightarrow> elemsText [x] (w @ t @ w')"
| next_elem: "spaces w \<Longrightarrow> spaces w' \<Longrightarrow> valueText x t \<Longrightarrow> elemsText xs t' \<Longrightarrow> elemsText (x # xs) (w @ t @ w' @ '','' @ t')"
| last_member: "spaces w \<Longrightarrow> spaces w' \<Longrightarrow> spaces w'' \<Longrightarrow> valueText x t \<Longrightarrow>
    membersText [(k, x)] (w @ jsonQuote k @ '':'' @ w' @ t @ w'')"
| next_member: "spaces w \<Longrightarrow> spaces w' \<Longrightarrow> spaces w'' \<Longrightarrow> valueText x t \<Longrightarrow> membersText kvs t' \<Longrightarrow>
    membersText ((k, x) # kvs) (w @ jsonQuote k @ '':'' @ w' @ t @ w'' @ '','' @ t')"


section \<open>Reading a layout\<close>

lemma readValue_skip: "spaces w \<Longrightarrow> readValue (w @ s) = readValue s"
  by (simp add: readValue.simps [of "w @ s"] readValue.simps [of s] skipSpace_append)

definition startsValue :: "string \<Rightarrow> bool" where
  "startsValue t \<longleftrightarrow> t \<noteq> [] \<and> \<not> isSpace (hd t) \<and> hd t \<noteq> CHR '']'' \<and> hd t \<noteq> CHR ''}''"

lemma isDigit_starts: "isDigit x \<Longrightarrow> \<not> isSpace x \<and> x \<notin> {CHR '']'', CHR ''}'', CHR ''{'', CHR ''['', CHR 0x22, CHR ''t'', CHR ''f'', CHR ''n''}"
  by (auto simp: isDigit_def isSpace_def)

lemma numberStart_char:
  "x = CHR ''-'' \<or> isDigit x \<Longrightarrow> \<not> isSpace x \<and> x \<notin> {CHR ''{'', CHR ''['', CHR 0x22, CHR ''t'', CHR ''f'', CHR ''n''}"
  by (auto simp: isDigit_def isSpace_def)

definition numberStart :: "string \<Rightarrow> bool" where
  "numberStart t \<longleftrightarrow> t \<noteq> [] \<and> (hd t = CHR ''-'' \<or> isDigit (hd t))"

lemma numberStart_starts: "numberStart t \<Longrightarrow> startsValue t"
  using isDigit_starts by (auto simp: numberStart_def startsValue_def isSpace_def)

lemma readNumber_start: "readNumber t = Some (l, r) \<Longrightarrow> numberStart t"
  by (cases t) (auto simp: readNumber_def readWhole_def numberStart_def isDigit_def bind_eq_Some_conv split: if_splits)

lemma readValue_other:
  assumes "\<not> isSpace x" "x \<notin> {CHR ''{'', CHR ''['', CHR 0x22, CHR ''t'', CHR ''f'', CHR ''n''}"
  shows "readValue (x # xs) = map_option (\<lambda>(lit, r). (TNum lit, r)) (readNumber (x # xs))"
proof -
  have "take 4 (x # xs) \<noteq> ''true''" "take 5 (x # xs) \<noteq> ''false''" "take 4 (x # xs) \<noteq> ''null''"
    using assms(2) by auto
  then show ?thesis using assms(2) unfolding readValue.simps [of "x # xs"] skipSpace_char [OF assms(1)] by simp
qed

lemma readValue_number:
  assumes "readNumber s = Some (l, r)"
  shows "readValue s = Some (TNum l, r)"
proof -
  from readNumber_start [OF assms] obtain x xs where s: "s = x # xs" "x = CHR ''-'' \<or> isDigit x"
    by (cases s) (auto simp: numberStart_def)
  have "\<not> isSpace x" "x \<notin> {CHR ''{'', CHR ''['', CHR 0x22, CHR ''t'', CHR ''f'', CHR ''n''}"
    using numberStart_char [OF s(2)] by blast+
  from readValue_other [OF this] show ?thesis using assms s(1) by simp
qed

lemma numberEnd_Nil: "numberEnd []"
  by (simp add: numberEnd_def)

lemma showInt_starts: "startsValue (showInt i)"
  using readNumber_start [OF readNumber_showInt [OF numberEnd_Nil, of i]] numberStart_starts by simp

lemma jsonFloat_starts: "isFloat64 f \<Longrightarrow> isFinite f \<Longrightarrow> startsValue (jsonFloat f)"
  using readNumber_start [OF readNumber_jsonFloat [OF _ _ numberEnd_Nil, of f]] numberStart_starts by simp

lemma literal_starts:
  "startsValue ''null''" "startsValue (if b then ''true'' else ''false'')" "startsValue (jsonQuote k)"
  "startsValue (''['' @ u)" "startsValue (''{'' @ u)"
  by (simp_all add: startsValue_def isSpace_def jsonQuote_def)

lemma valueText_starts: "valueText j t \<Longrightarrow> startsValue t"
  by (erule valueText.cases) (simp_all only: literal_starts showInt_starts jsonFloat_starts)

lemma skip_startsValue: "startsValue t \<Longrightarrow> skipSpace (t @ r) = t @ r"
  by (cases t) (simp_all add: startsValue_def skipSpace_def)

lemma elemsText_starts:
  assumes "elemsText xs t"
  obtains x u where "skipSpace (t @ r) = x # u" "x \<noteq> CHR '']''"
proof -
  from assms obtain w t' t'' where t: "t = w @ t' @ t''" "spaces w" "startsValue t'"
    by (cases rule: elemsText.cases) (metis valueText_starts)+
  then have "skipSpace (t @ r) = t' @ t'' @ r" by (simp add: skipSpace_append skip_startsValue)
  with t(3) show thesis using that by (cases t') (auto simp: startsValue_def)
qed

lemma membersText_starts:
  assumes "membersText kvs t"
  obtains u where "skipSpace (t @ r) = CHR 0x22 # u"
proof -
  from assms obtain w k t'' where t: "t = w @ jsonQuote k @ t''" "spaces w"
    by (cases rule: membersText.cases) metis+
  then show thesis using that by (simp add: skipSpace_append jsonQuote_def skipSpace_char isSpace_def)
qed


lemma readValue_true: "readValue (''true'' @ r) = Some (TBool True, r)"
  and readValue_false: "readValue (''false'' @ r) = Some (TBool False, r)"
  and readValue_null: "readValue (''null'' @ r) = Some (TNull, r)"
  by (simp_all add: readValue.simps [of "CHR ''t'' # u" for u] readValue.simps [of "CHR ''f'' # u" for u]
    readValue.simps [of "CHR ''n'' # u" for u] skipSpace_char isSpace_def)

lemma readValue_string: "readValue (jsonQuote s @ r) = Some (TStr s, r)"
  by (simp add: jsonQuote_def readValue.simps [of "CHR 0x22 # u" for u] skipSpace_char isSpace_def readString_quoted)

lemma readValue_array:
  "readValue (CHR ''['' # s) = (case skipSpace s of
     [] \<Rightarrow> None
   | y # ys \<Rightarrow> if y = CHR '']'' then Some (TArr [], ys) else map_option (\<lambda>(vs, r). (TArr vs, r)) (readElems s))"
  by (simp add: readValue.simps [of "CHR ''['' # s"] skipSpace_char isSpace_def split: list.split)

lemma readValue_object:
  "readValue (CHR ''{'' # s) = (case skipSpace s of
     [] \<Rightarrow> None
   | y # ys \<Rightarrow> if y = CHR ''}'' then Some (TObj [], ys) else map_option (\<lambda>(ms, r). (TObj ms, r)) (readMembers s))"
  by (simp add: readValue.simps [of "CHR ''{'' # s"] skipSpace_char isSpace_def split: list.split)

text \<open>What stands behind a value inside a document does not continue a number.\<close>

definition punctuation :: "char \<Rightarrow> bool" where
  "punctuation x \<longleftrightarrow> x = CHR '','' \<or> x = CHR '']'' \<or> x = CHR ''}''"

lemma numberEnd_punctuation:
  assumes "spaces w" "punctuation x"
  shows "numberEnd (w @ x # r)" "skipSpace (w @ x # r) = x # r"
proof -
  have x: "\<not> isSpace x" using assms(2) by (auto simp: punctuation_def isSpace_def)
  then show "skipSpace (w @ x # r) = x # r" using assms(1) by (simp add: skipSpace_append skipSpace_char)
  show "numberEnd (w @ x # r)"
    using assms by (cases w) (auto simp: numberEnd_def punctuation_def isSpace_def isDigit_def)
qed

lemma readElems_last:
  assumes "readValue s = Some (v, w @ '']'' @ r)" "spaces w"
  shows "readElems s = Some ([v], r)"
  using numberEnd_punctuation(2) [OF assms(2), of "CHR '']''" r] assms(1)
  by (simp add: readElems.simps [of s] punctuation_def)

lemma readElems_next:
  assumes "readValue s = Some (v, w @ '','' @ u)" "spaces w" "readElems u = Some (vs, r)"
  shows "readElems s = Some (v # vs, r)"
proof -
  have "length u < length s" using readValue_shorter(1) [OF assms(1)] by simp
  then show ?thesis
    using numberEnd_punctuation(2) [OF assms(2), of "CHR '',''" u] assms(1,3)
    by (simp add: readElems.simps [of s] punctuation_def)
qed

lemma readMembers_key:
  assumes "spaces w" "readValue u = Some (v, r')" 
  shows "readMembers (w @ jsonQuote k @ '':'' @ u) =
    (case skipSpace r' of
       [] \<Rightarrow> None
     | z # zs \<Rightarrow> if z = CHR ''}'' then Some ([(k, v)], zs)
         else if z = CHR '','' \<and> length zs < length (w @ jsonQuote k @ '':'' @ u)
         then map_option (\<lambda>(ms, r''). ((k, v) # ms, r'')) (readMembers zs) else None)"
proof -
  define s where "s = w @ jsonQuote k @ '':'' @ u"
  have sk: "skipSpace s = CHR 0x22 # concat (map jsonEscape k) @ CHR 0x22 # CHR '':'' # u"
    using assms(1) by (simp add: s_def skipSpace_append jsonQuote_def skipSpace_char isSpace_def)
  have "length u < length s" by (simp add: s_def)
  moreover have "skipSpace (CHR '':'' # u) = CHR '':'' # u" by (simp add: skipSpace_char isSpace_def)
  ultimately show ?thesis
    unfolding s_def [symmetric] readMembers.simps [of s] sk by (simp add: readString_quoted assms(2) not_le)
qed

theorem read_layout:
  "valueText j t \<Longrightarrow> numberEnd r \<Longrightarrow> spaces w \<Longrightarrow> readValue (w @ t @ r) = Some (token j, r)"
  "elemsText xs t \<Longrightarrow> readElems (t @ '']'' @ r) = Some (map token xs, r)"
  "membersText kvs t \<Longrightarrow> readMembers (t @ ''}'' @ r) = Some (map (\<lambda>p. (fst p, token (snd p))) kvs, r)"
proof (induction arbitrary: r w and r and r rule: valueText_elemsText_membersText.inducts)
  case (no_elems w')
  then show ?case using numberEnd_punctuation(2) [of w' "CHR '']''" r]
    by (simp add: readValue_skip readValue_array punctuation_def)
next
  case (no_members w')
  then show ?case using numberEnd_punctuation(2) [of w' "CHR ''}''" r]
    by (simp add: readValue_skip readValue_object punctuation_def)
next
  case (elems xs t)
  obtain x u where "skipSpace (t @ CHR '']'' # r) = x # u" "x \<noteq> CHR '']''"
    using elemsText_starts [OF elems(1), of "CHR '']'' # r"] .
  then show ?case using elems(2) [of r] elems(4) by (simp add: readValue_skip readValue_array)
next
  case (members kvs t)
  obtain u where "skipSpace (t @ CHR ''}'' # r) = CHR 0x22 # u"
    using membersText_starts [OF members(1), of "CHR ''}'' # r"] .
  then show ?case using members(2) [of r] members(4) by (simp add: readValue_skip readValue_object)
next
  case (last_elem w w' x t)
  have "readValue ((w @ t @ w') @ '']'' @ r) = Some (token x, w' @ '']'' @ r)"
    using last_elem(4) [of "w' @ '']'' @ r" w] last_elem(1) numberEnd_punctuation(1) [OF last_elem(2), of "CHR '']''"]
    by (simp add: punctuation_def)
  then show ?case using readElems_last [OF _ last_elem(2)] by simp
next
  case (next_elem w w' x t xs t')
  have "readValue ((w @ t @ w' @ '','' @ t') @ '']'' @ r) = Some (token x, w' @ '','' @ t' @ '']'' @ r)"
    using next_elem(5) [of "w' @ '','' @ t' @ '']'' @ r" w] next_elem(1) numberEnd_punctuation(1) [OF next_elem(2), of "CHR '',''"]
    by (simp add: punctuation_def)
  then show ?case using readElems_next [OF _ next_elem(2), of _ _ "t' @ '']'' @ r"] next_elem(6) by simp
next
  case (last_member w w' w'' x t k)
  have "readValue (w' @ t @ w'' @ ''}'' @ r) = Some (token x, w'' @ ''}'' @ r)"
    using last_member(5) [of "w'' @ ''}'' @ r" w'] last_member(2) numberEnd_punctuation(1) [OF last_member(3), of "CHR ''}''"]
    by (simp add: punctuation_def)
  from readMembers_key [OF last_member(1) this, of k] show ?case
    using numberEnd_punctuation(2) [OF last_member(3), of "CHR ''}''" r] by (simp add: punctuation_def)
next
  case (next_member w w' w'' x t kvs t' k)
  have "readValue (w' @ t @ w'' @ '','' @ t' @ ''}'' @ r) = Some (token x, w'' @ '','' @ t' @ ''}'' @ r)"
    using next_member(6) [of "w'' @ '','' @ t' @ ''}'' @ r" w'] next_member(2) numberEnd_punctuation(1) [OF next_member(3), of "CHR '',''"]
    by (simp add: punctuation_def)
  from readMembers_key [OF next_member(1) this, of k] show ?case
    using numberEnd_punctuation(2) [OF next_member(3), of "CHR '',''" "t' @ ''}'' @ r"] next_member(7) [of r]
    by (simp add: punctuation_def)
next
  case (bool b)
  then show ?case by (cases b) (simp_all only: readValue_skip if_True if_False readValue_true readValue_false token.simps)
next
  case (int i)
  then show ?case using readValue_number [OF readNumber_showInt] by (simp add: readValue_skip)
next
  case (float f)
  then show ?case using readValue_number [OF readNumber_jsonFloat] by (simp add: readValue_skip)
qed (simp_all only: readValue_skip readValue_null readValue_string token.simps)


section \<open>What the encoder writes\<close>

text \<open>The documents whose floats are finite binary64 values.\<close>

fun jsonExact :: "json \<Rightarrow> bool" where
  "jsonExact (JFloat f) \<longleftrightarrow> isFloat64 f \<and> isFinite f"
| "jsonExact (JArr xs) \<longleftrightarrow> list_all jsonExact xs"
| "jsonExact (JObj kvs) \<longleftrightarrow> list_all (\<lambda>p. jsonExact (snd p)) kvs"
| "jsonExact _ \<longleftrightarrow> True"

lemma elemsText_join:
  assumes "spaces wn" "spaces wi" "spaces we" "xs \<noteq> []" "\<And>x. x \<in> set xs \<Longrightarrow> valueText x (f x)"
  shows "elemsText xs (wn @ joinWith ('','' @ wn) (map (\<lambda>x. wi @ f x) xs) @ we)"
  using assms(4,5)
proof (induction xs rule: list_nonempty_induct)
  case (single x)
  then show ?case using last_elem [of "wn @ wi" we x "f x"] assms(1-3) by simp
next
  case (cons x xs)
  obtain y ys where xs: "xs = y # ys" using cons.hyps by (cases xs) auto
  have "elemsText xs (wn @ joinWith ('','' @ wn) (map (\<lambda>x. wi @ f x) xs) @ we)" using cons by simp
  then show ?case
    using next_elem [of "wn @ wi" "[]" x "f x" xs "wn @ joinWith ('','' @ wn) (map (\<lambda>x. wi @ f x) xs) @ we"] cons.prems assms(1-3)
    by (simp add: xs)
qed

lemma membersText_join:
  assumes "spaces wn" "spaces wi" "spaces wc" "spaces we" "kvs \<noteq> []" "\<And>p. p \<in> set kvs \<Longrightarrow> valueText (snd p) (f (snd p))"
  shows "membersText kvs (wn @ joinWith ('','' @ wn) (map (\<lambda>p. wi @ jsonQuote (fst p) @ '':'' @ wc @ f (snd p)) kvs) @ we)"
  using assms(5,6)
proof (induction kvs rule: list_nonempty_induct)
  case (single p)
  then show ?case using last_member [of "wn @ wi" wc we "snd p" "f (snd p)" "fst p"] assms(1-4) by simp
next
  case (cons p kvs)
  obtain y ys where kvs: "kvs = y # ys" using cons.hyps by (cases kvs) auto
  have "membersText kvs (wn @ joinWith ('','' @ wn) (map (\<lambda>p. wi @ jsonQuote (fst p) @ '':'' @ wc @ f (snd p)) kvs) @ we)"
    using cons by simp
  then show ?case
    using next_member [of "wn @ wi" wc "[]" "snd p" "f (snd p)" kvs _ "fst p"] cons.prems assms(1-4)
    by (simp add: kvs)
qed

lemma valueText_jsonText: "jsonExact j \<Longrightarrow> valueText j (jsonText j)"
proof (induction j)
  case (JArr xs)
  show ?case
  proof (cases "xs = []")
    case False
    with JArr elemsText_join [of "[]" "[]" "[]" xs jsonText] show ?thesis
      using elems [of xs "joinWith '','' (map jsonText xs)"] by (simp add: list_all_iff)
  qed (use no_elems [of "[]"] in simp)
next
  case (JObj kvs)
  show ?case
  proof (cases "kvs = []")
    case False
    have "membersText kvs (joinWith '','' (map (\<lambda>p. jsonQuote (fst p) @ '':'' @ jsonText (snd p)) kvs))"
      using membersText_join [of "[]" "[]" "[]" "[]" kvs jsonText] JObj False by (fastforce simp: list_all_iff snds.simps)
    from members [OF this] show ?thesis by simp
  qed (use no_members [of "[]"] in simp)
qed (use null bool str int float in auto)

lemma spaces_indent: "spaces (indent n)" "spaces newline"
  by (simp_all add: indent_def newline_def list_all_iff isSpace_def)

lemma valueText_jsonIndent: "jsonExact j \<Longrightarrow> valueText j (jsonIndent n j)"
proof (induction j arbitrary: n)
  case (JArr xs)
  show ?case
  proof (cases "xs = []")
    case False
    have "elemsText xs (newline @ joinWith ('','' @ newline) (map (\<lambda>x. indent (Suc n) @ jsonIndent (Suc n) x) xs) @ newline @ indent n)"
      using JArr False spaces_indent by (intro elemsText_join) (auto simp: list_all_iff)
    from elems [OF this] show ?thesis using False by simp
  qed (use no_elems [of "[]"] in simp)
next
  case (JObj kvs)
  show ?case
  proof (cases "kvs = []")
    case False
    have "membersText kvs (newline @ joinWith ('','' @ newline)
        (map (\<lambda>p. indent (Suc n) @ jsonQuote (fst p) @ '':'' @ '' '' @ jsonIndent (Suc n) (snd p)) kvs) @ newline @ indent n)"
      using membersText_join [of newline "indent (Suc n)" "'' ''" "newline @ indent n" kvs "jsonIndent (Suc n)"] JObj False spaces_indent
      by (fastforce simp: list_all_iff isSpace_def)
    from members [OF this] show ?thesis using False by simp
  qed (use no_members [of "[]"] in simp)
qed (use null bool str int float in auto)

text \<open>Reading back what was marshalled.\<close>

lemma readJson_layout: "valueText j t \<Longrightarrow> readJson t = Some (token j)"
  using read_layout(1) [of j t "[]" "[]"] by (simp add: readJson_def numberEnd_Nil skipSpace_def)

theorem readJson_jsonText: "jsonExact j \<Longrightarrow> readJson (jsonText j) = Some (token j)"
  by (rule readJson_layout [OF valueText_jsonText])

theorem readJson_jsonIndent: "jsonExact j \<Longrightarrow> readJson (jsonIndent n j) = Some (token j)"
  by (rule readJson_layout [OF valueText_jsonIndent])

end
