(* ===== verification/Go_Json_Decode.thy ===== *)
theory Go_Json_Decode
  imports Go_Json_Layout
begin

text \<open>
  \<open>json.Unmarshal\<close>, second half: from a parsed document into typed values. A decoder takes the value already in
  the variable, because \<open>null\<close> and missing fields leave it alone. \<open>None\<close> is the error that \<open>Unmarshal\<close>
  returns; what a failed call has already stored is not modelled, since no caller looks at it.
\<close>

type_synonym 'a decoder = "token \<Rightarrow> 'a \<Rightarrow> 'a option"

section \<open>Scalars\<close>

fun decodeString :: "string decoder" where
  "decodeString TNull v = Some v"
| "decodeString (TStr s) v = Some s"
| "decodeString _ v = None"

definition intLiteral :: "string \<Rightarrow> int option" where
  "intLiteral lit =
     (let (neg, ds) = (case lit of x # xs \<Rightarrow> if x = CHR ''-'' then (True, xs) else (False, lit) | [] \<Rightarrow> (False, []))
      in if ds \<noteq> [] \<and> list_all isDigit ds
         then Some (if neg then - int (digitsFrom 0 ds) else int (digitsFrom 0 ds)) else None)"

fun decodeInt32 :: "int32 decoder" where
  "decodeInt32 TNull v = Some v"
| "decodeInt32 (TNum lit) v =
     (case intLiteral lit of
        Some i \<Rightarrow> if - (2 ^ 31) \<le> i \<and> i < 2 ^ 31 then Some (word_of_int i) else None
      | None \<Rightarrow> None)"
| "decodeInt32 _ v = None"

fun decodeFloat :: "float64 decoder" where
  "decodeFloat TNull v = Some v"
| "decodeFloat (TNum lit) v = (case parseFloat lit of Inr f \<Rightarrow> Some f | Inl e \<Rightarrow> None)"
| "decodeFloat _ v = None"

text \<open>An \<open>interface{}\<close> takes any value; a number becomes a \<open>float64\<close>, a repeated key its last value.\<close>

fun anyValue :: "token \<Rightarrow> json option" where
  "anyValue TNull = Some JNull"
| "anyValue (TBool b) = Some (JBool b)"
| "anyValue (TStr s) = Some (JStr s)"
| "anyValue (TNum lit) = (case parseFloat lit of Inr f \<Rightarrow> Some (JFloat f) | Inl e \<Rightarrow> None)"
| "anyValue (TArr ts) = map_option JArr (those (map anyValue ts))"
| "anyValue (TObj ms) =
     map_option (\<lambda>kvs. JObj (fold (\<lambda>(k, v). AList.update k v) kvs []))
       (those (map (\<lambda>p. map_option (Pair (fst p)) (anyValue (snd p))) ms))"

definition decodeAny :: "json decoder" where
  "decodeAny t v = anyValue t"

section \<open>Pointers, slices and structs\<close>

fun decodePointer :: "'a \<Rightarrow> 'a decoder \<Rightarrow> 'a option decoder" where
  "decodePointer zero dec TNull v = Some None"
| "decodePointer zero dec t v = map_option Some (dec t (case v of Some x \<Rightarrow> x | None \<Rightarrow> zero))"

text \<open>
  The elements of a slice are decoded into the elements that are already there. What a shorter array has cut
  off is taken to be gone; in Go it would come back if the same key appeared a third time.
\<close>

fun decodeElems :: "'a \<Rightarrow> 'a decoder \<Rightarrow> token list \<Rightarrow> 'a list \<Rightarrow> 'a list option" where
  "decodeElems zero dec [] old = Some []"
| "decodeElems zero dec (t # ts) old =
     Option.bind (dec t (case old of x # _ \<Rightarrow> x | [] \<Rightarrow> zero))
       (\<lambda>v. map_option (Cons v) (decodeElems zero dec ts (tl old)))"

fun decodeSlice :: "'a \<Rightarrow> 'a decoder \<Rightarrow> 'a list decoder" where
  "decodeSlice zero dec TNull v = Some []"
| "decodeSlice zero dec (TArr ts) v = decodeElems zero dec ts v"
| "decodeSlice zero dec _ v = None"

text \<open>
  Names of fields are compared exactly first and then by Unicode case folding, under which two characters
  outside ASCII, the long s and the Kelvin sign, equal ASCII letters.
\<close>

fun foldName :: "string \<Rightarrow> string" where
  "foldName [] = []"
| "foldName (x # xs) =
     (case xs of
        y # ys \<Rightarrow>
          if x = CHR 0xC5 \<and> y = CHR 0xBF then CHR ''s'' # foldName ys
          else (case ys of
             z # zs \<Rightarrow> if x = CHR 0xE2 \<and> y = CHR 0x84 \<and> z = CHR 0xAA then CHR ''k'' # foldName zs
               else lowerChar x # foldName xs
           | [] \<Rightarrow> lowerChar x # foldName xs)
      | [] \<Rightarrow> [lowerChar x])"

definition fieldFor :: "(string \<times> 'f) list \<Rightarrow> string \<Rightarrow> 'f option" where
  "fieldFor fields key =
     (case map_of fields key of
        Some f \<Rightarrow> Some f
      | None \<Rightarrow> map_of (map (\<lambda>(n, f). (foldName n, f)) fields) (foldName key))"

fun decodeMembers :: "(string \<times> 's decoder) list \<Rightarrow> (string \<times> token) list \<Rightarrow> 's \<Rightarrow> 's option" where
  "decodeMembers fields [] s = Some s"
| "decodeMembers fields ((key, t) # ms) s =
     (case fieldFor fields key of
        None \<Rightarrow> decodeMembers fields ms s
      | Some dec \<Rightarrow> Option.bind (dec t s) (decodeMembers fields ms))"

fun decodeStruct :: "(string \<times> 's decoder) list \<Rightarrow> 's decoder" where
  "decodeStruct fields TNull s = Some s"
| "decodeStruct fields (TObj ms) s = decodeMembers fields ms s"
| "decodeStruct fields _ s = None"

text \<open>A field of a struct: a decoder on the part it names.\<close>

definition onField :: "('s \<Rightarrow> 'a) \<Rightarrow> ('a \<Rightarrow> 's \<Rightarrow> 's) \<Rightarrow> 'a decoder \<Rightarrow> 's decoder" where
  "onField get put dec t s = map_option (\<lambda>v. put v s) (dec t (get s))"

definition unmarshal :: "'a decoder \<Rightarrow> 'a \<Rightarrow> string \<Rightarrow> 'a option" where
  "unmarshal dec zero raw = Option.bind (readJson raw) (\<lambda>t. dec t zero)"

section \<open>Reading back\<close>

lemma intLiteral_showInt: "intLiteral (showInt i) = Some i"
proof (cases "i < 0")
  case False
  obtain x xs where x: "natDigits (nat i) = x # xs" "isDigit x"
    using natDigits_digits [of "nat i"] by (cases "natDigits (nat i)") auto
  then have "x \<noteq> CHR ''-''" using isDigit_other by blast
  then show ?thesis
    using False natDigits_digits [of "nat i"] natDigits_value [of "nat i"] x(1) by (simp add: intLiteral_def showInt_def)
qed (use natDigits_digits natDigits_value in \<open>simp add: intLiteral_def showInt_def\<close>)

lemma decodeInt32_showInt [simp]: "decodeInt32 (TNum (showInt (sint i))) v = Some i"
  using sint_range [of i] by (simp add: intLiteral_showInt)

lemma decodeFloat_jsonFloat: "isFloat64 f \<Longrightarrow> isFinite f \<Longrightarrow> decodeFloat (TNum (jsonFloat f)) v = Some f"
  by (simp add: parse_jsonFloat)

lemma decodeElems_map:
  "(\<And>x. x \<in> set xs \<Longrightarrow> dec (f x) zero = Some x) \<Longrightarrow> decodeElems zero dec (map f xs) [] = Some xs"
  by (induction xs) simp_all

section \<open>Decoders keep types\<close>

text \<open>A decoder that turns values with a property into values with it, whatever the document says.\<close>

definition keeps :: "('a \<Rightarrow> bool) \<Rightarrow> 'a decoder \<Rightarrow> bool" where
  "keeps P dec \<longleftrightarrow> (\<forall>t v v'. P v \<longrightarrow> dec t v = Some v' \<longrightarrow> P v')"

lemma keeps_True: "keeps (\<lambda>v. True) dec"
  by (simp add: keeps_def)

lemma keeps_decodeFloat: "keeps isFloat64 decodeFloat"
proof -
  have "isFloat64 v'" if "isFloat64 v" "decodeFloat t v = Some v'" for t v v'
    using that by (cases t) (auto split: sum.splits intro: float_types)
  then show ?thesis by (simp add: keeps_def)
qed

lemma keeps_decodePointer:
  assumes "keeps P dec" "P zero"
  shows "keeps (pred_option P) (decodePointer zero dec)"
proof -
  have "pred_option P v'" if "pred_option P v" "decodePointer zero dec t v = Some v'" for t v v'
    using that assms by (cases t; cases v) (auto simp: keeps_def)
  then show ?thesis by (simp add: keeps_def)
qed

lemma keeps_decodeElems:
  assumes "keeps P dec" "P zero"
  shows "list_all P old \<Longrightarrow> decodeElems zero dec ts old = Some vs \<Longrightarrow> list_all P vs"
proof (induction ts arbitrary: old vs)
  case (Cons t ts)
  have "P (case old of x # _ \<Rightarrow> x | [] \<Rightarrow> zero)" "list_all P (tl old)"
    using Cons.prems(1) assms(2) by (cases old; simp)+
  then show ?case using Cons assms(1) by (auto simp: bind_eq_Some_conv keeps_def)
qed simp

lemma keeps_decodeSlice:
  assumes "keeps P dec" "P zero"
  shows "keeps (list_all P) (decodeSlice zero dec)"
proof -
  have "list_all P v'" if "list_all P v" "decodeSlice zero dec t v = Some v'" for t v v'
    using that keeps_decodeElems [OF assms] by (cases t) auto
  then show ?thesis by (simp add: keeps_def)
qed

lemma fieldFor_in: "fieldFor fields key = Some f \<Longrightarrow> \<exists>n. (n, f) \<in> set fields"
  by (auto simp: fieldFor_def split: option.splits dest!: map_of_SomeD)

lemma keeps_decodeMembers:
  assumes "\<And>n f. (n, f) \<in> set fields \<Longrightarrow> keeps P f"
  shows "P s \<Longrightarrow> decodeMembers fields ms s = Some s' \<Longrightarrow> P s'"
proof (induction ms arbitrary: s)
  case (Cons m ms)
  obtain key t where m: "m = (key, t)" by force
  show ?case
  proof (cases "fieldFor fields key")
    case (Some f)
    then obtain n where "(n, f) \<in> set fields" using fieldFor_in [OF Some] by blast
    then have "keeps P f" by (rule assms)
    with Cons Some m show ?thesis by (auto simp: bind_eq_Some_conv keeps_def)
  qed (use Cons m in simp)
qed simp

lemma keeps_decodeStruct:
  assumes "\<And>n f. (n, f) \<in> set fields \<Longrightarrow> keeps P f"
  shows "keeps P (decodeStruct fields)"
proof -
  have "P v'" if "P v" "decodeStruct fields t v = Some v'" for t v v'
    using that keeps_decodeMembers [of fields P, OF assms] by (cases t) auto
  then show ?thesis by (simp add: keeps_def)
qed

lemma keeps_onField:
  assumes "keeps Q dec" "\<And>s. P s \<Longrightarrow> Q (get s)" "\<And>s v. P s \<Longrightarrow> Q v \<Longrightarrow> P (put v s)"
  shows "keeps P (onField get put dec)"
proof -
  have "P s'" if p: "P s" and "onField get put dec t s = Some s'" for t s s'
  proof -
    from that(2) obtain v where v: "dec t (get s) = Some v" "s' = put v s" by (auto simp: onField_def)
    then have "Q v" using assms(1) assms(2) [OF p] by (simp add: keeps_def)
    with v(2) p show ?thesis by (simp add: assms(3))
  qed
  then show ?thesis by (simp add: keeps_def)
qed

lemma keeps_unmarshal: "keeps P dec \<Longrightarrow> P zero \<Longrightarrow> unmarshal dec zero raw = Some v \<Longrightarrow> P v"
  by (auto simp: keeps_def unmarshal_def bind_eq_Some_conv)

end
