(* ===== verification/Results.thy ===== *)
theory Results
  imports Measurement Manifests Go_Json_Decode
begin

text \<open>
  The two result ConfigMaps of an experiment run (\<open>appendRepetitionToConfigMap\<close> and
  \<open>appendMeasurementsToConfigMap\<close> of \<open>internal/controller/experiment_controller.go\<close>): the JSON
  document of the repetitions and the JSON lines of the single measurements.
\<close>

section \<open>The results document\<close>

text \<open>
  The structs are marshalled field by field; \<open>omitempty\<close> drops a nil pointer and a zero number. A
  nil slice, which Go would print as \<open>null\<close>, does not arise from what the controller itself writes.
\<close>

definition optField :: "string \<Rightarrow> float64 option \<Rightarrow> (string \<times> json) list" where
  "optField key v = (case v of Some f \<Rightarrow> [(key, JFloat f)] | None \<Rightarrow> [])"

definition sloResultJson :: "SLOResult \<Rightarrow> json" where
  "sloResultJson r = JObj (
     [(''name'', JStr (ResName r)), (''violationScore'', JFloat (ViolationScore r)), (''meanSli'', JFloat (MeanSli r))] @
     optField ''minSli'' (MinSli r) @ optField ''maxSli'' (MaxSli r) @
     [(''evaluations'', JInt (sint (Evaluations r)))] @
     (if ResViolations r = 0 then [] else [(''violations'', JInt (sint (ResViolations r)))]))"

definition repetitionJson :: "RepetitionResult \<Rightarrow> json" where
  "repetitionJson r = JObj
     [(''repetition'', JInt (sint (Repetition r))), (''sloResults'', JArr (map sloResultJson (RepSloResults r))),
      (''aggregateScore'', JFloat (RepAggregateScore r))]"

text \<open>A Go map, so the keys come out sorted.\<close>

definition resultsDocument :: "Experiment \<Rightarrow> RepetitionResult list \<Rightarrow> json" where
  "resultsDocument experiment existing = JObj
     [(''completedRepetitions'', JInt (int (length existing))),
      (''configuredRepetitions'', JInt (sint (Repetitions (Duration (Spec experiment))))),
      (''experimentId'', JStr (ExperimentID (Status experiment))),
      (''experimentName'', JStr (ExpName experiment)),
      (''repetitionData'', JArr (map repetitionJson existing))]"

definition resultsName :: "Experiment \<Rightarrow> string" where
  "resultsName experiment = ''ecoscape-'' @ ExperimentID (Status experiment) @ ''-results''"

text \<open>A ConfigMap in memory, before the read fills it in.\<close>

definition blankConfigMap :: "string \<Rightarrow> string \<Rightarrow> ConfigMap" where
  "blankConfigMap ns name = \<lparr>CmNamespace = ns, CmName = name, CmData = [], CmCreationTimestamp = None\<rparr>"

text \<open>Reading it back: the structs \<open>SLOResult\<close> and \<open>RepetitionResult\<close>, and the anonymous \<open>payload\<close>.\<close>

definition zeroResult :: SLOResult where
  "zeroResult = \<lparr>ResName = '''', ViolationScore = fzero, MeanSli = fzero, MinSli = None, MaxSli = None,
     Evaluations = 0, ResViolations = 0\<rparr>"

definition decodeSloResult :: "SLOResult decoder" where
  "decodeSloResult = decodeStruct
     [(''name'', onField ResName (\<lambda>v. ResName_update (\<lambda>_. v)) decodeString),
      (''violationScore'', onField ViolationScore (\<lambda>v. ViolationScore_update (\<lambda>_. v)) decodeFloat),
      (''meanSli'', onField MeanSli (\<lambda>v. MeanSli_update (\<lambda>_. v)) decodeFloat),
      (''minSli'', onField MinSli (\<lambda>v. MinSli_update (\<lambda>_. v)) (decodePointer fzero decodeFloat)),
      (''maxSli'', onField MaxSli (\<lambda>v. MaxSli_update (\<lambda>_. v)) (decodePointer fzero decodeFloat)),
      (''evaluations'', onField Evaluations (\<lambda>v. Evaluations_update (\<lambda>_. v)) decodeInt32),
      (''violations'', onField ResViolations (\<lambda>v. ResViolations_update (\<lambda>_. v)) decodeInt32)]"

definition zeroRepetition :: RepetitionResult where
  "zeroRepetition = \<lparr>Repetition = 0, RepSloResults = [], RepAggregateScore = fzero\<rparr>"

definition decodeRepetition :: "RepetitionResult decoder" where
  "decodeRepetition = decodeStruct
     [(''repetition'', onField Repetition (\<lambda>v. Repetition_update (\<lambda>_. v)) decodeInt32),
      (''sloResults'', onField RepSloResults (\<lambda>v. RepSloResults_update (\<lambda>_. v)) (decodeSlice zeroResult decodeSloResult)),
      (''aggregateScore'', onField RepAggregateScore (\<lambda>v. RepAggregateScore_update (\<lambda>_. v)) decodeFloat)]"

definition decodePayload :: "RepetitionResult list decoder" where
  "decodePayload = decodeStruct [(''repetitionData'', decodeSlice zeroRepetition decodeRepetition)]"

definition existingResults :: "ConfigMap \<Rightarrow> RepetitionResult list" where
  "existingResults configMap =
     (case map_of (CmData configMap) ''results.json'' of
        None \<Rightarrow> []
      | Some raw \<Rightarrow> (case unmarshal decodePayload [] raw of None \<Rightarrow> [] | Some reps \<Rightarrow> reps))"

definition setData :: "string \<Rightarrow> string \<Rightarrow> ConfigMap \<Rightarrow> ConfigMap" where
  "setData key value configMap = configMap\<lparr>CmData := AList.update key value (CmData configMap)\<rparr>"

definition resultsText :: "Experiment \<Rightarrow> RepetitionResult list \<Rightarrow> goerr + string" where
  "resultsText experiment reps = marshalWith (jsonIndent 0) (resultsDocument experiment reps)"

definition appendRepetitionToConfigMap ::
  "'w env \<Rightarrow> string \<Rightarrow> Experiment \<Rightarrow> RepetitionResult \<Rightarrow> ('w kst, goerr option) state" where
  "appendRepetitionToConfigMap k ns experiment result = do {
     r \<leftarrow> getConfigMap k ns (resultsName experiment);
     case (case r of
             Inl e \<Rightarrow> if \<not> isNotFound e then Inl (wrapf ''get results configmap'' e)
                      else Inr (True, blankConfigMap ns (resultsName experiment), [])
           | Inr configMap \<Rightarrow> Inr (False, configMap, existingResults configMap)) of
       Inl e \<Rightarrow> ret (Some e)
     | Inr (isNew, configMap, existing) \<Rightarrow>
         (case resultsText experiment (existing @ [result]) of
            Inl e \<Rightarrow> ret (Some e)
          | Inr raw \<Rightarrow>
              if isNew then perform k (Create (OConfigMap (setData ''results.json'' raw configMap)))
              else perform k (Update (OConfigMap (setData ''results.json'' raw configMap))))
   }"

section \<open>The measurement lines\<close>

definition measurementDoc :: "int32 \<Rightarrow> ExperimentSubPhase \<Rightarrow> string \<Rightarrow> nat \<Rightarrow> float64 \<Rightarrow> json" where
  "measurementDoc repetition phase slo i v = JObj
     [(''index'', JInt (int i)), (''phase'', JStr (subPhaseString phase)), (''repetition'', JInt (sint repetition)),
      (''slo'', JStr slo), (''value'', JFloat v)]"

definition stateDocs :: "int32 \<Rightarrow> ExperimentSubPhase \<Rightarrow> SLOMeasurementState \<Rightarrow> json list" where
  "stateDocs repetition phase state =
     map (\<lambda>(i, v). measurementDoc repetition phase (StName state) i v) (enumerate 0 (Values state))"

text \<open>What the loop over the values writes to the string builder, or its first error.\<close>

fun writeLines :: "string \<Rightarrow> json list \<Rightarrow> goerr + string" where
  "writeLines sb [] = Inr sb"
| "writeLines sb (doc # docs) =
     (case marshalWith jsonText doc of
        Inl e \<Rightarrow> Inl (wrapf ''marshal measurement'' e)
      | Inr line \<Rightarrow> writeLines (sb @ line @ newline) docs)"

definition measurementsName :: "Experiment \<Rightarrow> string" where
  "measurementsName experiment = ''ecoscape-'' @ ExperimentID (Status experiment) @ ''-measurements''"

definition measurementDocs :: "Experiment \<Rightarrow> ExperimentSubPhase \<Rightarrow> json list" where
  "measurementDocs experiment phase =
     concat (map (stateDocs (RepetitionsCompleted (Status experiment) + 1) phase) (MeasurementState (Status experiment)))"

definition storedLines :: "ConfigMap \<Rightarrow> string" where
  "storedLines configMap = (case map_of (CmData configMap) ''measurements.jsonl'' of Some s \<Rightarrow> s | None \<Rightarrow> '''')"

definition appendMeasurementsToConfigMap ::
  "'w env \<Rightarrow> string \<Rightarrow> Experiment \<Rightarrow> ExperimentSubPhase \<Rightarrow> ('w kst, goerr option) state" where
  "appendMeasurementsToConfigMap k ns experiment phase = do {
     r \<leftarrow> getConfigMap k ns (measurementsName experiment);
     case (case r of
             Inl e \<Rightarrow> if \<not> isNotFound e then Inl (wrapf ''get measurements configmap'' e)
                      else Inr (True, blankConfigMap ns (measurementsName experiment))
           | Inr configMap \<Rightarrow> Inr (False, configMap)) of
       Inl e \<Rightarrow> ret (Some e)
     | Inr (isNew, configMap) \<Rightarrow>
         (case writeLines (if \<not> isNew then storedLines configMap else '''') (measurementDocs experiment phase) of
            Inl e \<Rightarrow> ret (Some e)
          | Inr text \<Rightarrow>
              if isNew then perform k (Create (OConfigMap (setData ''measurements.jsonl'' text configMap)))
              else perform k (Update (OConfigMap (setData ''measurements.jsonl'' text configMap))))
   }"

section \<open>What is finite\<close>

definition finiteResult :: "SLOResult \<Rightarrow> bool" where
  "finiteResult r \<longleftrightarrow> isFinite (ViolationScore r) \<and> isFinite (MeanSli r) \<and>
     (\<forall>v \<in> set_option (MinSli r) \<union> set_option (MaxSli r). isFinite v)"

definition finiteRepetition :: "RepetitionResult \<Rightarrow> bool" where
  "finiteRepetition r \<longleftrightarrow> list_all finiteResult (RepSloResults r) \<and> isFinite (RepAggregateScore r)"

lemma finite_optField [simp]:
  "list_all (\<lambda>p. jsonFinite (snd p)) (optField key v) \<longleftrightarrow> (\<forall>f \<in> set_option v. isFinite f)"
  by (simp add: optField_def split: option.split)

lemma finite_sloResultJson [simp]: "jsonFinite (sloResultJson r) \<longleftrightarrow> finiteResult r"
  by (auto simp: sloResultJson_def finiteResult_def)

lemma finite_repetitionJson [simp]: "jsonFinite (repetitionJson r) \<longleftrightarrow> finiteRepetition r"
  by (auto simp: repetitionJson_def finiteRepetition_def list_all_iff)

lemma finite_resultsDocument [simp]: "jsonFinite (resultsDocument e reps) \<longleftrightarrow> list_all finiteRepetition reps"
  by (auto simp: resultsDocument_def list_all_iff)

lemma list_all_enumerate: "list_all (\<lambda>(i, v). P v) (enumerate n xs) \<longleftrightarrow> list_all P xs"
  by (induction xs arbitrary: n) simp_all

lemma finite_stateDocs [simp]: "list_all jsonFinite (stateDocs r p st) \<longleftrightarrow> list_all isFinite (Values st)"
proof -
  have "jsonFinite \<circ> (\<lambda>(i, v). measurementDoc r p (StName st) i v) = (\<lambda>(i, v). isFinite v)"
    by (auto simp: measurementDoc_def)
  then show ?thesis by (simp add: stateDocs_def list_all_enumerate list.pred_map)
qed

lemma finite_measurementDocs [simp]:
  "list_all jsonFinite (measurementDocs e p) \<longleftrightarrow>
   (\<forall>st \<in> set (MeasurementState (Status e)). list_all isFinite (Values st))"
proof -
  have "list_all P (concat xss) \<longleftrightarrow> (\<forall>xs \<in> set xss. list_all P xs)" for P :: "json \<Rightarrow> bool" and xss
    by (auto simp: list_all_iff)
  then show ?thesis by (simp add: measurementDocs_def)
qed

lemma writeLines_finite:
  "list_all jsonFinite docs \<Longrightarrow>
   writeLines sb docs = Inr (sb @ concat (map (\<lambda>d. jsonText d @ newline) docs))"
  by (induction docs arbitrary: sb) (simp_all add: marshalWith_finite)

lemma writeLines_infinite:
  "\<not> list_all jsonFinite docs \<Longrightarrow> \<exists>e. writeLines sb docs = Inl e"
proof (induction docs arbitrary: sb)
  case (Cons d docs)
  show ?case
  proof (cases "jsonFinite d")
    case True
    with Cons show ?thesis by (simp add: marshalWith_finite)
  next
    case False
    then obtain e where "marshalWith jsonText d = Inl e" using marshalWith_infinite by blast
    then show ?thesis by simp
  qed
qed simp

section \<open>The lines of a text\<close>

text \<open>A document on one line: no string the encoder writes holds a newline.\<close>

lemma newline_natDigits [simp]: "CHR 10 \<notin> set (natDigits n)"
proof (induction n rule: natDigits.induct)
  case (1 n)
  have "CHR 10 \<noteq> char_of (48 + m)" if "m < 10" for m :: nat
  proof
    assume "CHR 10 = char_of (48 + m)"
    then have "of_char (CHR 10) = (of_char (char_of (48 + m) :: char) :: nat)" by simp
    with that show False by simp
  qed
  then show ?case using 1 by (subst natDigits.simps) auto
qed

lemma newline_showInt [simp]: "CHR 10 \<notin> set (showInt i)"
  by (simp add: showInt_def)

lemma newline_jsonEscape [simp]: "CHR 10 \<notin> set (jsonEscape c)"
proof -
  have "CHR 10 \<noteq> hexDigit m" if "m < 16" for m :: nat
  proof
    assume "CHR 10 = hexDigit m"
    then have "of_char (CHR 10) = (of_char (hexDigit m) :: nat)" by simp
    with that show False by (simp add: hexDigit_def split: if_splits)
  qed
  then show ?thesis
    by (auto simp: jsonEscape_def Let_def less_mult_imp_div_less)
qed

lemma newline_jsonQuote [simp]: "CHR 10 \<notin> set (jsonQuote s)"
  by (auto simp: jsonQuote_def)

lemma set_joinWith: "c \<in> set (joinWith sep xs) \<Longrightarrow> c \<in> set sep \<or> (\<exists>x \<in> set xs. c \<in> set x)"
  by (induction sep xs rule: joinWith.induct) auto

lemma set_trimRight: "set (trimRight s c) \<subseteq> set s"
  using set_dropWhileD by (fastforce simp: trimRight_def)

lemma newline_jsonFloat [simp]: "CHR 10 \<notin> set (jsonFloat f)"
proof -
  have d: "CHR 10 \<notin> set (decimalDigits c)" for c
    using set_trimRight newline_natDigits by (fastforce simp: decimalDigits_def)
  then have "CHR 10 \<notin> set (take n (decimalDigits c))" "CHR 10 \<notin> set (drop n (decimalDigits c))" for n c
    by (meson in_set_takeD in_set_dropD)+
  then have "CHR 10 \<notin> set (formatMag m)" for m
    by (auto simp: formatMag_def formatE_def formatF_def Let_def split: option.split)
  then show ?thesis by (cases f) simp_all
qed

lemma newline_jsonText: "CHR 10 \<notin> set (jsonText j)"
  by (induction j rule: jsonText.induct) (auto dest!: set_joinWith)

section \<open>Reading back\<close>

text \<open>The decoders yield results whose numbers are binary64 values.\<close>

lemma typed_zero: "typedResult zeroResult" "typedRepetition zeroRepetition"
  by (simp_all add: typedResult_def zeroResult_def typedRepetition_def zeroRepetition_def float_types)

lemma keeps_typedResult: "keeps typedResult decodeSloResult"
  unfolding decodeSloResult_def
  by (rule keeps_decodeStruct)
    (auto simp: typedResult_def intro: keeps_onField keeps_True keeps_decodeFloat
      keeps_decodePointer [OF keeps_decodeFloat isFloat64_zero(2)])

lemma keeps_typedRepetition: "keeps typedRepetition decodeRepetition"
  unfolding decodeRepetition_def
  by (rule keeps_decodeStruct)
    (auto simp: typedRepetition_def intro: keeps_onField keeps_True keeps_decodeFloat
      keeps_decodeSlice [OF keeps_typedResult typed_zero(1)])

lemma typed_existing: "list_all typedRepetition (existingResults cm)"
proof -
  have "keeps (list_all typedRepetition) decodePayload"
    unfolding decodePayload_def
    by (rule keeps_decodeStruct) (simp add: keeps_decodeSlice [OF keeps_typedRepetition typed_zero(2)])
  then have "list_all typedRepetition reps" if "unmarshal decodePayload [] raw = Some reps" for raw reps
    using keeps_unmarshal [of "list_all typedRepetition", OF _ _ that] by simp
  then show ?thesis by (simp add: existingResults_def split: option.split)
qed

lemma decodeSloResult_back:
  assumes "typedResult r" "finiteResult r"
  shows "decodeSloResult (token (sloResultJson r)) zeroResult = Some r"
  using assms
  by (cases r; cases "MinSli r"; cases "MaxSli r")
    (auto simp: decodeSloResult_def sloResultJson_def optField_def zeroResult_def typedResult_def finiteResult_def
      fieldFor_def onField_def decodeFloat_jsonFloat simp del: decodeFloat.simps decodeInt32.simps)

lemma decodeRepetition_back:
  assumes "typedRepetition r" "finiteRepetition r"
  shows "decodeRepetition (token (repetitionJson r)) zeroRepetition = Some r"
proof -
  have "decodeElems zeroResult decodeSloResult (map (\<lambda>x. token (sloResultJson x)) (RepSloResults r)) [] = Some (RepSloResults r)"
    using assms by (intro decodeElems_map decodeSloResult_back) (auto simp: typedRepetition_def finiteRepetition_def list_all_iff)
  then show ?thesis
    using assms by (cases r) (simp add: decodeRepetition_def repetitionJson_def zeroRepetition_def typedRepetition_def
      finiteRepetition_def fieldFor_def onField_def decodeFloat_jsonFloat comp_def del: decodeFloat.simps decodeInt32.simps)
qed

lemma exact_resultsDocument:
  assumes "list_all typedRepetition reps" "list_all finiteRepetition reps"
  shows "jsonExact (resultsDocument e reps)"
proof -
  have o: "list_all (\<lambda>p. jsonExact (snd p)) (optField key v) \<longleftrightarrow> pred_option (\<lambda>f. isFloat64 f \<and> isFinite f) v" for key v
    by (simp add: optField_def split: option.split)
  have "jsonExact (sloResultJson r)" if "typedResult r" "finiteResult r" for r
    using that by (cases "MinSli r"; cases "MaxSli r") (auto simp: sloResultJson_def o typedResult_def finiteResult_def)
  then have "jsonExact (repetitionJson r)" if "typedRepetition r" "finiteRepetition r" for r
    using that by (auto simp: repetitionJson_def typedRepetition_def finiteRepetition_def list_all_iff)
  then show ?thesis using assms by (auto simp: resultsDocument_def list_all_iff)
qed

text \<open>A document of results reads back as these results.\<close>

lemma decodeResults_back:
  assumes "list_all typedRepetition reps" "list_all finiteRepetition reps"
  shows "decodeElems zeroRepetition decodeRepetition (map (\<lambda>x. token (repetitionJson x)) reps) [] = Some reps"
  using assms by (intro decodeElems_map decodeRepetition_back) (auto simp: list_all_iff)

lemma results_roundtrip:
  assumes "list_all typedRepetition reps" "resultsText e reps = Inr text"
  shows "unmarshal decodePayload [] text = Some reps"
proof -
  have f: "list_all finiteRepetition reps" and doc: "text = jsonIndent 0 (resultsDocument e reps)"
    using assms(2) marshalWith_infinite [of "resultsDocument e reps" "jsonIndent 0"]
    by (fastforce simp: resultsText_def marshalWith_finite)+
  have "readJson text = Some (token (resultsDocument e reps))"
    unfolding doc by (rule readJson_jsonIndent [OF exact_resultsDocument [OF assms(1) f]])
  then show ?thesis
    using decodeResults_back [OF assms(1) f]
    by (simp add: unmarshal_def resultsDocument_def decodePayload_def fieldFor_def lowerChar_def comp_def)
qed

lemma existing_setData:
  "list_all typedRepetition reps \<Longrightarrow> resultsText e reps = Inr raw \<Longrightarrow> existingResults (setData ''results.json'' raw cm) = reps"
  by (simp add: existingResults_def setData_def update_conv' results_roundtrip)

lemmas append_defs = appendRepetitionToConfigMap_def appendMeasurementsToConfigMap_def get_defs

lemma map_of_setData [simp]:
  "map_of (CmData (setData key v cm)) = (map_of (CmData cm))(key \<mapsto> v)"
  "CmName (setData key v cm) = CmName cm" "CmNamespace (setData key v cm) = CmNamespace cm"
  by (simp_all add: setData_def update_conv')

section \<open>An experiment to evaluate with\<close>

definition sampleSLO :: SLOConfig where
  "sampleSLO = \<lparr>SloName = ''lag'', DisplayName = '''', Description = '''', Query = ''up'', Threshold = fone,
     SloThresholdDirection = ThresholdLT, IsBiggerBetter = False, Weight = fone\<rparr>"

definition sampleSpec :: ExperimentSpec where
  "sampleSpec = \<lparr>Duration = \<lparr>LoadDelay = Some 1, EvalDelay = None, TopologyDelay = Some 1, ChaosDelay = Some 1,
       MeasurementDuration = Some 10, Repetitions = 1, PauseBetweenRepetitions = 0, MeasurementSampleInterval = Some 5\<rparr>,
     Manifests = \<lparr>Sut = Some \<lparr>ConfigMapRef = ''src''\<rparr>, Load = None, Infra = None, Monitor = None\<rparr>,
     ExpTopologyRef = Some ''t'', ChaosPhaseRef = Some ''cp'',
     Prometheus = \<lparr>URL = ''http://prom/'', QueryTimeoutSeconds = None\<rparr>, SLOs = [sampleSLO]\<rparr>"

definition idleStatus :: ExperimentStatus where
  "idleStatus = \<lparr>Phase = PhaseRunning, SubPhase = SubPhaseIdle, SubPhaseStartTime = Some 0, SubPhaseDuration = 0,
     SubPhaseElapsed = 0, MeasurementState = [], ExperimentID = ''abcde'', StTopologyRef = ''t'', StartTime = Some 0,
     CompletionTime = None, RepetitionsCompleted = 0, ManifestConfigMaps = [], SloResults = [],
     AggregateScore = None, Conditions = []\<rparr>"

definition sampleExperiment :: "ExperimentStatus \<Rightarrow> Experiment" where
  "sampleExperiment st = \<lparr>ExpName = ''e'', ExpNamespace = ''x'', ExpCreationTimestamp = 0, Spec = sampleSpec, Status = st\<rparr>"

text \<open>A world in which the result ConfigMaps exist, with one result in them.\<close>

definition sampleResult :: RepetitionResult where
  "sampleResult = \<lparr>Repetition = 1, RepSloResults = [], RepAggregateScore = fzero\<rparr>"

definition storedMap :: ConfigMap where
  "storedMap = \<lparr>CmNamespace = ''x'', CmName = ''r'',
     CmData = [(''results.json'', jsonIndent 0 (resultsDocument (sampleExperiment idleStatus) [sampleResult]))],
     CmCreationTimestamp = Some 1\<rparr>"

definition storingWorld :: "unit env" where
  "storingWorld = sampleWorld\<lparr>eGetConfigMap := (\<lambda>ns n w. (Inr storedMap, w))\<rparr>"

definition measuredState :: "float64 \<Rightarrow> SLOMeasurementState" where
  "measuredState v = (freshState ''lag'')\<lparr>Count := 1, Values := [v]\<rparr>"

definition measuredExperiment :: "float64 \<Rightarrow> Experiment" where
  "measuredExperiment v = sampleExperiment (idleStatus\<lparr>SubPhase := SubPhasePreChaosMeasurement, MeasurementState := [measuredState v]\<rparr>)"

lemma storingWorld_sel [simp]:
  "eGetConfigMap storingWorld ns n w = (Inr storedMap, w)"
  "eWrite storingWorld c w = (None, w)"
  by (simp_all add: storingWorld_def sampleWorld_def emptyWorld_def Let_def)

lemma sampleExperiment_sel [simp]: "Status (sampleExperiment st) = st" "Spec (sampleExperiment st) = sampleSpec"
  by (simp_all add: sampleExperiment_def)

lemma measuredExperiment_sel [simp]: "MeasurementState (Status (measuredExperiment v)) = [measuredState v]"
  by (simp add: measuredExperiment_def)

lemma typed_sampleResult: "typedRepetition sampleResult" "finiteRepetition sampleResult"
  by (simp_all add: sampleResult_def typedRepetition_def finiteRepetition_def fzero_def)

lemma existing_storedMap: "existingResults storedMap = [sampleResult]"
  using results_roundtrip [of "[sampleResult]" "sampleExperiment idleStatus"]
  by (simp add: existingResults_def storedMap_def resultsText_def marshalWith_finite typed_sampleResult)

lemma storing_appends:
  "fst (run (appendRepetitionToConfigMap storingWorld ''x'' (sampleExperiment idleStatus) sampleResult) start) = None"
  "fst (run (appendMeasurementsToConfigMap storingWorld ''x'' (measuredExperiment fone) SubPhasePreChaosMeasurement) start) = None"
proof -
  have "list_all jsonFinite (measurementDocs (measuredExperiment fone) SubPhasePreChaosMeasurement)"
    by (simp add: measuredState_def fone_def)
  note 1 = writeLines_finite [OF this]
  have "jsonFinite (resultsDocument (sampleExperiment idleStatus) [sampleResult, sampleResult])"
    by (simp add: typed_sampleResult)
  note 2 = marshalWith_finite [OF this]
  from 1 2 show
    "fst (run (appendRepetitionToConfigMap storingWorld ''x'' (sampleExperiment idleStatus) sampleResult) start) = None"
    "fst (run (appendMeasurementsToConfigMap storingWorld ''x'' (measuredExperiment fone) SubPhasePreChaosMeasurement) start) = None"
    by (simp_all add: append_defs request_def perform_def run_simps start_def resultsText_def existing_storedMap)
qed

section \<open>Properties\<close>

text \<open>
  C24. A repetition is appended, never lost or overwritten: when the results ConfigMap exists and the
  append succeeds, it is updated exactly once, all other keys keep their text, and the new document is
  that of the results read back from the old one followed by the new result. Decoding what was written gives
  exactly these results again, every number to the bit.
\<close>

theorem results_history_kept:
  assumes "run (appendRepetitionToConfigMap k ns e result) s = (None, s')"
    and "fst (eGetConfigMap k ns (resultsName e) (world s)) = Inr cm"
    and "typedRepetition result"
  shows "\<exists>text cm'. newCalls s s' = [(Get (cmKey ns (resultsName e)), True), (Update (OConfigMap cm'), True)] \<and>
    resultsText e (existingResults cm @ [result]) = Inr text \<and>
    CmName cm' = CmName cm \<and> map_of (CmData cm') = (map_of (CmData cm))(''results.json'' \<mapsto> text) \<and>
    existingResults cm' = existingResults cm @ [result]"
proof -
  from assms(1,2) obtain raw where raw: "resultsText e (existingResults cm @ [result]) = Inr raw"
    and "newCalls s s' = [(Get (cmKey ns (resultsName e)), True),
      (Update (OConfigMap (setData ''results.json'' raw cm)), True)]"
    by (auto simp: append_defs newCalls_def elim!: run_elims split: sum.splits)
  moreover have "unmarshal decodePayload [] raw = Some (existingResults cm @ [result])"
    using results_roundtrip [OF _ raw] typed_existing assms(3) by simp
  ultimately show ?thesis
    by (intro exI [of _ raw] exI [of _ "setData ''results.json'' raw cm"]) (simp add: existingResults_def)
qed

theorem results_history_kept_witness:
  "\<exists>cm'. (Update (OConfigMap cm'), True) \<in> set (calls (snd
      (run (appendRepetitionToConfigMap storingWorld ''x'' (sampleExperiment idleStatus) sampleResult) start))) \<and>
    existingResults cm' = [sampleResult, sampleResult]"
proof -
  let ?m = "run (appendRepetitionToConfigMap storingWorld ''x'' (sampleExperiment idleStatus) sampleResult) start"
  have "?m = (None, snd ?m)" using storing_appends(1) by (metis prod.collapse)
  from results_history_kept [OF this, of storedMap] show ?thesis
    by (auto simp: newCalls_def start_def existing_storedMap typed_sampleResult)
qed

lemma map_enumerate: "map (\<lambda>(i, v). f i v) (enumerate 0 vs) = map (\<lambda>i. f i (vs ! i)) [0..<length vs]"
  by (rule nth_equalityI) (simp_all add: nth_enumerate_eq)

lemma lines_of_concat: "concat (map f (concat xss)) = concat (map (\<lambda>xs. concat (map f xs)) xss)"
  by (induction xss) simp_all

text \<open>
  C25. The measurements file is appended to, one JSON document per line: after a successful write to an existing
  ConfigMap the stored text is the old one, then for every objective and every value of its window, by position, the
  document that holds position, phase, repetition, objective and value, and a newline; no document spans two lines,
  and all other keys keep their text.
\<close>

theorem measurement_lines_appended:
  fixes e phase
  defines "line \<equiv> \<lambda>st i. jsonText (JObj [(''index'', JInt (int i)), (''phase'', JStr (subPhaseString phase)),
      (''repetition'', JInt (sint (RepetitionsCompleted (Status e) + 1))), (''slo'', JStr (StName st)), (''value'', JFloat (Values st ! i))])"
  assumes "run (appendMeasurementsToConfigMap k ns e phase) s = (None, s')"
    and "fst (eGetConfigMap k ns (''ecoscape-'' @ ExperimentID (Status e) @ ''-measurements'') (world s)) = Inr cm"
  shows "\<exists>cm'. newCalls s s' = [(Get (cmKey ns (''ecoscape-'' @ ExperimentID (Status e) @ ''-measurements'')), True),
      (Update (OConfigMap cm'), True)] \<and>
    CmName cm' = CmName cm \<and> CmNamespace cm' = CmNamespace cm \<and>
    map_of (CmData cm') = (map_of (CmData cm))(''measurements.jsonl'' \<mapsto>
      (case map_of (CmData cm) ''measurements.jsonl'' of Some old \<Rightarrow> old | None \<Rightarrow> '''') @
      concat (map (\<lambda>st. concat (map (\<lambda>i. line st i @ [CHR 10]) [0..<length (Values st)])) (MeasurementState (Status e)))) \<and>
    (\<forall>st i. CHR 10 \<notin> set (line st i))"
proof -
  let ?docs = "measurementDocs e phase"
  from assms(2,3) obtain raw where w: "writeLines (storedLines cm) ?docs = Inr raw"
    and calls: "newCalls s s' = [(Get (cmKey ns (measurementsName e)), True),
      (Update (OConfigMap (setData ''measurements.jsonl'' raw cm)), True)]"
    by (auto simp: append_defs newCalls_def measurementsName_def elim!: run_elims split: sum.splits)
  have "list_all jsonFinite ?docs"
    using w writeLines_infinite by (metis Inr_not_Inl)
  with w have "raw = storedLines cm @ concat (map (\<lambda>d. jsonText d @ newline) ?docs)"
    by (simp add: writeLines_finite)
  also have "concat (map (\<lambda>d. jsonText d @ newline) ?docs) =
      concat (map (\<lambda>st. concat (map (\<lambda>i. line st i @ [CHR 10]) [0..<length (Values st)])) (MeasurementState (Status e)))"
    unfolding measurementDocs_def lines_of_concat stateDocs_def map_enumerate
    by (simp add: line_def measurementDoc_def newline_def comp_def)
  finally show ?thesis using calls
    by (intro exI [of _ "setData ''measurements.jsonl'' raw cm"])
      (simp add: storedLines_def line_def newline_jsonText measurementsName_def setData_def update_conv')
qed

theorem measurement_lines_appended_witness:
  "\<exists>cm'. (Update (OConfigMap cm'), True) \<in> set (calls (snd (run (appendMeasurementsToConfigMap storingWorld ''x''
      (measuredExperiment fone) SubPhasePreChaosMeasurement) start))) \<and>
    map_of (CmData cm') ''measurements.jsonl'' \<noteq> None"
proof -
  let ?m = "run (appendMeasurementsToConfigMap storingWorld ''x'' (measuredExperiment fone) SubPhasePreChaosMeasurement) start"
  have "?m = (None, snd ?m)" using storing_appends(2) by (metis prod.collapse)
  from measurement_lines_appended [OF this, of storedMap] show ?thesis
    by (auto simp: newCalls_def start_def)
qed

text \<open>
  C26. One value that is not a finite number blocks the whole window: Prometheus may answer NaN, JSON
  cannot hold it, and \<open>appendMeasurementsToConfigMap\<close> then returns an error and writes nothing.
\<close>

theorem nonfinite_measurement_blocks_write:
  assumes "st \<in> set (MeasurementState (Status e))" "v \<in> set (Values st)" "\<not> isFinite v"
    and "run (appendMeasurementsToConfigMap k ns e phase) s = (r, s')"
  shows "r \<noteq> None \<and> map fst (newCalls s s') = [Get (cmKey ns (measurementsName e))]"
proof -
  have "\<not> list_all jsonFinite (measurementDocs e phase)"
    using assms(1-3) unfolding finite_measurementDocs by (auto simp: list_all_iff)
  then obtain err where "\<And>sb. writeLines sb (measurementDocs e phase) = Inl (err sb)"
    using writeLines_infinite by metis
  then have "does (appendMeasurementsToConfigMap k ns e phase)
      (\<lambda>cs r. r \<noteq> None \<and> map fst cs = [Get (cmKey ns (measurementsName e))])"
    unfolding append_defs by (auto split: sum.split intro!: does_rules)
  with assms(4) show ?thesis by (auto dest: doesD)
qed

theorem nonfinite_measurement_blocks_write_witness:
  "fst (run (appendMeasurementsToConfigMap storingWorld ''x'' (measuredExperiment FNaN) SubPhasePreChaosMeasurement) start) \<noteq> None"
  using nonfinite_measurement_blocks_write [OF _ _ _ prod.collapse [symmetric], of "measuredState FNaN"
      "measuredExperiment FNaN" FNaN storingWorld "''x''" SubPhasePreChaosMeasurement start]
  by (simp add: measuredState_def)

end
