(* ===== verification/Prometheus_Client.thy ===== *)
theory Prometheus_Client
  imports Kube_Client Go_Json_Decode
begin

text \<open>
  The Prometheus HTTP client of \<open>internal/controller/experiment_controller.go\<close>
  (\<open>newPrometheusClient\<close>, \<open>query\<close>). Sending the request and reading the body are parameters, and so is the
  wording of a decoding error; decoding itself is not.
\<close>

record prometheusClient =
  serverURL :: string
  timeoutSeconds :: int32

definition newPrometheusClient :: "string \<Rightarrow> int32 \<Rightarrow> prometheusClient" where
  "newPrometheusClient url timeout = \<lparr>serverURL = trimRight url (CHR ''/''), timeoutSeconds = timeout\<rparr>"

section \<open>The answer\<close>

text \<open>
  The anonymous struct the answer is decoded into: \<open>Status\<close>, and of \<open>Data.Result\<close> each element's slice
  \<open>Value\<close>.
\<close>

record PrometheusResponse =
  PromStatus :: string
  PromResult :: "json list list"

definition emptyResponse :: PrometheusResponse where
  "emptyResponse = \<lparr>PromStatus = '''', PromResult = []\<rparr>"

definition decodeSample :: "json list decoder" where
  "decodeSample = decodeStruct [(''value'', decodeSlice JNull decodeAny)]"

definition decodeData :: "PrometheusResponse decoder" where
  "decodeData = decodeStruct
     [(''result'', onField PromResult (\<lambda>v. PromResult_update (\<lambda>_. v)) (decodeSlice [] decodeSample))]"

definition decodeResponse :: "PrometheusResponse decoder" where
  "decodeResponse = decodeStruct
     [(''status'', onField PromStatus (\<lambda>v. PromStatus_update (\<lambda>_. v)) decodeString), (''data'', decodeData)]"

text \<open>A \<open>(float64, bool, error)\<close>.\<close>

type_synonym answer = "float64 \<times> bool \<times> goerr option"

definition fminusone :: float64 where
  "fminusone = FFin True 1"

definition readAnswer :: "'w env \<Rightarrow> string \<Rightarrow> answer" where
  "readAnswer k body =
     (case unmarshal decodeResponse emptyResponse body of
        None \<Rightarrow> (fzero, False, Some (wrapf ''parse prometheus response'' (eJsonError k body)))
      | Some prometheusResponse \<Rightarrow>
          if PromStatus prometheusResponse \<noteq> ''success''
          then (fzero, False, Some (errorf (''prometheus query failed: '' @ body)))
          else case PromResult prometheusResponse of
            [] \<Rightarrow> (fminusone, False, None)
          | value # _ \<Rightarrow>
              if length value < 2 then (fzero, False, Some (errorf ''unexpected prometheus result format''))
              else case value ! 1 of
                JStr valueString \<Rightarrow>
                  (case parseFloat valueString of
                     Inl e \<Rightarrow> (fzero, False, Some (wrapf (''parse prometheus value '' @ quote valueString) e))
                   | Inr v \<Rightarrow> (v, True, None))
              | _ \<Rightarrow> (fzero, False, Some (errorf ''prometheus value is not a string'')))"

definition query :: "'w env \<Rightarrow> prometheusClient \<Rightarrow> string \<Rightarrow> ('w kst, answer) state" where
  "query k prometheus queryExpression = do {
     response \<leftarrow> httpGet k (serverURL prometheus @ ''/api/v1/query'') queryExpression (timeoutSeconds prometheus);
     ret (case response of
            Inl e \<Rightarrow> (fzero, False, Some e)
          | Inr body \<Rightarrow> readAnswer k body)
   }"

section \<open>Properties\<close>

text \<open>The value in an answer that has one: the second element of the first result, a decimal string.\<close>

definition answerValue :: "PrometheusResponse \<Rightarrow> float64 option" where
  "answerValue resp =
     (if PromStatus resp \<noteq> ''success'' then None
      else case PromResult resp of
        (_ # JStr v # _) # _ \<Rightarrow> (case parseFloat v of Inr f \<Rightarrow> Some f | Inl _ \<Rightarrow> None)
      | _ \<Rightarrow> None)"

lemma readAnswer_found:
  "readAnswer k body = (v, True, err) \<longleftrightarrow>
   err = None \<and> (\<exists>resp. unmarshal decodeResponse emptyResponse body = Some resp \<and> answerValue resp = Some v)"
proof (cases "unmarshal decodeResponse emptyResponse body")
  case (Some resp)
  consider "PromResult resp = []" | rest where "PromResult resp = [] # rest"
    | x rest where "PromResult resp = [x] # rest" | x y zs rest where "PromResult resp = (x # y # zs) # rest"
    by (metis list.exhaust)
  then show ?thesis
  proof cases
    case (4 x y zs rest)
    with Some show ?thesis
      by (cases y) (auto simp: readAnswer_def answerValue_def split: sum.splits)
  qed (auto simp: readAnswer_def answerValue_def Some)
qed (simp add: readAnswer_def)

lemma trimRight_replicate [simp]: "trimRight (url @ replicate n c) c = trimRight url c"
proof -
  have "dropWhile (\<lambda>x. x = c) (replicate n c @ xs) = dropWhile (\<lambda>x. x = c) xs" for xs
    by (induction n) simp_all
  then show ?thesis by (simp add: trimRight_def)
qed

definition queryURL :: "string \<Rightarrow> string" where
  "queryURL url = trimRight url (CHR ''/'') @ ''/api/v1/query''"

text \<open>
  One query is one HTTP request, and a value is reported as found exactly if the request succeeded, the
  answer decodes, its status is \<open>success\<close> and the second element of its first result is a string that
  parses as a number; the value is then that number and there is no error. Slashes at the end of the
  configured URL do not matter.
\<close>

theorem query_found_iff:
  "(fst (run (query k (newPrometheusClient (url @ replicate n (CHR ''/'')) t) expr) s) = (v, True, err) \<longleftrightarrow>
     err = None \<and> (\<exists>body resp. fst (eHttp k (queryURL url) expr t (world s)) = Inr body \<and>
       unmarshal decodeResponse emptyResponse body = Some resp \<and> answerValue resp = Some v)) \<and>
   issued (snd (run (query k (newPrometheusClient (url @ replicate n (CHR ''/'')) t) expr) s)) =
     issued s @ [HttpGet (queryURL url) expr t]"
  by (cases "eHttp k (queryURL url) expr t (world s)")
    (auto simp: query_def newPrometheusClient_def httpGet_def request_def run_simps issued_def
      queryURL_def readAnswer_found split: sum.split)

text \<open>Every answer is a binary64 value.\<close>

lemma readAnswer_typed: "readAnswer k body = (v, found, err) \<Longrightarrow> isFloat64 v"
  by (auto simp: readAnswer_def fminusone_def mkFloat_sign [of True] intro: float_types
    split: option.splits if_splits list.splits json.splits sum.splits)

text \<open>
  The answer to an instant query as Prometheus documents it: a vector of samples, each with its labels, its
  time and its value as a string.
\<close>

type_synonym vector_sample = "(string \<times> string) list \<times> float64 \<times> string"

definition sampleJson :: "vector_sample \<Rightarrow> json" where
  "sampleJson = (\<lambda>(labels, time, value). JObj
     [(''metric'', JObj (map (\<lambda>(k, v). (k, JStr v)) labels)), (''value'', JArr [JFloat time, JStr value])])"

definition vectorAnswer :: "vector_sample list \<Rightarrow> json" where
  "vectorAnswer samples = JObj
     [(''status'', JStr ''success''),
      (''data'', JObj [(''resultType'', JStr ''vector''), (''result'', JArr (map sampleJson samples))])]"

definition timedSamples :: "vector_sample list \<Rightarrow> bool" where
  "timedSamples = list_all (\<lambda>(labels, time, value). isFloat64 time \<and> isFinite time)"

lemma exact_vectorAnswer: "timedSamples samples \<Longrightarrow> jsonExact (vectorAnswer samples)"
  by (auto simp: vectorAnswer_def sampleJson_def timedSamples_def list_all_iff)

lemma decodeSample_back:
  assumes "isFloat64 time" "isFinite time"
  shows "decodeSample (token (sampleJson (labels, time, value))) [] = Some [JFloat time, JStr value]"
  using assms by (simp add: decodeSample_def sampleJson_def fieldFor_def decodeAny_def parse_jsonFloat lowerChar_def)

lemma decodeSamples_back:
  assumes "timedSamples samples"
  shows "decodeElems [] decodeSample (map (\<lambda>x. token (sampleJson x)) samples) [] =
    Some (map (\<lambda>(labels, time, value). [JFloat time, JStr value]) samples)"
  using assms
proof (induction samples)
  case (Cons x samples)
  obtain labels time v where x: "x = (labels, time, v)" by (metis prod_cases3)
  with Cons show ?case by (simp add: decodeSample_back timedSamples_def)
qed simp

text \<open>
  C27. A documented answer is understood: of the text of a successful vector answer the client takes the
  value of the first sample, whatever the labels, the times and the other samples; a value that is no number is
  an error, and an empty vector is \<open>-1\<close>, not found, without an error.
\<close>

theorem vector_answer_read:
  assumes "timedSamples samples"
  shows "readAnswer k (jsonText (vectorAnswer samples)) =
    (case samples of
       [] \<Rightarrow> (fminusone, False, None)
     | (labels, time, value) # _ \<Rightarrow>
         (case parseFloat value of
            Inl e \<Rightarrow> (fzero, False, Some (wrapf (''parse prometheus value '' @ quote value) e))
          | Inr v \<Rightarrow> (v, True, None)))"
proof -
  let ?pairs = "map (\<lambda>(labels, time, value). [JFloat time, JStr value]) samples"
  have "unmarshal decodeResponse emptyResponse (jsonText (vectorAnswer samples)) =
      Some \<lparr>PromStatus = ''success'', PromResult = ?pairs\<rparr>"
    using decodeSamples_back [OF assms] readJson_jsonText [OF exact_vectorAnswer [OF assms]]
    by (simp add: unmarshal_def vectorAnswer_def decodeResponse_def decodeData_def emptyResponse_def fieldFor_def
      onField_def lowerChar_def comp_def)
  then show ?thesis by (cases samples) (auto simp: readAnswer_def split: sum.split)
qed

theorem vector_answer_read_witness:
  "readAnswer (emptyWorld (\<lambda>x. Inl (errorf ''no manifest'')) 0) (jsonText (vectorAnswer [([(''job'', ''a'')], fone, ''NaN'')])) = (FNaN, True, None)"
proof -
  have "parseFloat ''NaN'' = Inr FNaN" by code_simp
  then show ?thesis
    using vector_answer_read [of "[([(''job'', ''a'')], fone, ''NaN'')]"]
    by (simp add: timedSamples_def float_types fone_def)
qed

end
