(* ===== verification/Naming.thy ===== *)
theory Naming
  imports Kube_Client
begin

text \<open>
  The names the controllers give to what they create, and the references by which they find it
  again: zone namespaces, link objects, the \<open><namespace>/<name>\<close> references of
  \<open>topology_controller.go\<close> and the \<open><group>/<kind>/<namespace>/<name>\<close> references of
  \<open>chaosphase.go\<close>.
\<close>

section \<open>Definitions\<close>

definition zoneName :: "string \<Rightarrow> string \<Rightarrow> string" where
  "zoneName topologyName zone = topologyName @ ''-'' @ zone"

definition linkBaseName :: "string \<Rightarrow> string \<Rightarrow> string \<Rightarrow> string" where
  "linkBaseName topologyName zoneA zoneB = ''top-'' @ topologyName @ ''-'' @ zoneA @ ''-'' @ zoneB"

text \<open>\<open>sorted := []string{a, b}; sort.Strings(sorted)\<close>, bytewise.\<close>

definition sortedPair :: "string \<Rightarrow> string \<Rightarrow> string \<times> string" where
  "sortedPair a b = (if a \<le> b then (a, b) else (b, a))"

definition topologyRef :: "string \<times> string \<Rightarrow> string" where
  "topologyRef r = (case r of (ns, name) \<Rightarrow> ns @ ''/'' @ name)"

definition splitTopologyRef :: "string \<Rightarrow> (string \<times> string) option" where
  "splitTopologyRef ref =
     (case splitN (CHR ''/'') 2 ref of [ns, name] \<Rightarrow> Some (ns, name) | _ \<Rightarrow> None)"

definition chaosRef :: "string \<times> string \<times> string \<times> string \<Rightarrow> string" where
  "chaosRef r = (case r of (grp, kind, ns, name) \<Rightarrow> grp @ ''/'' @ kind @ ''/'' @ ns @ ''/'' @ name)"

definition splitChaosRef :: "string \<Rightarrow> (string \<times> string \<times> string \<times> string) option" where
  "splitChaosRef ref =
     (case splitN (CHR ''/'') 4 ref of [grp, kind, ns, name] \<Rightarrow> Some (grp, kind, ns, name) | _ \<Rightarrow> None)"

definition chaosMeshGroup :: string where
  "chaosMeshGroup = ''chaos-mesh.org''"

lemmas naming_defs [name_simps] = zoneName_def linkBaseName_def topologyRef_def chaosRef_def

section \<open>References as an interface\<close>

text \<open>
  A client of references relies on two things: what was made of valid parts is taken apart into
  those parts, and what was taken apart was made of the result.
\<close>

locale reference =
  fixes make :: "'a \<Rightarrow> string" and take_apart :: "string \<Rightarrow> 'a option" and valid :: "'a \<Rightarrow> bool"
  assumes apart_make: "valid x \<Longrightarrow> take_apart (make x) = Some x"
    and make_apart: "take_apart r = Some x \<Longrightarrow> make x = r"
begin

lemma make_inject: "valid x \<Longrightarrow> valid y \<Longrightarrow> make x = make y \<longleftrightarrow> x = y"
  by (metis apart_make option.inject)

lemma apart_inject: "take_apart r = Some x \<Longrightarrow> take_apart r' = Some x \<Longrightarrow> r = r'"
  using make_apart by metis

lemma apart_map: "list_all valid xs \<Longrightarrow> map take_apart (map make xs) = map Some xs"
  by (induction xs) (auto simp: apart_make)

end

definition slashFree :: "string \<Rightarrow> bool" where
  "slashFree s \<longleftrightarrow> CHR ''/'' \<notin> set s"

definition validTopologyRef :: "string \<times> string \<Rightarrow> bool" where
  "validTopologyRef r \<longleftrightarrow> slashFree (fst r)"

definition validChaosRef :: "string \<times> string \<times> string \<times> string \<Rightarrow> bool" where
  "validChaosRef r = (case r of (grp, kind, ns, name) \<Rightarrow> slashFree grp \<and> slashFree kind \<and> slashFree ns)"

lemma splitTopologyRef_Some: "splitTopologyRef r = Some x \<Longrightarrow> topologyRef x = r"
  using splitN_join [of "CHR ''/''" 1 r]
  by (auto simp: splitTopologyRef_def topologyRef_def numeral_2_eq_2 simp del: splitN.simps split: list.splits)

lemma splitChaosRef_Some: "splitChaosRef r = Some x \<Longrightarrow> chaosRef x = r"
  using splitN_join [of "CHR ''/''" 3 r]
  by (auto simp: splitChaosRef_def chaosRef_def numeral_eq_Suc simp del: splitN.simps split: list.splits)

lemma splitTopologyRef_make: "validTopologyRef x \<Longrightarrow> splitTopologyRef (topologyRef x) = Some x"
proof (cases x)
  case (Pair ns name)
  assume "validTopologyRef x"
  then have "CHR ''/'' \<notin> set ns" by (simp add: Pair validTopologyRef_def slashFree_def)
  from splitN_cons [OF this, of 0 name] show ?thesis
    by (simp add: Pair splitTopologyRef_def topologyRef_def numeral_2_eq_2 del: splitN.simps(3))
qed

lemma splitChaosRef_make: "validChaosRef x \<Longrightarrow> splitChaosRef (chaosRef x) = Some x"
proof (cases x)
  case (fields grp kind ns name)
  assume "validChaosRef x"
  then have free: "CHR ''/'' \<notin> set grp" "CHR ''/'' \<notin> set kind" "CHR ''/'' \<notin> set ns"
    by (simp_all add: fields validChaosRef_def slashFree_def)
  have "splitN (CHR ''/'') 4 (grp @ CHR ''/'' # kind @ CHR ''/'' # ns @ CHR ''/'' # name) = [grp, kind, ns, name]"
    using splitN_cons [OF free(1), of 2] splitN_cons [OF free(2), of 1] splitN_cons [OF free(3), of 0]
    by (simp add: numeral_eq_Suc del: splitN.simps(3))
  then show ?thesis by (simp add: fields splitChaosRef_def chaosRef_def)
qed

interpretation topRef: reference topologyRef splitTopologyRef validTopologyRef
  by unfold_locales (simp_all add: splitTopologyRef_make splitTopologyRef_Some)

interpretation cpRef: reference chaosRef splitChaosRef validChaosRef
  by unfold_locales (simp_all add: splitChaosRef_make splitChaosRef_Some)

text \<open>A name without a slash is no chaos reference.\<close>

lemma splitChaosRef_plain: "slashFree r \<Longrightarrow> splitChaosRef r = None"
  using splitN_none [of "CHR ''/''" r 3]
  by (simp add: splitChaosRef_def slashFree_def numeral_eq_Suc del: splitN.simps)

lemma slashFree_simps [simp]:
  "slashFree []" "slashFree (c # s) \<longleftrightarrow> c \<noteq> CHR ''/'' \<and> slashFree s"
  "slashFree (a @ b) \<longleftrightarrow> slashFree a \<and> slashFree b"
  by (auto simp: slashFree_def)

section \<open>Properties of the names\<close>

text \<open>
  The order in which a link or a fault names its two zones does not matter.
\<close>

theorem zone_pair_order_irrelevant: "sortedPair a b = sortedPair b a \<and> set [fst (sortedPair a b), snd (sortedPair a b)] = {a, b}"
  by (auto simp: sortedPair_def)

text \<open>
  Zone namespaces: within one topology different zones have different namespaces. Across
  topologies they are told apart only as long as no topology name contains a dash: topology
  \<open>edge\<close> with zone \<open>eu-berlin\<close> and topology \<open>edge-eu\<close> with zone \<open>berlin\<close> share a
  namespace.
\<close>

theorem zone_namespaces:
  "(zoneName t a = zoneName t b \<longleftrightarrow> a = b) \<and>
   (CHR ''-'' \<notin> set t \<and> CHR ''-'' \<notin> set t' \<longrightarrow> (zoneName t a = zoneName t' b \<longleftrightarrow> t = t' \<and> a = b)) \<and>
   zoneName ''edge'' ''eu-berlin'' = zoneName ''edge-eu'' ''berlin''"
  using append_sep_inject [of "CHR ''-''" t t' a b] by (auto simp: zoneName_def)

theorem zone_namespaces_witness: "zoneName ''a'' ''x'' \<noteq> zoneName ''b'' ''x''"
  using zone_namespaces [of "''a''" "''x''" "''x''" "''b''"] by simp

text \<open>
  A reference to a topology's network object, made from a namespace without a slash, is taken
  apart into the namespace and the name it was made of, and no two objects share a reference.
\<close>

theorem topology_ref_roundtrip:
  assumes "slashFree ns"
  shows "splitTopologyRef (topologyRef (ns, name)) = Some (ns, name) \<and>
    (slashFree ns' \<longrightarrow> (topologyRef (ns, name) = topologyRef (ns', name') \<longleftrightarrow> ns = ns' \<and> name = name'))"
  using topRef.apart_make [of "(ns, name)"] topRef.make_inject [of "(ns, name)" "(ns', name')"] assms
  by (simp add: validTopologyRef_def)

theorem topology_ref_roundtrip_witness:
  "splitTopologyRef (topologyRef (''edge-cloud'', ''top-a/b'')) = Some (''edge-cloud'', ''top-a/b'')"
  using topology_ref_roundtrip [of "''edge-cloud''" "''top-a/b''"] by simp

end
