(* ===== verification/Chaos.thy ===== *)
theory Chaos
  imports Naming Manifests
begin

text \<open>
  \<open>internal/controller/chaosphase.go\<close>: turning the faults of a \<open>ChaosPhase\<close> into Chaos Mesh
  objects, the references to them, and their removal.
\<close>

section \<open>Specifications of the objects\<close>

definition selectorFor :: "string \<Rightarrow> json" where
  "selectorFor ns = JObj [(''namespaces'', JArr [JStr ns]),
     (''labelSelectors'', JObj [(''ecoscape'', JStr ''true'')])]"

definition buildNetworkChaos :: "string \<Rightarrow> string \<Rightarrow> json \<Rightarrow> Unstructured" where
  "buildNetworkChaos ns name spec =
     \<lparr>UsAPIVersion = chaosMeshGroup @ ''/v1alpha1'', UsKind = ''NetworkChaos'', UsNamespace = ns, UsName = name,
      UsLabels = [], UsResourceVersion = '''', UsSpec = spec\<rparr>"

definition buildStressChaos :: "string \<Rightarrow> string \<Rightarrow> json \<Rightarrow> Unstructured" where
  "buildStressChaos ns name spec =
     \<lparr>UsAPIVersion = chaosMeshGroup @ ''/v1alpha1'', UsKind = ''StressChaos'', UsNamespace = ns, UsName = name,
      UsLabels = [], UsResourceVersion = '''', UsSpec = spec\<rparr>"

definition buildChaosPhasDelay :: "FaultSpec \<Rightarrow> json" where
  "buildChaosPhasDelay fault =
     JObj ([(''latency'', JStr (FaultLatency fault)), (''correlation'', JStr ''50'')] @
       (if FaultJitter fault \<noteq> '''' then [(''jitter'', JStr (FaultJitter fault))] else []))"

definition buildChaosPhasesBandwidth :: "FaultSpec \<Rightarrow> json" where
  "buildChaosPhasesBandwidth fault =
     JObj [(''rate'', JStr (toLower (FaultBandwidth fault))), (''limit'', JInt 100000), (''buffer'', JInt 10000)]"

definition buildChaosPhaseLoss :: "FaultSpec \<Rightarrow> json" where
  "buildChaosPhaseLoss fault = JObj [(''loss'', JStr (FaultPacketLoss fault)), (''correlation'', JStr ''50'')]"

definition buildChaosPhaseStressCPU :: "FaultSpec \<Rightarrow> json" where
  "buildChaosPhaseStressCPU fault =
     JObj [(''cpu'', JObj [(''workers'', JInt (sint (Workers fault))), (''load'', JInt (sint (CpuLoad fault)))])]"

definition buildChaosPhaseStressMemory :: "FaultSpec \<Rightarrow> json" where
  "buildChaosPhaseStressMemory fault =
     JObj [(''memory'', JObj [(''workers'', JInt (sint (Workers fault))), (''size'', JStr (Size fault))])]"

definition networkFaultSpec :: "string \<Rightarrow> string \<Rightarrow> string \<Rightarrow> json option \<Rightarrow> json" where
  "networkFaultSpec nsA nsB action actionSpec =
     JObj ([(''action'', JStr action), (''mode'', JStr ''all''), (''direction'', JStr ''both''),
       (''selector'', selectorFor nsA),
       (''target'', JObj [(''mode'', JStr ''all''), (''selector'', selectorFor nsB)])] @
       (case actionSpec of Some spec \<Rightarrow> [(action, spec)] | None \<Rightarrow> []))"

definition stressFaultSpec :: "string \<Rightarrow> json \<Rightarrow> json" where
  "stressFaultSpec ns stressors =
     JObj [(''mode'', JStr ''all''), (''selector'', selectorFor ns), (''stressors'', stressors)]"

section \<open>Applying faults\<close>

text \<open>A \<open>([]string, error)\<close>: Go returns both, and both are used.\<close>

type_synonym applied = "string list \<times> goerr option"

definition networkFaultName :: "string \<Rightarrow> string \<Rightarrow> string \<Rightarrow> string \<Rightarrow> string" where
  "networkFaultName experimentID zoneA zoneB action =
     ''cp-'' @ experimentID @ ''-'' @ zoneA @ ''-'' @ zoneB @ ''-'' @ action"

definition stressFaultName :: "string \<Rightarrow> string \<Rightarrow> string \<Rightarrow> string" where
  "stressFaultName experimentID zone variant = ''cp-'' @ experimentID @ ''-'' @ zone @ ''-'' @ variant"

definition applyNetworkFault ::
  "'w env \<Rightarrow> string \<Rightarrow> string \<Rightarrow> FaultSpec \<Rightarrow> string \<Rightarrow> json option \<Rightarrow> ('w kst, applied) state" where
  "applyNetworkFault k topologyName experimentID fault action actionSpec =
     (case FaultZones fault of
        [a, b] \<Rightarrow>
          (let (zoneA, zoneB) = sortedPair a b;
               nsA = zoneName topologyName zoneA;
               nsB = zoneName topologyName zoneB;
               name = networkFaultName experimentID zoneA zoneB action;
               obj = buildNetworkChaos nsA name (networkFaultSpec nsA nsB action actionSpec)
           in do {
             err \<leftarrow> perform k (Create (OUnstructured obj));
             ret (case err of
                    Some e \<Rightarrow> ([], Some (wrapf (''create NetworkChaos '' @ nsSlashName nsA name) e))
                  | None \<Rightarrow> ([chaosRef (chaosMeshGroup, ''NetworkChaos'', nsA, name)], None))
           })
      | zones \<Rightarrow> ret ([], Some (errorf (''network fault requires exactly 2 zones, got '' @ showInt (int (length zones))))))"

fun stressZones ::
  "'w env \<Rightarrow> string \<Rightarrow> string \<Rightarrow> string \<Rightarrow> json \<Rightarrow> string list \<Rightarrow> string list \<Rightarrow> ('w kst, applied) state" where
  "stressZones k topologyName experimentID variant stressors refs [] = ret (refs, None)"
| "stressZones k topologyName experimentID variant stressors refs (zone # zones) =
     (let ns = zoneName topologyName zone;
          name = stressFaultName experimentID zone variant;
          obj = buildStressChaos ns name (stressFaultSpec ns stressors)
      in do {
        err \<leftarrow> perform k (Create (OUnstructured obj));
        case err of
          Some e \<Rightarrow> ret (refs, Some (wrapf (''create StressChaos '' @ nsSlashName ns name) e))
        | None \<Rightarrow> stressZones k topologyName experimentID variant stressors
            (refs @ [chaosRef (chaosMeshGroup, ''StressChaos'', ns, name)]) zones
      })"

definition applyStressFault ::
  "'w env \<Rightarrow> string \<Rightarrow> string \<Rightarrow> FaultSpec \<Rightarrow> string \<Rightarrow> json \<Rightarrow> ('w kst, applied) state" where
  "applyStressFault k topologyName experimentID fault variant stressors =
     (if FaultZones fault = [] then ret ([], Some (errorf ''stress fault requires at least one zone''))
      else stressZones k topologyName experimentID variant stressors [] (FaultZones fault))"

definition applyCustomFault :: "'w env \<Rightarrow> FaultSpec \<Rightarrow> ('w kst, applied) state" where
  "applyCustomFault k fault =
     (if Manifest fault = '''' then ret ([], Some (errorf ''custom fault has empty manifest''))
      else case parseManifest k (Manifest fault) of
        Inl e \<Rightarrow> ret ([], Some (wrapf ''parse custom manifest'' e))
      | Inr obj \<Rightarrow>
          if UsNamespace obj = ''''
          then ret ([], Some (errorf ''custom fault manifest must set metadata.namespace explicitly''))
          else do {
            err \<leftarrow> perform k (Create (OUnstructured obj));
            ret (case err of
                   Some e \<Rightarrow> ([], Some (wrapf (''create custom chaos object '' @ nsSlashName (UsNamespace obj) (UsName obj)) e))
                 | None \<Rightarrow> ([chaosRef (eGroupOf k (UsAPIVersion obj), UsKind obj, UsNamespace obj, UsName obj)], None))
          })"

text \<open>One turn of the loop in \<open>applyChaosPhase\<close>; an unknown fault type is skipped.\<close>

definition applyFault :: "'w env \<Rightarrow> string \<Rightarrow> string \<Rightarrow> FaultSpec \<Rightarrow> ('w kst, applied) state" where
  "applyFault k topologyName experimentID fault =
     (case Type fault of
        FaultNetworkDelay \<Rightarrow> applyNetworkFault k topologyName experimentID fault ''delay'' (Some (buildChaosPhasDelay fault))
      | FaultNetworkBandwidth \<Rightarrow> applyNetworkFault k topologyName experimentID fault ''bandwidth'' (Some (buildChaosPhasesBandwidth fault))
      | FaultNetworkLoss \<Rightarrow> applyNetworkFault k topologyName experimentID fault ''loss'' (Some (buildChaosPhaseLoss fault))
      | FaultNetworkPartition \<Rightarrow> applyNetworkFault k topologyName experimentID fault ''partition'' None
      | FaultCPUStress \<Rightarrow> applyStressFault k topologyName experimentID fault ''cpu'' (buildChaosPhaseStressCPU fault)
      | FaultMemoryStress \<Rightarrow> applyStressFault k topologyName experimentID fault ''memory'' (buildChaosPhaseStressMemory fault)
      | FaultCustom \<Rightarrow> applyCustomFault k fault
      | FaultOther t \<Rightarrow> ret ([], None))"

fun applyFaults ::
  "'w env \<Rightarrow> string \<Rightarrow> string \<Rightarrow> nat \<Rightarrow> string list \<Rightarrow> FaultSpec list \<Rightarrow> ('w kst, applied) state" where
  "applyFaults k topologyName experimentID i refs [] = ret (refs, None)"
| "applyFaults k topologyName experimentID i refs (fault # faults) = do {
     (created, err) \<leftarrow> applyFault k topologyName experimentID fault;
     case err of
       Some e \<Rightarrow> ret (refs, Some (wrapf (''fault['' @ showInt (int i) @ ''] ('' @ faultTypeString (Type fault) @ '')'') e))
     | None \<Rightarrow> applyFaults k topologyName experimentID (Suc i) (refs @ created) faults
   }"

definition applyChaosPhase :: "'w env \<Rightarrow> ChaosPhase \<Rightarrow> string \<Rightarrow> ('w kst, applied) state" where
  "applyChaosPhase k cp experimentID =
     applyFaults k (CpTopologyRef (CpSpec cp)) experimentID 0 [] (Faults (CpSpec cp))"

section \<open>Removing them\<close>

definition cleanupRef :: "'w env \<Rightarrow> string \<Rightarrow> ('w kst, unit) state" where
  "cleanupRef k ref =
     (case splitChaosRef ref of
        None \<Rightarrow> ret ()
      | Some (grp, kind, ns, name) \<Rightarrow> do {
          _ \<leftarrow> perform k (Delete (ObjKey (eGvString k grp ''v1alpha1'') kind ns name));
          ret ()
        })"

definition cleanupChaosPhase :: "'w env \<Rightarrow> string list \<Rightarrow> ('w kst, unit) state" where
  "cleanupChaosPhase k refs = forEach (cleanupRef k) refs"

definition refDeletion :: "'w env \<Rightarrow> string \<Rightarrow> call list" where
  "refDeletion k ref =
     (case splitChaosRef ref of
        None \<Rightarrow> []
      | Some (grp, kind, ns, name) \<Rightarrow> [Delete (ObjKey (eGvString k grp ''v1alpha1'') kind ns name)])"

interpretation chaosCleanup: fixed_calls "cleanupRef k" "refDeletion k" for k :: "'w env"
  by unfold_locales (auto simp: cleanupRef_def refDeletion_def split: option.split)

section \<open>What applying creates\<close>

text \<open>The objects that were created successfully, in order.\<close>

fun createdObject :: "call \<times> bool \<Rightarrow> Unstructured list" where
  "createdObject (Create (OUnstructured u), True) = [u]"
| "createdObject _ = []"

definition createdObjects :: "(call \<times> bool) list \<Rightarrow> Unstructured list" where
  "createdObjects cs = concat (map createdObject cs)"

lemma createdObjects_simps [simp]:
  "createdObjects [] = []" "createdObjects (c # cs) = createdObject c @ createdObjects cs"
  "createdObjects (cs @ ds) = createdObjects cs @ createdObjects ds"
  by (simp_all add: createdObjects_def)

text \<open>The reference to an object, as it should be for the removal to find it.\<close>

definition objectRef :: "'w env \<Rightarrow> Unstructured \<Rightarrow> string" where
  "objectRef k u = chaosRef (eGroupOf k (UsAPIVersion u), UsKind u, UsNamespace u, UsName u)"

fun createsOnly :: "call \<times> bool \<Rightarrow> bool" where
  "createsOnly (Create (OUnstructured u), b) = True"
| "createsOnly _ = False"

lemma stressZones_emits [trace_intro]:
  "emits createsOnly (stressZones k t i v st refs zones)"
  by (induction zones arbitrary: refs)
    (auto simp: Let_def intro!: trace_intro emits_perform)

lemma applyFault_emits [trace_intro]: "emits createsOnly (applyFault k t i fault)"
  unfolding applyFault_def applyNetworkFault_def applyStressFault_def applyCustomFault_def
  by (auto split: FaultType.split list.split sum.split prod.split simp: Let_def
      intro!: trace_intro emits_perform)

lemma applyFaults_emits [trace_intro]: "emits createsOnly (applyFaults k t i n refs faults)"
  by (induction faults arbitrary: n refs) (auto intro!: trace_intro)

text \<open>\<open>schema.ParseGroupVersion\<close> on the one apiVersion the code writes itself.\<close>

definition groupLaw :: "'w env \<Rightarrow> bool" where
  "groupLaw k \<longleftrightarrow> eGroupOf k (chaosMeshGroup @ ''/v1alpha1'') = chaosMeshGroup"

lemma objectRef_builders [simp]:
  "groupLaw k \<Longrightarrow> objectRef k (buildNetworkChaos ns n spec) = chaosRef (chaosMeshGroup, ''NetworkChaos'', ns, n)"
  "groupLaw k \<Longrightarrow> objectRef k (buildStressChaos ns n spec) = chaosRef (chaosMeshGroup, ''StressChaos'', ns, n)"
  by (simp_all add: objectRef_def groupLaw_def buildNetworkChaos_def buildStressChaos_def)

lemma stressZones_refs:
  assumes "groupLaw k"
  shows "does (stressZones k t i v st refs zones)
    (\<lambda>cs (refs', err). refs' = refs @ map (objectRef k) (createdObjects cs) \<and> (err = None \<longrightarrow> list_all snd cs))"
proof (induction zones arbitrary: refs)
  case Nil
  show ?case by (simp add: does_ret)
next
  case (Cons z zs)
  show ?case
    unfolding stressZones.simps Let_def
    by (intro does_bind does_perform does_option does_ret does_mono [OF Cons.IH]) (auto simp: assms)
qed

lemma applyNetworkFault_refs:
  assumes "groupLaw k"
  shows "does (applyNetworkFault k t i fault action spec)
    (\<lambda>cs (refs, err). refs = map (objectRef k) (createdObjects cs) \<and> (err = None \<longrightarrow> list_all snd cs))"
  unfolding applyNetworkFault_def Let_def
  by (auto split: list.split prod.split option.splits simp: assms intro!: does_rules)

lemma applyCustomFault_refs:
  "does (applyCustomFault k fault)
    (\<lambda>cs (refs, err). refs = map (objectRef k) (createdObjects cs) \<and> (err = None \<longrightarrow> list_all snd cs))"
  unfolding applyCustomFault_def
  by (auto split: sum.split option.splits simp: objectRef_def intro!: does_rules)

lemma applyFault_refs:
  assumes "groupLaw k"
  shows "does (applyFault k t i fault)
    (\<lambda>cs (refs, err). refs = map (objectRef k) (createdObjects cs) \<and> (err = None \<longrightarrow> list_all snd cs))"
  using applyNetworkFault_refs [OF assms] stressZones_refs [OF assms, where refs = "[]"] applyCustomFault_refs
  by (auto simp: applyFault_def applyStressFault_def split: FaultType.split intro!: does_rules)

lemma applyFaults_refs:
  assumes "groupLaw k"
  shows "does (applyFaults k t i n refs faults)
    (\<lambda>cs (refs', err). err = None \<longrightarrow> refs' = refs @ map (objectRef k) (createdObjects cs) \<and> list_all snd cs)"
proof (induction faults arbitrary: n refs)
  case (Cons fault faults)
  show ?case
    unfolding applyFaults.simps
    by (intro does_bind does_mono [OF applyFault_refs [OF assms]] does_prod does_option does_ret does_mono [OF Cons.IH])
      auto
qed (simp add: does_ret)

lemma cleanupChaosPhase_issues:
  "issued (snd (run (cleanupChaosPhase k refs) s)) = issued s @ concat (map (refDeletion k) refs)"
  unfolding cleanupChaosPhase_def by (rule chaosCleanup.loop_issues)

text \<open>
  An object the removal can find by its reference: the parts in front of the last slash have none, and
  its apiVersion is the one the removal assumes, version \<open>v1alpha1\<close> of its group.
\<close>

definition removable :: "'w env \<Rightarrow> Unstructured \<Rightarrow> bool" where
  "removable k u \<longleftrightarrow> validChaosRef (eGroupOf k (UsAPIVersion u), UsKind u, UsNamespace u, UsName u) \<and>
     eGvString k (eGroupOf k (UsAPIVersion u)) ''v1alpha1'' = UsAPIVersion u"

lemma refDeletion_valid:
  "validChaosRef (eGroupOf k (UsAPIVersion u), UsKind u, UsNamespace u, UsName u) \<Longrightarrow>
   refDeletion k (objectRef k u) =
     [Delete (ObjKey (eGvString k (eGroupOf k (UsAPIVersion u)) ''v1alpha1'') (UsKind u) (UsNamespace u) (UsName u))]"
  by (simp add: refDeletion_def objectRef_def cpRef.apart_make)

lemma refDeletion_removable: "removable k u \<Longrightarrow> refDeletion k (objectRef k u) = [Delete (usKey u)]"
  by (simp add: removable_def refDeletion_valid usKey_def)

section \<open>A run to evaluate\<close>

text \<open>A phase that stresses two zones.\<close>

definition stressFault :: FaultSpec where
  "stressFault = \<lparr>Type = FaultCPUStress, FaultZones = [''a'', ''b''], FaultLatency = '''', FaultJitter = '''',
     FaultBandwidth = '''', FaultPacketLoss = '''', Workers = 2, CpuLoad = 80, Size = '''', Manifest = ''''\<rparr>"

definition stressPhase :: ChaosPhase where
  "stressPhase = \<lparr>CpName = ''cp'', CpNamespace = ''x'', CpSpec = \<lparr>CpTopologyRef = ''t'', Faults = [stressFault]\<rparr>\<rparr>"

lemma stressPhase_sel [simp]: "Faults (CpSpec stressPhase) = [stressFault]" "CpTopologyRef (CpSpec stressPhase) = ''t''"
  by (simp_all add: stressPhase_def)

lemma groupLaw_sampleWorld [simp]: "groupLaw sampleWorld"
  by (simp add: groupLaw_def sampleWorld_def emptyWorld_def Let_def chaosMeshGroup_def)

definition stressRun :: "applied \<times> unit kst" where
  "stressRun = run (applyChaosPhase sampleWorld stressPhase ''abcde'') start"

lemma stressRun_runs:
  "run (applyChaosPhase sampleWorld stressPhase ''abcde'') start = ((fst (fst stressRun), None), snd stressRun)"
  "map usKey (createdObjects (newCalls start (snd stressRun))) =
     [ObjKey ''chaos-mesh.org/v1alpha1'' ''StressChaos'' ''t-a'' ''cp-abcde-a-cpu'',
      ObjKey ''chaos-mesh.org/v1alpha1'' ''StressChaos'' ''t-b'' ''cp-abcde-b-cpu'']"
  "\<forall>u \<in> set (createdObjects (newCalls start (snd stressRun))). removable sampleWorld u"
  by (simp_all add: stressRun_def applyChaosPhase_def stressFault_def applyFault_def applyStressFault_def run_simps
      perform_def sampleWorld_def emptyWorld_def buildStressChaos_def stressFaultName_def Let_def start_def newCalls_def
      zoneName_def chaosMeshGroup_def usKey_def removable_def validChaosRef_def slashFree_def)

section \<open>Properties\<close>

text \<open>
  C16. When \<open>applyChaosPhase\<close> succeeds it has done nothing but create objects, every creation
  succeeded, and it returns one reference for each object it created, in order.
\<close>

theorem chaos_refs_complete:
  assumes "groupLaw k" "run (applyChaosPhase k cp experimentID) s = ((refs, None), s')"
  shows "list_all createsOnly (newCalls s s') \<and> list_all snd (newCalls s s') \<and>
    refs = map (objectRef k) (createdObjects (newCalls s s'))"
  using doesD [OF applyFaults_refs [OF assms(1)] assms(2) [unfolded applyChaosPhase_def]]
    emits_newCalls [OF applyFaults_emits assms(2) [unfolded applyChaosPhase_def]]
  by simp

theorem chaos_refs_complete_witness:
  "fst (fst stressRun) = map (objectRef sampleWorld) (createdObjects (newCalls start (snd stressRun))) \<and>
   createdObjects (newCalls start (snd stressRun)) \<noteq> []"
  using chaos_refs_complete [OF groupLaw_sampleWorld stressRun_runs(1)] stressRun_runs(2) by force

text \<open>
  C17. Removal undoes application: \<open>cleanupChaosPhase\<close> on the references a successful
  \<open>applyChaosPhase\<close> returned issues the deletion of every object it created and of nothing else,
  provided their names have no slashes and custom objects have version \<open>v1alpha1\<close>.
\<close>

theorem chaos_cleanup_complete:
  assumes "groupLaw k" "run (applyChaosPhase k cp experimentID) s = ((refs, None), s')"
    and "\<forall>u \<in> set (createdObjects (newCalls s s')). removable k u"
  shows "issued (snd (run (cleanupChaosPhase k refs) t)) =
    issued t @ map (\<lambda>u. Delete (usKey u)) (createdObjects (newCalls s s'))"
proof -
  let ?us = "createdObjects (newCalls s s')"
  have refs: "refs = map (objectRef k) ?us"
    using doesD [OF applyFaults_refs [OF assms(1)] assms(2) [unfolded applyChaosPhase_def]] by simp
  have "concat (map (refDeletion k) (map (objectRef k) us)) = map (\<lambda>u. Delete (usKey u)) us"
    if "\<forall>u \<in> set us. removable k u" for us
    using that by (induction us) (auto simp: refDeletion_removable)
  with assms(3) refs show ?thesis by (simp add: cleanupChaosPhase_issues)
qed

theorem chaos_cleanup_complete_witness:
  "issued (snd (run (cleanupChaosPhase sampleWorld (fst (fst stressRun))) start)) =
   issued start @ [Delete (ObjKey ''chaos-mesh.org/v1alpha1'' ''StressChaos'' ''t-a'' ''cp-abcde-a-cpu''),
     Delete (ObjKey ''chaos-mesh.org/v1alpha1'' ''StressChaos'' ''t-b'' ''cp-abcde-b-cpu'')]"
proof -
  have "map (\<lambda>u. Delete (usKey u)) us = map Delete (map usKey us)" for us by simp
  with chaos_cleanup_complete [OF groupLaw_sampleWorld stressRun_runs(1,3), of start] stressRun_runs(2)
  show ?thesis by simp
qed

text \<open>
  The names of owned ConfigMaps, which are kept in the same status field as the references, are
  no concern of \<open>cleanupChaosPhase\<close>: without a slash in them it deletes exactly what it would
  delete without them.
\<close>

theorem chaos_cleanup_skips_names:
  assumes "list_all slashFree names"
  shows "issued (snd (run (cleanupChaosPhase k (names @ refs)) s)) = issued (snd (run (cleanupChaosPhase k refs) s))"
proof -
  have "concat (map (refDeletion k) names) = []"
    using assms by (induction names) (auto simp: refDeletion_def splitChaosRef_plain)
  then show ?thesis by (simp add: cleanupChaosPhase_issues)
qed

theorem chaos_cleanup_skips_names_witness:
  "issued (snd (run (cleanupChaosPhase k ([''ecoscape-abcde-sut''] @ [''g/K/n/x''])) s)) =
   issued (snd (run (cleanupChaosPhase k [''g/K/n/x'']) s))"
  by (rule chaos_cleanup_skips_names) simp

text \<open>
  Only version \<open>v1alpha1\<close> comes back: for an object with well-formed names the removal asks for
  the deletion of this object exactly if its apiVersion is version \<open>v1alpha1\<close> of its group. A custom
  fault of any other version stays in the cluster.
\<close>

theorem removal_assumes_version:
  assumes "validChaosRef (eGroupOf k (UsAPIVersion u), UsKind u, UsNamespace u, UsName u)"
  shows "issued (snd (run (cleanupChaosPhase k [objectRef k u]) s)) = issued s @ [Delete (usKey u)] \<longleftrightarrow>
    UsAPIVersion u = eGvString k (eGroupOf k (UsAPIVersion u)) ''v1alpha1''"
  by (simp add: cleanupChaosPhase_issues refDeletion_valid [OF assms] usKey_def) metis

theorem removal_assumes_version_witness:
  "issued (snd (run (cleanupChaosPhase sampleWorld [objectRef sampleWorld samplePod]) start)) \<noteq>
   issued start @ [Delete (usKey samplePod)]"
  using removal_assumes_version [of sampleWorld samplePod start]
  by (simp add: validChaosRef_def sampleWorld_def emptyWorld_def Let_def samplePod_def slashFree_def)

text \<open>
  A stress fault that fails half-way is forgotten: when the only fault of the phase is one and some
  creation fails, \<open>applyChaosPhase\<close> returns no reference at all, so the cleanup that follows deletes
  nothing, whatever was created before the failure.
\<close>

theorem failed_fault_forgotten:
  assumes "Faults (CpSpec cp) = [fault]" "run (applyChaosPhase k cp experimentID) s = (out, s')" "snd out \<noteq> None"
  shows "fst out = [] \<and> issued (snd (run (cleanupChaosPhase k (fst out)) t)) = issued t"
proof -
  have "does (applyFaults k (CpTopologyRef (CpSpec cp)) experimentID 0 [] [fault])
      (\<lambda>cs (refs, err). err \<noteq> None \<longrightarrow> refs = [])"
    unfolding applyFaults.simps
    by (intro does_bind does_mono [OF applyFault_emits [unfolded emits_does]] does_prod does_option does_ret) auto
  from doesD [OF this, of s] assms show ?thesis
    by (cases out) (simp add: applyChaosPhase_def cleanupChaosPhase_issues)
qed

text \<open>A world where the second object of this phase cannot be created.\<close>

definition refusingWorld :: "unit env" where
  "refusingWorld = sampleWorld\<lparr>eWrite := (\<lambda>c w.
     (case c of Create (OUnstructured u) \<Rightarrow>
        (if UsName u = ''cp-abcde-b-cpu'' then Some (errorf ''quota'') else None) | _ \<Rightarrow> None, w))\<rparr>"

lemma stress_run:
  "snd (fst (run (applyChaosPhase refusingWorld stressPhase ''abcde'') start)) \<noteq> None \<and>
   map UsName (createdObjects (calls (snd (run (applyChaosPhase refusingWorld stressPhase ''abcde'') start)))) = [''cp-abcde-a-cpu'']"
  by (simp add: applyChaosPhase_def stressPhase_def stressFault_def applyFault_def applyStressFault_def run_simps
      perform_def refusingWorld_def buildStressChaos_def stressFaultName_def Let_def start_def)

theorem failed_fault_forgotten_witness:
  "fst (fst (run (applyChaosPhase refusingWorld stressPhase ''abcde'') start)) = [] \<and>
   createdObjects (calls (snd (run (applyChaosPhase refusingWorld stressPhase ''abcde'') start))) \<noteq> []"
proof -
  let ?r = "run (applyChaosPhase refusingWorld stressPhase ''abcde'') start"
  have "fst (fst ?r) = [] \<and> issued (snd (run (cleanupChaosPhase refusingWorld (fst (fst ?r))) start)) = issued start"
    by (rule failed_fault_forgotten [where fault = stressFault and s' = "snd ?r"])
      (simp_all add: stress_run)
  then show ?thesis using stress_run by fastforce
qed

end
