(* ===== verification/Experiment_Base.thy ===== *)
theory Experiment_Base
  imports Results Prometheus_Client Chaos
begin

text \<open>
  The helpers of \<open>internal/controller/experiment_controller.go\<close> the sub-phase handlers are built
  from: the random run id, the elapsed time of a sub-phase, the status transitions, the manifest sets and
  switching the topology on and off.
\<close>

section \<open>What a reconcile returns\<close>

text \<open>
  \<open>(ctrl.Result, error)\<close>, or a run-time panic (a nil dereference, an index out of range, an integer
  division by zero).
\<close>

datatype requeue = NoRequeue | Requeue | RequeueAfter (seconds: nat)

datatype outcome = Returned requeue "goerr option" | Panicked

section \<open>Definitions\<close>

definition charset :: string where
  "charset = ''abcdefghijklmnopqrstuvwxyz''"

fun randomID :: "'w env \<Rightarrow> nat \<Rightarrow> ('w kst, string) state" where
  "randomID k 0 = ret ''''"
| "randomID k (Suc n) = do {
     i \<leftarrow> randIntn k (length charset);
     rest \<leftarrow> randomID k n;
     ret (charset ! i # rest)
   }"

text \<open>\<open>Time.Sub\<close> saturates at the 64-bit range of a duration.\<close>

definition timeSub :: "Time \<Rightarrow> Time \<Rightarrow> int" where
  "timeSub t u = max (- (2 ^ 63)) (min (2 ^ 63 - 1) (t - u))"

definition elapsedSeconds :: "'w env \<Rightarrow> Experiment \<Rightarrow> ('w kst, int32) state" where
  "elapsedSeconds k experiment =
     (case SubPhaseStartTime (Status experiment) of
        None \<Rightarrow> ret 0
      | Some begin \<Rightarrow> do {
          t \<leftarrow> now k;
          ret (int32OfFloat (eInt32Overflow k) (durationSeconds (timeSub t begin)))
        })"

definition withStatus :: "Experiment \<Rightarrow> (ExperimentStatus \<Rightarrow> ExperimentStatus) \<Rightarrow> Experiment" where
  "withStatus experiment f = experiment\<lparr>Status := f (Status experiment)\<rparr>"

definition setSubPhase ::
  "'w env \<Rightarrow> Experiment \<Rightarrow> ExperimentSubPhase \<Rightarrow> int32 \<Rightarrow> ('w kst, Experiment) state" where
  "setSubPhase k experiment subPhase duration = do {
     t \<leftarrow> now k;
     ret (withStatus experiment (\<lambda>st. st\<lparr>SubPhase := subPhase, SubPhaseStartTime := Some t,
       SubPhaseDuration := duration, SubPhaseElapsed := 0\<rparr>))
   }"

text \<open>\<open>Status().Patch(ctx, experiment, client.MergeFrom(base))\<close>\<close>

definition patchStatus :: "'w env \<Rightarrow> Experiment \<Rightarrow> Experiment \<Rightarrow> ('w kst, goerr option) state" where
  "patchStatus k experiment base = perform k (StatusPatch (OExperiment experiment) (OExperiment base))"

definition setPhase ::
  "'w env \<Rightarrow> Experiment \<Rightarrow> ExperimentPhase \<Rightarrow> string \<Rightarrow> ('w kst, goerr option) state" where
  "setPhase k experiment phase message = do {
     t \<leftarrow> now k;
     let condition = \<lparr>CondType = ''Completed'', CondStatus = True, LastTransitionTime = t,
       CondReason = phaseString phase, CondMessage = message\<rparr>;
     patchStatus k (withStatus experiment (\<lambda>st. st\<lparr>Phase := phase,
         Conditions := (if phase = PhaseSucceeded \<or> phase = PhaseFailed
                        then Conditions st @ [condition] else Conditions st)\<rparr>)) experiment
   }"

definition failExperiment :: "'w env \<Rightarrow> Experiment \<Rightarrow> goerr \<Rightarrow> ('w kst, outcome) state" where
  "failExperiment k experiment err = do {
     _ \<leftarrow> setPhase k experiment PhaseFailed (err_msg err);
     ret (Returned NoRequeue (Some err))
   }"

text \<open>The last statements of most handlers: patch the status, and return.\<close>

definition patchAndReturn ::
  "'w env \<Rightarrow> string \<Rightarrow> Experiment \<Rightarrow> Experiment \<Rightarrow> requeue \<Rightarrow> ('w kst, outcome) state" where
  "patchAndReturn k what experiment base requeue = do {
     err \<leftarrow> patchStatus k experiment base;
     ret (case err of
            Some e \<Rightarrow> Returned NoRequeue (Some (wrapf (''status patch ('' @ what @ '')'') e))
          | None \<Rightarrow> Returned requeue None)
   }"

definition ownedConfigMapName :: "string \<Rightarrow> string \<Rightarrow> string" where
  "ownedConfigMapName experimentID role = ''ecoscape-'' @ experimentID @ ''-'' @ role"

text \<open>The slice behind the pointer \<open>owned\<close> is an argument and a result.\<close>

definition applyManifestSet ::
  "'w env \<Rightarrow> string \<Rightarrow> ManifestRef option \<Rightarrow> string \<Rightarrow> string \<Rightarrow> string list \<Rightarrow> ('w kst, applied) state" where
  "applyManifestSet k ns manifestRef experimentID role owned =
     (case manifestRef of
        None \<Rightarrow> ret (owned, None)
      | Some ref \<Rightarrow> do {
          err \<leftarrow> deployManifests k ns (ConfigMapRef ref) (ownedConfigMapName experimentID role);
          ret (case err of
                 Some e \<Rightarrow> (owned, Some (wrapf (''deploy '' @ role @ '' manifests'') e))
               | None \<Rightarrow> (owned @ [ownedConfigMapName experimentID role], None))
        })"

definition cleanup :: "'w env \<Rightarrow> string \<Rightarrow> string list \<Rightarrow> ('w kst, unit) state" where
  "cleanup k ns ownedConfigMaps = forEach (undeployManifests k ns) ownedConfigMaps"

definition activateTopology :: "'w env \<Rightarrow> string \<Rightarrow> string \<Rightarrow> ('w kst, goerr option) state" where
  "activateTopology k ns name = do {
     r \<leftarrow> getTopology k ns name;
     case r of
       Inl e \<Rightarrow> ret (Some (wrapf (''get topology '' @ nsSlashName ns name) e))
     | Inr topology \<Rightarrow>
         if Active (TopSpec topology) then ret None
         else perform k (Patch (OTopology (topology\<lparr>TopSpec := (TopSpec topology)\<lparr>Active := True\<rparr>\<rparr>)) (OTopology topology))
   }"

definition deactivateTopology :: "'w env \<Rightarrow> string \<Rightarrow> string \<Rightarrow> ('w kst, goerr option) state" where
  "deactivateTopology k ns name = do {
     r \<leftarrow> getTopology k ns name;
     case r of
       Inl e \<Rightarrow> if isNotFound e then ret None
                else ret (Some (wrapf (''get topology '' @ nsSlashName ns name) e))
     | Inr topology \<Rightarrow>
         if \<not> Active (TopSpec topology) then ret None
         else perform k (Patch (OTopology (topology\<lparr>TopSpec := (TopSpec topology)\<lparr>Active := False\<rparr>\<rparr>)) (OTopology topology))
   }"

lemma withStatus_sel [simp]:
  "Status (withStatus e f) = f (Status e)" "Spec (withStatus e f) = Spec e"
  "ExpName (withStatus e f) = ExpName e" "ExpNamespace (withStatus e f) = ExpNamespace e"
  by (simp_all add: withStatus_def)

section \<open>What the helpers may send\<close>

text \<open>Everything but a write of a status.\<close>

fun quiet :: "call \<times> bool \<Rightarrow> bool" where
  "quiet (StatusPatch obj base, b) = False"
| "quiet (StatusUpdate obj, b) = False"
| "quiet (c, b) = True"

lemma quiet_appliesOnly: "appliesOnly Q c \<Longrightarrow> quiet c"
  by (cases "(Q, c)" rule: appliesOnly.cases) auto

lemma quiet_createsOnly: "createsOnly c \<Longrightarrow> quiet c"
  by (cases c rule: createsOnly.cases) auto

lemma deployManifests_quiet [trace_intro]: "emits quiet (deployManifests k ns sourceName ownedName)"
  unfolding deployManifests_def readConfigMap_def ensureOwnedConfigMap_def storeConfigMap_def applyManifests_def get_defs
  by (intro trace_intro emits_request emits_perform emits_mono [OF applyEntries_emits quiet_appliesOnly]) auto

lemma undeployManifests_quiet [trace_intro]: "emits quiet (undeployManifests k ns ownedName)"
  unfolding undeployManifests_def deleteManifests_def deleteConfigMap_def deleteEntry_def get_defs
  by (intro trace_intro emits_request emits_perform) auto

lemma applyChaosPhase_quiet [trace_intro]: "emits quiet (applyChaosPhase k cp i)"
  unfolding applyChaosPhase_def by (rule emits_mono [OF applyFaults_emits quiet_createsOnly])

lemma cleanupChaosPhase_quiet [trace_intro]: "emits quiet (cleanupChaosPhase k refs)"
  unfolding cleanupChaosPhase_def cleanupRef_def by (intro trace_intro emits_perform) auto

lemma append_quiet [trace_intro]:
  "emits quiet (appendRepetitionToConfigMap k ns e result)"
  "emits quiet (appendMeasurementsToConfigMap k ns e phase)"
  unfolding append_defs by (intro trace_intro emits_request emits_perform; simp)+

lemma query_quiet [trace_intro]: "emits quiet (query k prometheus q)"
  unfolding query_def get_defs by (intro trace_intro emits_request) simp

lemma randomID_quiet [trace_intro]: "emits quiet (randomID k n)"
  by (induction n) (auto intro!: trace_intro)

lemma base_quiet [trace_intro]:
  "emits quiet (elapsedSeconds k e)" "emits quiet (setSubPhase k e sp d)" "emits quiet (cleanup k ns owned)"
  "emits quiet (activateTopology k ns name)" "emits quiet (deactivateTopology k ns name)"
  "emits quiet (applyManifestSet k ns ref i role owned)"
  unfolding elapsedSeconds_def setSubPhase_def cleanup_def activateTopology_def deactivateTopology_def
    applyManifestSet_def get_defs
  by (intro trace_intro emits_request emits_perform; simp)+

lemma elapsed_seconds:
  assumes "SubPhaseStartTime (Status experiment) = Some t0"
    and "run (elapsedSeconds k experiment) s = (elapsed, s')" "fst (eNow k (world s)) = t"
    and "t0 \<le> t" "t - t0 < 2 ^ 22 * nanosPerSecond"
  shows "sint elapsed = (t - t0) div nanosPerSecond"
proof -
  have sat: "timeSub t t0 = t - t0"
    using assms(4,5) by (simp add: timeSub_def nanosPerSecond_def)
  have "elapsed = int32OfFloat (eInt32Overflow k) (durationSeconds (timeSub t t0))"
    using assms(1-3) by (auto simp: elapsedSeconds_def now_def silent_def run_simps split: prod.splits)
  also have "\<dots> = word_of_int ((t - t0) div nanosPerSecond)"
    unfolding sat using assms(4,5) by (intro int32_durationSeconds) simp_all
  finally show ?thesis
    using assms(4,5) by (simp add: nanosPerSecond_def sint_sbintrunc' signed_take_bit_int_eq_self)
qed

section \<open>A world with a topology\<close>

definition sampleTopology :: "bool \<Rightarrow> Topology" where
  "sampleTopology active = \<lparr>TopName = ''t'', TopNamespace = ''x'', Generation = 1, DeletionTimestamp = None, Finalizers = [],
     TopSpec = \<lparr>Zones = [\<lparr>ZoneSpecName = ''a'', CPU = None, Memory = None, Disk = None\<rparr>,
         \<lparr>ZoneSpecName = ''b'', CPU = None, Memory = None, Disk = None\<rparr>], Links = [], Active = active\<rparr>,
     TopStatus = \<lparr>TopPhase = TopologyPhaseActive, ObservedGeneration = 0, TopZones = [], NetworkChaosRefs = [], TopConditions = []\<rparr>\<rparr>"

definition topologyWorld :: "bool \<Rightarrow> Time \<Rightarrow> unit env" where
  "topologyWorld active t = sampleWorld\<lparr>eGetTopology := (\<lambda>ns n w. (Inr (sampleTopology active), w)), eNow := (\<lambda>w. (t, w))\<rparr>"

lemma topologyWorld_sel [simp]:
  "eGetTopology (topologyWorld active t) ns n w = (Inr (sampleTopology active), w)"
  "eNow (topologyWorld active t) w = (t, w)" "eWrite (topologyWorld active t) c w = (None, w)"
  by (simp_all add: topologyWorld_def sampleWorld_def emptyWorld_def Let_def)

section \<open>Properties\<close>

text \<open>
  A run id has the length asked for and consists of lower-case letters, so the names built from it
  contain no slash and are legal parts of Kubernetes names; drawing it sends nothing.
\<close>

theorem run_id_wellformed:
  "does (randomID k n) (\<lambda>cs i. cs = [] \<and> length i = n \<and> set i \<subseteq> set charset)"
proof (induction n)
  case (Suc n)
  have i: "does (randIntn k (length charset)) (\<lambda>cs i. cs = [] \<and> i < length charset)"
    unfolding randIntn_def by (intro does_rules) (simp add: charset_def)
  show ?case
    unfolding randomID.simps
  proof (intro does_bind does_mono [OF i])
    fix cs :: "(call \<times> bool) list" and i assume i: "cs = [] \<and> i < length charset"
    then have "charset ! i \<in> set charset" by simp
    with i show "does (randomID k n) (\<lambda>ds rest. does (ret (charset ! i # rest))
        (\<lambda>es x. (cs @ ds @ es) = [] \<and> length x = Suc n \<and> set x \<subseteq> set charset))"
      by (intro does_mono [OF Suc] does_ret) simp
  qed
qed (simp add: does_ret)

text \<open>
  A sub-phase that started up to 48 days ago has an elapsed time of exactly the whole seconds since,
  although the code goes through two floating-point roundings.
\<close>

theorem elapsed_whole_seconds:
  assumes "SubPhaseStartTime (Status experiment) = Some t0"
    and "run (elapsedSeconds k experiment) s = (elapsed, s')" "fst (eNow k (world s)) = t"
    and "t0 \<le> t" "t - t0 < 2 ^ 22 * nanosPerSecond"
  shows "sint elapsed = (t - t0) div nanosPerSecond"
  using elapsed_seconds [OF assms] .

theorem elapsed_whole_seconds_witness:
  "sint (fst (run (elapsedSeconds (topologyWorld True 1500000000) (sampleExperiment idleStatus)) start)) = 1"
  using elapsed_whole_seconds [OF _ prod.collapse [symmetric], of "sampleExperiment idleStatus" 0
      "topologyWorld True 1500000000" start 1500000000]
  by (simp add: idleStatus_def nanosPerSecond_def)

text \<open>
  After a successful switch the topology was as wanted or has been patched: \<open>activateTopology\<close> and
  \<open>deactivateTopology\<close> read the topology, and write it only if its \<open>active\<close> flag differs from what is
  wanted, in which case the patch changes this flag and nothing else.
\<close>

theorem topology_switch:
  assumes "switch = activateTopology \<and> wanted \<or> switch = deactivateTopology \<and> \<not> wanted"
    and "run (switch k ns name) s = (None, s')"
    and "fst (eGetTopology k ns name (world s)) = Inr topo"
  shows "map snd (newCalls s s') = (if Active (TopSpec topo) = wanted then [True] else [True, True]) \<and>
    (Active (TopSpec topo) \<noteq> wanted \<longrightarrow>
       newCalls s s' ! 1 = (Patch (OTopology (topo\<lparr>TopSpec := (TopSpec topo)\<lparr>Active := wanted\<rparr>\<rparr>)) (OTopology topo), True))"
  using assms
  by (auto simp: activateTopology_def deactivateTopology_def get_defs newCalls_def elim!: run_elims split: sum.splits if_splits)


theorem topology_switch_witness:
  "\<exists>new. (Patch (OTopology new) (OTopology (sampleTopology False)), True) \<in>
      set (newCalls start (snd (run (activateTopology (topologyWorld False 0) ''x'' ''t'') start))) \<and> Active (TopSpec new)"
proof -
  let ?m = "run (activateTopology (topologyWorld False 0) ''x'' ''t'') start"
  have "?m = (None, snd ?m)"
    by (simp add: activateTopology_def get_defs request_def perform_def run_simps sampleTopology_def)
  then have "map snd (newCalls start (snd ?m)) = [True, True] \<and>
      newCalls start (snd ?m) ! 1 = (Patch (OTopology ((sampleTopology False)\<lparr>TopSpec :=
        (TopSpec (sampleTopology False))\<lparr>Active := True\<rparr>\<rparr>)) (OTopology (sampleTopology False)), True)"
    using topology_switch [of activateTopology True "topologyWorld False 0" "''x''" "''t''" start "snd ?m" "sampleTopology False"]
    by (simp add: sampleTopology_def)
  then have len: "length (newCalls start (snd ?m)) = 2"
    and nth: "newCalls start (snd ?m) ! 1 = (Patch (OTopology ((sampleTopology False)\<lparr>TopSpec :=
        (TopSpec (sampleTopology False))\<lparr>Active := True\<rparr>\<rparr>)) (OTopology (sampleTopology False)), True)"
    by (auto dest: arg_cong [of _ _ length])
  have "newCalls start (snd ?m) ! 1 \<in> set (newCalls start (snd ?m))" by (rule nth_mem) (simp add: len)
  moreover have "Active (TopSpec ((sampleTopology False)\<lparr>TopSpec := (TopSpec (sampleTopology False))\<lparr>Active := True\<rparr>\<rparr>))"
    by simp
  ultimately show ?thesis unfolding nth by blast
qed

end
