(* ===== verification/Experiment_Ctl.thy ===== *)
theory Experiment_Ctl
  imports Experiment_Base
begin

text \<open>
  The experiment reconciler of \<open>internal/controller/experiment_controller.go\<close>: \<open>Reconcile\<close>, the
  dispatch on the sub-phase and the handler of each sub-phase. Log messages are left out. A handler keeps
  the object it was given as \<open>base\<close> of the status patch where the code makes a deep copy of it.
\<close>

definition arrow :: string where
  "arrow = [CHR 0xE2, CHR 0x86, CHR 0x92]"

section \<open>The handlers\<close>

definition handleIdle :: "'w env \<Rightarrow> Experiment \<Rightarrow> ('w kst, outcome) state" where
  "handleIdle k experiment = do {
     i \<leftarrow> (if ExperimentID (Status experiment) = '''' then randomID k 5 else ret (ExperimentID (Status experiment)));
     begin \<leftarrow> (case StartTime (Status experiment) of
                None \<Rightarrow> do { t \<leftarrow> now k; ret (Some t) }
              | Some t \<Rightarrow> ret (Some t));
     patchAndReturn k (''idle'' @ arrow @ ''deploying'')
       (withStatus experiment (\<lambda>st. st\<lparr>ExperimentID := i, StartTime := begin,
          StTopologyRef := (case ExpTopologyRef (Spec experiment) of Some name \<Rightarrow> name | None \<Rightarrow> StTopologyRef st),
          Phase := PhaseRunning, MeasurementState := [], SubPhase := SubPhaseDeploying,
          SubPhaseStartTime := None, SubPhaseDuration := 0, SubPhaseElapsed := 0\<rparr>))
       experiment Requeue
   }"

text \<open>The four calls of \<open>applyManifestSet\<close>, each returning early with its error.\<close>

fun applyManifestSets ::
  "'w env \<Rightarrow> string \<Rightarrow> string \<Rightarrow> string list \<Rightarrow> (string \<times> ManifestRef option) list \<Rightarrow> ('w kst, applied) state" where
  "applyManifestSets k ns experimentID owned [] = ret (owned, None)"
| "applyManifestSets k ns experimentID owned ((role, ref) # sets) = do {
     (owned', err) \<leftarrow> applyManifestSet k ns ref experimentID role owned;
     case err of
       Some e \<Rightarrow> ret (owned', Some (wrapf (''deploy '' @ role) e))
     | None \<Rightarrow> applyManifestSets k ns experimentID owned' sets
   }"

definition manifestSets :: "ManifestsConfig \<Rightarrow> (string \<times> ManifestRef option) list" where
  "manifestSets m = [(''sut'', Sut m), (''infra'', Infra m), (''monitor'', Monitor m), (''load'', Load m)]"

definition afterDeploying :: "ExperimentSpec \<Rightarrow> ExperimentSubPhase \<times> int32" where
  "afterDeploying spec =
     (if ExpTopologyRef spec \<noteq> None then (SubPhaseTopologyDelay, derefOr (TopologyDelay (Duration spec)) 0)
      else (SubPhaseLoadDelay, derefOr (LoadDelay (Duration spec)) 0))"

definition handleDeploying :: "'w env \<Rightarrow> Experiment \<Rightarrow> ('w kst, outcome) state" where
  "handleDeploying k experiment = do {
     let ns = ExpNamespace experiment;
     (owned, err) \<leftarrow> applyManifestSets k ns (ExperimentID (Status experiment)) [] (manifestSets (Manifests (Spec experiment)));
     case err of
       Some e \<Rightarrow> do {
         _ \<leftarrow> cleanup k ns owned;
         failExperiment k experiment e
       }
     | None \<Rightarrow> do {
         let (nextSubPhase, nextDuration) = afterDeploying (Spec experiment);
         next \<leftarrow> setSubPhase k (withStatus experiment (\<lambda>st. st\<lparr>ManifestConfigMaps := owned\<rparr>)) nextSubPhase nextDuration;
         patchAndReturn k (''deploying'' @ arrow @ subPhaseString nextSubPhase) next experiment Requeue
       }
   }"

definition withElapsed :: "Experiment \<Rightarrow> int32 \<Rightarrow> Experiment" where
  "withElapsed experiment elapsed = withStatus experiment (\<lambda>st. st\<lparr>SubPhaseElapsed := elapsed\<rparr>)"

definition handleTopologyDelay :: "'w env \<Rightarrow> Experiment \<Rightarrow> ('w kst, outcome) state" where
  "handleTopologyDelay k experiment = do {
     elapsed \<leftarrow> elapsedSeconds k experiment;
     let current = withElapsed experiment elapsed;
     if i32_le (SubPhaseDuration (Status experiment)) elapsed
     then (case ExpTopologyRef (Spec experiment) of
             None \<Rightarrow> ret Panicked
           | Some name \<Rightarrow> do {
               let ns = ExpNamespace experiment;
               err \<leftarrow> activateTopology k ns name;
               case err of
                 Some e \<Rightarrow> do {
                   _ \<leftarrow> cleanup k ns (ManifestConfigMaps (Status experiment));
                   failExperiment k current (wrapf ''activate topology'' e)
                 }
               | None \<Rightarrow> do {
                   next \<leftarrow> setSubPhase k current SubPhaseWaitingForTopology 0;
                   patchAndReturn k ''topology delay done'' next experiment Requeue
                 }
             })
     else patchAndReturn k ''topology delay'' current experiment (RequeueAfter 1)
   }"

text \<open>The failing ends of \<open>handleWaitingForTopology\<close>: deactivate, clean up, fail.\<close>

definition giveUpTopology :: "'w env \<Rightarrow> Experiment \<Rightarrow> string \<Rightarrow> goerr \<Rightarrow> ('w kst, outcome) state" where
  "giveUpTopology k current name err = do {
     _ \<leftarrow> deactivateTopology k (ExpNamespace current) name;
     _ \<leftarrow> cleanup k (ExpNamespace current) (ManifestConfigMaps (Status current));
     failExperiment k current err
   }"

definition handleWaitingForTopology :: "'w env \<Rightarrow> Experiment \<Rightarrow> ('w kst, outcome) state" where
  "handleWaitingForTopology k experiment =
     (case ExpTopologyRef (Spec experiment) of
        None \<Rightarrow> ret Panicked
      | Some name \<Rightarrow> do {
          let ns = ExpNamespace experiment;
          r \<leftarrow> getTopology k ns name;
          case (case r of
                  Inl e \<Rightarrow> if \<not> isNotFound e then Inl e else Inr None
                | Inr topology \<Rightarrow> Inr (Some (TopPhase (TopStatus topology)))) of
            Inl e \<Rightarrow> ret (Returned NoRequeue (Some (wrapf (''get topology '' @ nsSlashName ns name) e)))
          | Inr phase \<Rightarrow> do {
              elapsed \<leftarrow> elapsedSeconds k experiment;
              let current = withElapsed experiment elapsed;
              if phase = Some TopologyPhaseActive then do {
                next \<leftarrow> setSubPhase k current SubPhaseLoadDelay (derefOr (LoadDelay (Duration (Spec experiment))) 0);
                patchAndReturn k ''topology active'' next experiment Requeue
              }
              else if phase = Some TopologyPhaseFailed
              then giveUpTopology k current name (errorf (''topology '' @ nsSlashName ns name @ '' reached Failed phase''))
              else if i32_lt 300 elapsed
              then giveUpTopology k current name
                (errorf (''timeout waiting for topology '' @ nsSlashName ns name @ '' to become Active''))
              else patchAndReturn k ''waiting for topology'' current experiment (RequeueAfter 2)
            }
        })"

definition handleTimedWait ::
  "'w env \<Rightarrow> Experiment \<Rightarrow> ExperimentSubPhase \<Rightarrow> int32 \<Rightarrow> ('w kst, outcome) state" where
  "handleTimedWait k experiment nextSubPhase nextDuration = do {
     elapsed \<leftarrow> elapsedSeconds k experiment;
     let current = withElapsed experiment elapsed;
     if i32_le (SubPhaseDuration (Status experiment)) elapsed then do {
       next \<leftarrow> setSubPhase k current nextSubPhase nextDuration;
       patchAndReturn k ''timed wait done'' next experiment Requeue
     }
     else patchAndReturn k ''timed wait'' current experiment (RequeueAfter 1)
   }"

text \<open>
  The loop over the SLOs in \<open>handleMeasurement\<close>, from index \<open>i\<close>. \<open>None\<close> is a panic: an index
  beyond the measurement states, or a sample interval of zero.
\<close>

fun measureSLOs ::
  "'w env \<Rightarrow> prometheusClient \<Rightarrow> int32 \<Rightarrow> int32 \<Rightarrow> nat \<Rightarrow> SLOConfig list \<Rightarrow> SLOMeasurementState list
    \<Rightarrow> ('w kst, SLOMeasurementState list option) state" where
  "measureSLOs k prometheus elapsed sampleInterval i [] states = ret (Some states)"
| "measureSLOs k prometheus elapsed sampleInterval i (slo # slos) states = do {
     (v, found, err) \<leftarrow> query k prometheus (Query slo);
     if err \<noteq> None \<or> \<not> found then measureSLOs k prometheus elapsed sampleInterval (Suc i) slos states
     else if length states \<le> i then ret None
     else case recordMeasurement (states ! i) v slo elapsed sampleInterval of
       None \<Rightarrow> ret None
     | Some st \<Rightarrow> measureSLOs k prometheus elapsed sampleInterval (Suc i) slos (states[i := st])
   }"

definition initialStates :: "ExperimentSpec \<Rightarrow> SLOMeasurementState list \<Rightarrow> SLOMeasurementState list" where
  "initialStates spec states = (if states = [] then map (\<lambda>slo. freshState (SloName slo)) (SLOs spec) else states)"

definition sampleIntervalOf :: "ExperimentSpec \<Rightarrow> int32" where
  "sampleIntervalOf spec = derefOr (MeasurementSampleInterval (Duration spec)) 5"

text \<open>The end of a measurement window.\<close>

definition finishMeasurement ::
  "'w env \<Rightarrow> Experiment \<Rightarrow> Experiment \<Rightarrow> ExperimentSubPhase \<Rightarrow> ('w kst, outcome) state" where
  "finishMeasurement k current base nextSubPhase = do {
     err \<leftarrow> appendMeasurementsToConfigMap k (ExpNamespace current) current (SubPhase (Status current));
     case err of
       Some e \<Rightarrow> failExperiment k current (wrapf ''write measurements configmap'' e)
     | None \<Rightarrow> do {
         let actualNext = (if nextSubPhase = SubPhaseApplyingChaos \<and> ChaosPhaseRef (Spec current) = None
                           then SubPhaseChaosMeasurement else nextSubPhase);
         next \<leftarrow> setSubPhase k current actualNext (derefOr (MeasurementDuration (Duration (Spec current))) 60);
         patchAndReturn k ''measurement done''
           (if actualNext = SubPhaseChaosMeasurement
            then withStatus next (\<lambda>st. st\<lparr>MeasurementState := []\<rparr>) else next) base Requeue
       }
   }"

definition handleMeasurement :: "'w env \<Rightarrow> Experiment \<Rightarrow> ExperimentSubPhase \<Rightarrow> ('w kst, outcome) state" where
  "handleMeasurement k experiment nextSubPhase = do {
     elapsed \<leftarrow> elapsedSeconds k experiment;
     let sampleInterval = sampleIntervalOf (Spec experiment);
     if elapsed \<noteq> 0 \<and> sampleInterval = 0 then ret Panicked
     else if elapsed \<noteq> 0 \<and> i32_rem elapsed sampleInterval \<noteq> 0 then ret (Returned (RequeueAfter 1) None)
     else do {
       measured \<leftarrow> measureSLOs k
         (newPrometheusClient (URL (Prometheus (Spec experiment)))
           (derefOr (QueryTimeoutSeconds (Prometheus (Spec experiment))) 10))
         elapsed sampleInterval 0 (SLOs (Spec experiment))
         (initialStates (Spec experiment) (MeasurementState (Status experiment)));
       case measured of
         None \<Rightarrow> ret Panicked
       | Some states \<Rightarrow>
           let current = withStatus experiment (\<lambda>st. st\<lparr>MeasurementState := states, SubPhaseElapsed := elapsed\<rparr>)
           in if i32_le (SubPhaseDuration (Status experiment)) elapsed
              then finishMeasurement k current experiment nextSubPhase
              else patchAndReturn k ''measurement'' current experiment (RequeueAfter 1)
     }
   }"

definition handleApplyingChaos :: "'w env \<Rightarrow> Experiment \<Rightarrow> ('w kst, outcome) state" where
  "handleApplyingChaos k experiment =
     (case ChaosPhaseRef (Spec experiment) of
        None \<Rightarrow> ret Panicked
      | Some name \<Rightarrow> do {
          let ns = ExpNamespace experiment;
          r \<leftarrow> getChaosPhase k ns name;
          case r of
            Inl e \<Rightarrow> do {
              _ \<leftarrow> cleanup k ns (ManifestConfigMaps (Status experiment));
              failExperiment k experiment (wrapf (''get ChaosPhase '' @ quote name) e)
            }
          | Inr cp \<Rightarrow> do {
              (refs, err) \<leftarrow> applyChaosPhase k cp (ExperimentID (Status experiment));
              case err of
                Some e \<Rightarrow> do {
                  _ \<leftarrow> cleanupChaosPhase k refs;
                  _ \<leftarrow> cleanup k ns (ManifestConfigMaps (Status experiment));
                  failExperiment k experiment (wrapf ''apply chaos phase'' e)
                }
              | None \<Rightarrow> do {
                  next \<leftarrow> setSubPhase k
                    (withStatus experiment (\<lambda>st. st\<lparr>ManifestConfigMaps := ManifestConfigMaps st @ refs, MeasurementState := []\<rparr>))
                    SubPhaseChaosMeasurement (derefOr (MeasurementDuration (Duration (Spec experiment))) 60);
                  patchAndReturn k ''applying chaos'' next experiment Requeue
                }
            }
        })"

definition totalRepetitions :: "ExperimentSpec \<Rightarrow> int32" where
  "totalRepetitions spec = (if Repetitions (Duration spec) = 0 then 1 else Repetitions (Duration spec))"

definition handleCleanup :: "'w env \<Rightarrow> Experiment \<Rightarrow> ('w kst, outcome) state" where
  "handleCleanup k experiment = do {
     let ns = ExpNamespace experiment;
     let st = Status experiment;
     let repetition = RepetitionsCompleted st + 1;
     _ \<leftarrow> cleanupChaosPhase k (ManifestConfigMaps st);
     _ \<leftarrow> cleanup k ns (ManifestConfigMaps st);
     _ \<leftarrow> (case ExpTopologyRef (Spec experiment) of
            None \<Rightarrow> ret None
          | Some name \<Rightarrow> deactivateTopology k ns name);
     let result = buildRepetitionResult repetition (SLOs (Spec experiment)) (MeasurementState st);
     err \<leftarrow> appendRepetitionToConfigMap k ns experiment result;
     case err of
       Some e \<Rightarrow> failExperiment k experiment (wrapf ''append repetition to configmap'' e)
     | None \<Rightarrow> do {
         let pause = PauseBetweenRepetitions (Duration (Spec experiment));
         let current = withStatus experiment (\<lambda>st. st\<lparr>RepetitionsCompleted := repetition,
               SloResults := RepSloResults result, AggregateScore := Some (RepAggregateScore result),
               ManifestConfigMaps := [], MeasurementState := []\<rparr>);
         next \<leftarrow> (if i32_lt repetition (totalRepetitions (Spec experiment)) \<and> i32_lt 0 pause
                 then setSubPhase k current SubPhasePause pause
                 else setSubPhase k current SubPhaseIdle 0);
         patchAndReturn k ''cleanup'' next experiment Requeue
       }
   }"

section \<open>Dispatch and reconcile\<close>

definition dispatchSubPhase :: "'w env \<Rightarrow> Experiment \<Rightarrow> ('w kst, outcome) state" where
  "dispatchSubPhase k experiment =
     (case SubPhase (Status experiment) of
        SubPhaseIdle \<Rightarrow> handleIdle k experiment
      | SubPhaseDeploying \<Rightarrow> handleDeploying k experiment
      | SubPhaseWaitingForTopology \<Rightarrow> handleWaitingForTopology k experiment
      | SubPhaseTopologyDelay \<Rightarrow> handleTopologyDelay k experiment
      | SubPhaseLoadDelay \<Rightarrow> handleTimedWait k experiment SubPhasePreChaosMeasurement
          (derefOr (ChaosDelay (Duration (Spec experiment))) 0)
      | SubPhasePreChaosMeasurement \<Rightarrow> handleMeasurement k experiment SubPhaseApplyingChaos
      | SubPhaseApplyingChaos \<Rightarrow> handleApplyingChaos k experiment
      | SubPhaseChaosMeasurement \<Rightarrow> handleMeasurement k experiment SubPhaseCleanup
      | SubPhaseCleanup \<Rightarrow> handleCleanup k experiment
      | SubPhasePause \<Rightarrow> handleTimedWait k experiment SubPhaseIdle 0
      | SubPhaseOther s \<Rightarrow> ret (Returned NoRequeue (Some (errorf (''unknown sub-phase '' @ quote s)))))"

definition terminal :: "ExperimentPhase \<Rightarrow> bool" where
  "terminal phase \<longleftrightarrow> phase = PhaseSucceeded \<or> phase = PhaseFailed"

definition Reconcile :: "'w env \<Rightarrow> string \<Rightarrow> string \<Rightarrow> ('w kst, outcome) state" where
  "Reconcile k ns name = do {
     r \<leftarrow> getExperiment k ns name;
     case r of
       Inl e \<Rightarrow> ret (Returned NoRequeue (if isNotFound e then None else Some e))
     | Inr experiment \<Rightarrow>
         if terminal (Phase (Status experiment)) then ret (Returned NoRequeue None)
         else if i32_le (totalRepetitions (Spec experiment)) (RepetitionsCompleted (Status experiment))
         then do {
           completed \<leftarrow> now k;
           err \<leftarrow> setPhase k (withStatus experiment (\<lambda>st. st\<lparr>CompletionTime := Some completed\<rparr>)) PhaseSucceeded '''';
           ret (Returned NoRequeue (map_option (wrapf ''set phase Succeeded'') err))
         }
         else dispatchSubPhase k experiment
   }"

end
