(* ===== verification/Lifecycle.thy ===== *)
theory Lifecycle
  imports Api_Types
begin

text \<open>
  The abstract specification of an experiment's life: what of its status decides the course of a run,
  which steps it may take, and what follows from these steps alone. That the reconciler takes no other
  steps is shown in the theory of the reconciler.
\<close>

section \<open>Invariants and ranks of step relations\<close>

locale guarded_system =
  fixes init :: "'s \<Rightarrow> bool" and step :: "'s \<Rightarrow> 's \<Rightarrow> bool" and inv :: "'s \<Rightarrow> bool"
  assumes init_inv: "init s \<Longrightarrow> inv s"
    and step_inv: "inv s \<Longrightarrow> step s t \<Longrightarrow> inv t"
begin

lemma steps_inv: "step\<^sup>*\<^sup>* s t \<Longrightarrow> inv s \<Longrightarrow> inv t"
  by (induction rule: rtranclp_induct) (auto intro: step_inv)

lemma reachable_inv: "init s \<Longrightarrow> step\<^sup>*\<^sup>* s t \<Longrightarrow> inv t"
  using steps_inv init_inv by blast

end

text \<open>A system in which every step that is not a stutter lowers a rank.\<close>

locale ranked_system = guarded_system +
  fixes rank :: "'s \<Rightarrow> nat" and still :: "'s \<Rightarrow> 's \<Rightarrow> bool"
  assumes step_rank: "inv s \<Longrightarrow> step s t \<Longrightarrow> still s t \<or> rank t < rank s"
    and still_rank: "still s t \<Longrightarrow> rank t = rank s"
begin

fun run_moves :: "'s \<Rightarrow> 's list \<Rightarrow> nat" where
  "run_moves s [] = 0"
| "run_moves s (t # ts) = (if still s t then 0 else 1) + run_moves t ts"

fun run_steps :: "'s \<Rightarrow> 's list \<Rightarrow> bool" where
  "run_steps s [] = True"
| "run_steps s (t # ts) = (step s t \<and> run_steps t ts)"

lemma moves_bounded: "inv s \<Longrightarrow> run_steps s ts \<Longrightarrow> run_moves s ts + rank (last (s # ts)) \<le> rank s"
proof (induction ts arbitrary: s)
  case (Cons t ts)
  from Cons.prems have st: "step s t" and ts: "run_steps t ts" by simp_all
  have "inv t" using Cons.prems(1) st by (rule step_inv)
  from Cons.IH [OF this ts] have "run_moves t ts + rank (last (t # ts)) \<le> rank t" .
  then show ?case using step_rank [OF Cons.prems(1) st] still_rank [of s t] by auto
qed simp

lemma moves_finite: "inv s \<Longrightarrow> run_steps s ts \<Longrightarrow> run_moves s ts \<le> rank s"
  using moves_bounded by fastforce

end

section \<open>The life of an experiment\<close>

text \<open>What of the specification matters: is there a topology, a chaos phase, a pause; how many
  repetitions and SLOs.\<close>

record plan =
  withTopology :: bool
  withChaos :: bool
  pauses :: bool
  total :: int
  slos :: nat

text \<open>And of the status: phase, sub-phase, repetitions done, number of measurement states.\<close>

datatype life = Life (lPhase: ExperimentPhase) (lSub: ExperimentSubPhase) (lReps: int) (lMeasured: nat)

definition window :: "plan \<Rightarrow> nat \<Rightarrow> nat" where
  "window p m = (if m = 0 then slos p else m)"

definition live :: "plan \<Rightarrow> life \<Rightarrow> bool" where
  "live p l \<longleftrightarrow> lPhase l \<noteq> PhaseSucceeded \<and> lPhase l \<noteq> PhaseFailed \<and> lReps l < total p"

inductive transition :: "plan \<Rightarrow> life \<Rightarrow> life \<Rightarrow> bool" for p where
  begins: "live p (Life ph SubPhaseIdle r m) \<Longrightarrow>
    transition p (Life ph SubPhaseIdle r m) (Life PhaseRunning SubPhaseDeploying r 0)"
| deployed: "live p (Life ph SubPhaseDeploying r m) \<Longrightarrow> \<not> withTopology p \<Longrightarrow>
    transition p (Life ph SubPhaseDeploying r m) (Life ph SubPhaseLoadDelay r m)"
| deployed_first: "live p (Life ph SubPhaseDeploying r m) \<Longrightarrow> withTopology p \<Longrightarrow>
    transition p (Life ph SubPhaseDeploying r m) (Life ph SubPhaseTopologyDelay r m)"
| activated: "live p (Life ph SubPhaseTopologyDelay r m) \<Longrightarrow> withTopology p \<Longrightarrow>
    transition p (Life ph SubPhaseTopologyDelay r m) (Life ph SubPhaseWaitingForTopology r m)"
| topology_active: "live p (Life ph SubPhaseWaitingForTopology r m) \<Longrightarrow> withTopology p \<Longrightarrow>
    transition p (Life ph SubPhaseWaitingForTopology r m) (Life ph SubPhaseLoadDelay r m)"
| load_over: "live p (Life ph SubPhaseLoadDelay r m) \<Longrightarrow>
    transition p (Life ph SubPhaseLoadDelay r m) (Life ph SubPhasePreChaosMeasurement r m)"
| measured_before: "live p (Life ph SubPhasePreChaosMeasurement r m) \<Longrightarrow> withChaos p \<Longrightarrow>
    transition p (Life ph SubPhasePreChaosMeasurement r m) (Life ph SubPhaseApplyingChaos r (window p m))"
| measured_without: "live p (Life ph SubPhasePreChaosMeasurement r m) \<Longrightarrow> \<not> withChaos p \<Longrightarrow>
    transition p (Life ph SubPhasePreChaosMeasurement r m) (Life ph SubPhaseChaosMeasurement r 0)"
| chaos_applied: "live p (Life ph SubPhaseApplyingChaos r m) \<Longrightarrow> withChaos p \<Longrightarrow>
    transition p (Life ph SubPhaseApplyingChaos r m) (Life ph SubPhaseChaosMeasurement r 0)"
| measured: "live p (Life ph SubPhaseChaosMeasurement r m) \<Longrightarrow>
    transition p (Life ph SubPhaseChaosMeasurement r m) (Life ph SubPhaseCleanup r (window p m))"
| cleaned: "live p (Life ph SubPhaseCleanup r m) \<Longrightarrow> \<not> (pauses p \<and> r + 1 < total p) \<Longrightarrow>
    transition p (Life ph SubPhaseCleanup r m) (Life ph SubPhaseIdle (r + 1) 0)"
| cleaned_pause: "live p (Life ph SubPhaseCleanup r m) \<Longrightarrow> pauses p \<Longrightarrow> r + 1 < total p \<Longrightarrow>
    transition p (Life ph SubPhaseCleanup r m) (Life ph SubPhasePause (r + 1) 0)"
| pause_over: "live p (Life ph SubPhasePause r m) \<Longrightarrow>
    transition p (Life ph SubPhasePause r m) (Life ph SubPhaseIdle r m)"
| waits: "live p (Life ph sp r m) \<Longrightarrow>
    sp \<in> {SubPhaseTopologyDelay, SubPhaseWaitingForTopology, SubPhaseLoadDelay, SubPhasePause} \<Longrightarrow>
    transition p (Life ph sp r m) (Life ph sp r m)"
| samples: "live p (Life ph sp r m) \<Longrightarrow> sp \<in> {SubPhasePreChaosMeasurement, SubPhaseChaosMeasurement} \<Longrightarrow>
    transition p (Life ph sp r m) (Life ph sp r (window p m))"
| fails: "live p (Life ph sp r m) \<Longrightarrow>
    sp \<in> {SubPhaseDeploying, SubPhaseTopologyDelay, SubPhaseWaitingForTopology, SubPhasePreChaosMeasurement,
          SubPhaseApplyingChaos, SubPhaseChaosMeasurement, SubPhaseCleanup} \<Longrightarrow>
    transition p (Life ph sp r m) (Life PhaseFailed sp r m)"
| finishes: "ph \<noteq> PhaseSucceeded \<Longrightarrow> ph \<noteq> PhaseFailed \<Longrightarrow> total p \<le> r \<Longrightarrow>
    transition p (Life ph sp r m) (Life PhaseSucceeded sp r m)"

inductive_cases transitionE: "transition p l l'"

inductive_simps transition_simps: "transition p (Life ph sp r m) l'"

section \<open>Invariant and rank\<close>

text \<open>
  In every reachable state the repetitions are between 0 and the total, the number of measurement states
  is 0 or that of the SLOs, sub-phases that need a topology or a chaos phase have one, and success is
  reported only when all repetitions are done.
\<close>

definition fresh :: "plan \<Rightarrow> life \<Rightarrow> bool" where
  "fresh p l \<longleftrightarrow> 0 < total p \<and> lSub l = SubPhaseIdle \<and> lReps l = 0 \<and> lMeasured l = 0 \<and>
     lPhase l \<in> {PhaseEmpty, PhasePending, PhaseRunning}"

definition lifeInv :: "plan \<Rightarrow> life \<Rightarrow> bool" where
  "lifeInv p l \<longleftrightarrow> 0 \<le> lReps l \<and> lReps l \<le> total p \<and> lMeasured l \<in> {0, slos p} \<and>
     (lSub l \<in> {SubPhaseTopologyDelay, SubPhaseWaitingForTopology} \<longrightarrow> withTopology p) \<and>
     (lSub l = SubPhaseApplyingChaos \<longrightarrow> withChaos p) \<and> (\<forall>s. lSub l \<noteq> SubPhaseOther s) \<and>
     (lReps l = total p \<longrightarrow> lSub l = SubPhaseIdle) \<and>
     (lPhase l = PhaseSucceeded \<longrightarrow> lReps l = total p)"

lemma fresh_inv: "fresh p l \<Longrightarrow> lifeInv p l"
  by (auto simp: fresh_def lifeInv_def)

lemma transition_inv: "lifeInv p l \<Longrightarrow> transition p l l' \<Longrightarrow> lifeInv p l'"
  by (erule transitionE) (auto simp: lifeInv_def live_def window_def)

text \<open>How much of the run is left: whole repetitions, and sub-phases of the current one.\<close>

fun left :: "ExperimentSubPhase \<Rightarrow> nat" where
  "left SubPhasePause = 11"
| "left SubPhaseIdle = 10"
| "left p = 10 - subPhaseRank p"

definition lifeRank :: "plan \<Rightarrow> life \<Rightarrow> nat" where
  "lifeRank p l = (if lPhase l = PhaseSucceeded \<or> lPhase l = PhaseFailed then 0
     else 1 + (nat (total p - lReps l) * 10 + left (lSub l)))"

definition sameStage :: "life \<Rightarrow> life \<Rightarrow> bool" where
  "sameStage l l' \<longleftrightarrow> lPhase l = lPhase l' \<and> lSub l = lSub l' \<and> lReps l = lReps l'"

lemma one_less: "r < n \<Longrightarrow> nat (n - r) = Suc (nat (n - (r + 1)))"
  by linarith

lemma transition_rank:
  "transition p l l' \<Longrightarrow> sameStage l l' \<or> lifeRank p l' < lifeRank p l"
proof (induction rule: transition.induct)
  case (cleaned ph r m)
  then show ?case using one_less [of r "total p"] by (simp add: lifeRank_def live_def)
next
  case (cleaned_pause ph r m)
  then show ?case using one_less [of r "total p"] by (simp add: lifeRank_def live_def)
qed (auto simp: lifeRank_def live_def sameStage_def)

interpretation expLife: ranked_system "fresh p" "transition p" "lifeInv p" "lifeRank p" sameStage for p :: plan
  by unfold_locales
    (auto intro: fresh_inv transition_inv dest: transition_rank simp: sameStage_def lifeRank_def)

end
