(* ===== verification/Experiment_Refines.thy ===== *)
theory Experiment_Refines
  imports Experiment_Ctl Lifecycle
begin

text \<open>
  The reconciler implements the abstract life of an experiment: whatever the API server, Prometheus and
  the clock answer, one call of \<open>Reconcile\<close> writes the status at most once, as its last call, and what
  this write changes is a transition of the abstract specification.
\<close>

section \<open>Abstraction\<close>

definition lifeOf :: "ExperimentStatus \<Rightarrow> life" where
  "lifeOf st = Life (Phase st) (SubPhase st) (sint (RepetitionsCompleted st)) (length (MeasurementState st))"

definition planOf :: "ExperimentSpec \<Rightarrow> plan" where
  "planOf spec = \<lparr>withTopology = (ExpTopologyRef spec \<noteq> None), withChaos = (ChaosPhaseRef spec \<noteq> None),
     pauses = i32_lt 0 (PauseBetweenRepetitions (Duration spec)), total = sint (totalRepetitions spec),
     slos = length (SLOs spec)\<rparr>"

text \<open>
  A merge patch changes the fields in which the new object differs from its base, and no others; lists
  are replaced as a whole.
\<close>

definition mergeField :: "'a \<Rightarrow> 'a \<Rightarrow> 'a \<Rightarrow> 'a" where
  "mergeField stored base new = (if new = base then stored else new)"

definition mergeStatus :: "ExperimentStatus \<Rightarrow> ExperimentStatus \<Rightarrow> ExperimentStatus \<Rightarrow> ExperimentStatus" where
  "mergeStatus stored base new =
     \<lparr>Phase = mergeField (Phase stored) (Phase base) (Phase new),
      SubPhase = mergeField (SubPhase stored) (SubPhase base) (SubPhase new),
      SubPhaseStartTime = mergeField (SubPhaseStartTime stored) (SubPhaseStartTime base) (SubPhaseStartTime new),
      SubPhaseDuration = mergeField (SubPhaseDuration stored) (SubPhaseDuration base) (SubPhaseDuration new),
      SubPhaseElapsed = mergeField (SubPhaseElapsed stored) (SubPhaseElapsed base) (SubPhaseElapsed new),
      MeasurementState = mergeField (MeasurementState stored) (MeasurementState base) (MeasurementState new),
      ExperimentID = mergeField (ExperimentID stored) (ExperimentID base) (ExperimentID new),
      StTopologyRef = mergeField (StTopologyRef stored) (StTopologyRef base) (StTopologyRef new),
      StartTime = mergeField (StartTime stored) (StartTime base) (StartTime new),
      CompletionTime = mergeField (CompletionTime stored) (CompletionTime base) (CompletionTime new),
      RepetitionsCompleted = mergeField (RepetitionsCompleted stored) (RepetitionsCompleted base) (RepetitionsCompleted new),
      ManifestConfigMaps = mergeField (ManifestConfigMaps stored) (ManifestConfigMaps base) (ManifestConfigMaps new),
      SloResults = mergeField (SloResults stored) (SloResults base) (SloResults new),
      AggregateScore = mergeField (AggregateScore stored) (AggregateScore base) (AggregateScore new),
      Conditions = mergeField (Conditions stored) (Conditions base) (Conditions new)\<rparr>"

lemma mergeStatus_same [simp]: "mergeStatus st st new = new"
  by (simp add: mergeStatus_def mergeField_def)

text \<open>What an experiment has become after the calls of a run, if nobody else writes it.\<close>

fun persist :: "ExperimentStatus \<Rightarrow> call \<times> bool \<Rightarrow> ExperimentStatus" where
  "persist st (StatusPatch (OExperiment new) (OExperiment base), True) = mergeStatus st (Status base) (Status new)"
| "persist st c = st"

definition persisted :: "ExperimentStatus \<Rightarrow> (call \<times> bool) list \<Rightarrow> ExperimentStatus" where
  "persisted st cs = foldl persist st cs"

lemma persist_quiet: "quiet c \<Longrightarrow> persist st c = st"
  by (cases "(st, c)" rule: persist.cases) auto

lemma persisted_quiet: "list_all quiet cs \<Longrightarrow> persisted st cs = st"
  by (induction cs) (simp_all add: persisted_def persist_quiet)

lemma persisted_append: "persisted st (cs @ ds) = persisted (persisted st cs) ds"
  by (simp add: persisted_def)

section \<open>At most one status patch\<close>

text \<open>
  \<open>patchesOnce P m\<close>: \<open>m\<close> writes no status, or exactly one, at the end, patching a new object over a
  base that together satisfy \<open>P\<close>.
\<close>

definition statusOnce :: "(Experiment \<Rightarrow> Experiment \<Rightarrow> bool) \<Rightarrow> (call \<times> bool) list \<Rightarrow> bool" where
  "statusOnce P cs \<longleftrightarrow> list_all quiet cs \<or>
     (\<exists>qs base new b. cs = qs @ [(StatusPatch (OExperiment new) (OExperiment base), b)] \<and> list_all quiet qs \<and> P base new)"

lemma statusOnce_append: "list_all quiet cs \<Longrightarrow> statusOnce P ds \<Longrightarrow> statusOnce P (cs @ ds)"
  unfolding statusOnce_def by (metis append.assoc list_all_append)

lemma statusOnce_Cons: "quiet c \<Longrightarrow> statusOnce P ds \<Longrightarrow> statusOnce P (c # ds)"
  using statusOnce_append [of "[c]"] by simp

lemma statusOnce_mono: "statusOnce P cs \<Longrightarrow> (\<And>base new. P base new \<Longrightarrow> Q base new) \<Longrightarrow> statusOnce Q cs"
  unfolding statusOnce_def by blast

definition patchesOnce :: "(Experiment \<Rightarrow> Experiment \<Rightarrow> bool) \<Rightarrow> ('w kst, 'a) state \<Rightarrow> bool" where
  "patchesOnce P m \<longleftrightarrow> does m (\<lambda>cs _. statusOnce P cs)"

named_theorems once_rules \<open>rules for \<open>patchesOnce\<close>\<close>

lemma once_does: "does m (\<lambda>cs a. list_all quiet cs \<and> patchesOnce P (f a)) \<Longrightarrow> patchesOnce P (m \<bind> f)"
  unfolding patchesOnce_def
  by (intro does_bind) (erule does_mono, auto elim!: does_mono intro: statusOnce_append)

lemma once_quiet [once_rules]: "emits quiet m \<Longrightarrow> (\<And>a. patchesOnce P (f a)) \<Longrightarrow> patchesOnce P (m \<bind> f)"
  by (rule once_does) (auto simp: emits_does elim: does_mono)

lemma once_ret [once_rules]: "patchesOnce P (ret x)"
  by (simp add: patchesOnce_def does_ret statusOnce_def)

lemma once_if [once_rules]:
  "(b \<Longrightarrow> patchesOnce P m) \<Longrightarrow> (\<not> b \<Longrightarrow> patchesOnce P n) \<Longrightarrow> patchesOnce P (if b then m else n)"
  by simp

lemma once_option [once_rules]:
  "(x = None \<Longrightarrow> patchesOnce P m) \<Longrightarrow> (\<And>a. x = Some a \<Longrightarrow> patchesOnce P (f a)) \<Longrightarrow>
   patchesOnce P (case x of None \<Rightarrow> m | Some a \<Rightarrow> f a)"
  by (cases x) simp_all

lemma once_sum [once_rules]:
  "(\<And>a. x = Inl a \<Longrightarrow> patchesOnce P (f a)) \<Longrightarrow> (\<And>b. x = Inr b \<Longrightarrow> patchesOnce P (g b)) \<Longrightarrow>
   patchesOnce P (case x of Inl a \<Rightarrow> f a | Inr b \<Rightarrow> g b)"
  by (cases x) simp_all

lemma once_prod [once_rules]:
  "(\<And>a b. x = (a, b) \<Longrightarrow> patchesOnce P (f a b)) \<Longrightarrow> patchesOnce P (case x of (a, b) \<Rightarrow> f a b)"
  by (cases x) simp

lemma once_let [once_rules]: "(\<And>y. y = x \<Longrightarrow> patchesOnce P (f y)) \<Longrightarrow> patchesOnce P (Let x f)"
  by simp

lemma once_patch [once_rules]: "P base new \<Longrightarrow> patchesOnce P (patchAndReturn k what new base rq)"
  unfolding patchAndReturn_def patchStatus_def patchesOnce_def
  by (intro does_rules) (auto simp: statusOnce_def)

lemma once_setPhase:
  assumes "\<And>c. P e (withStatus e (\<lambda>st. st\<lparr>Phase := ph,
      Conditions := (if ph = PhaseSucceeded \<or> ph = PhaseFailed then Conditions st @ [c] else Conditions st)\<rparr>))"
    and "\<And>r. f r = ret (g r)"
  shows "patchesOnce P (setPhase k e ph msg \<bind> f)"
  unfolding setPhase_def patchStatus_def patchesOnce_def Let_def
  by (intro does_rules) (auto simp: statusOnce_def assms intro!: does_rules)

lemma once_fail [once_rules]:
  assumes "\<And>c. P e (withStatus e (\<lambda>st. st\<lparr>Phase := PhaseFailed, Conditions := Conditions st @ [c]\<rparr>))"
  shows "patchesOnce P (failExperiment k e err)"
  unfolding failExperiment_def by (rule once_setPhase) (simp_all add: assms)

lemma once_setSubPhase [once_rules]:
  assumes "\<And>t. patchesOnce P (f (withStatus e (\<lambda>st. st\<lparr>SubPhase := sp, SubPhaseStartTime := Some t,
      SubPhaseDuration := d, SubPhaseElapsed := 0\<rparr>)))"
  shows "patchesOnce P (setSubPhase k e sp d \<bind> f)"
  by (rule once_does) (auto simp: setSubPhase_def assms intro!: does_rules)


section \<open>The handlers take abstract steps\<close>

definition moves :: "Experiment \<Rightarrow> Experiment \<Rightarrow> Experiment \<Rightarrow> bool" where
  "moves e base new \<longleftrightarrow> Spec new = Spec e \<and> ExpName new = ExpName e \<and> ExpNamespace new = ExpNamespace e \<and>
     CompletionTime (Status new) = CompletionTime (Status base) \<and>
     transition (planOf (Spec e)) (lifeOf (Status e)) (lifeOf (mergeStatus (Status e) (Status base) (Status new)))"

definition active :: "Experiment \<Rightarrow> bool" where
  "active e \<longleftrightarrow> \<not> terminal (Phase (Status e)) \<and>
     i32_lt (RepetitionsCompleted (Status e)) (totalRepetitions (Spec e))"

lemma active_live: "active e \<Longrightarrow> live (planOf (Spec e)) (lifeOf (Status e))"
  by (simp add: active_def live_def lifeOf_def planOf_def terminal_def i32_lt_def)

lemma planOf_sel [simp]:
  "withTopology (planOf s) \<longleftrightarrow> ExpTopologyRef s \<noteq> None" "withChaos (planOf s) \<longleftrightarrow> ChaosPhaseRef s \<noteq> None"
  "pauses (planOf s) \<longleftrightarrow> i32_lt 0 (PauseBetweenRepetitions (Duration s))"
  "total (planOf s) = sint (totalRepetitions s)" "slos (planOf s) = length (SLOs s)"
  by (simp_all add: planOf_def)

lemma sint_plus_one: "i32_lt a b \<Longrightarrow> sint (a + 1 :: int32) = sint a + 1"
  using sint_range [of a] sint_range [of b]
  by (simp add: i32_lt_def sint_word_ariths signed_take_bit_int_eq_self)

lemma live_not_terminal: "live p l \<Longrightarrow> lPhase l \<noteq> PhaseFailed \<and> lPhase l \<noteq> PhaseSucceeded"
  by (simp add: live_def)

text \<open>A failing end keeps what was stored and changes the phase.\<close>

lemma moves_fail:
  assumes "active e" "Spec cur = Spec e" "ExpName cur = ExpName e" "ExpNamespace cur = ExpNamespace e"
    and "Phase (Status cur) = Phase (Status e)"
    and "SubPhase (Status e) \<in> {SubPhaseDeploying, SubPhaseTopologyDelay, SubPhaseWaitingForTopology,
      SubPhasePreChaosMeasurement, SubPhaseApplyingChaos, SubPhaseChaosMeasurement, SubPhaseCleanup}"
  shows "moves e cur (withStatus cur (\<lambda>st. st\<lparr>Phase := PhaseFailed, Conditions := Conditions st @ [c]\<rparr>))"
proof -
  have l: "live (planOf (Spec e)) (Life (Phase (Status e)) (SubPhase (Status e))
      (sint (RepetitionsCompleted (Status e))) (length (MeasurementState (Status e))))"
    using active_live [OF assms(1)] by (simp add: lifeOf_def)
  have "Phase (Status e) \<noteq> PhaseFailed" using assms(1) by (simp add: active_def terminal_def)
  with transition.fails [OF l assms(6)] show ?thesis
    by (simp add: moves_def assms(2-5) lifeOf_def mergeStatus_def mergeField_def)
qed

lemma moves_step:
  assumes "transition (planOf (Spec e)) (lifeOf (Status e)) (lifeOf (Status new))"
    and "Spec new = Spec e" "ExpName new = ExpName e" "ExpNamespace new = ExpNamespace e"
    and "CompletionTime (Status new) = CompletionTime (Status e)"
  shows "moves e e new"
  using assms by (simp add: moves_def)

lemma handleIdle_moves:
  assumes "active e" "SubPhase (Status e) = SubPhaseIdle"
  shows "patchesOnce (moves e) (handleIdle k e)"
  unfolding handleIdle_def
  by (intro once_rules trace_intro moves_step)
    (use active_live [OF assms(1)] assms(2) in \<open>auto simp: lifeOf_def intro: transition.begins\<close>)

lemma applyManifestSets_quiet [trace_intro]: "emits quiet (applyManifestSets k ns i owned sets)"
  by (induction sets arbitrary: owned) (auto intro!: trace_intro)

lemma handleDeploying_moves:
  assumes "active e" "SubPhase (Status e) = SubPhaseDeploying"
  shows "patchesOnce (moves e) (handleDeploying k e)"
  unfolding handleDeploying_def
  by (intro once_rules trace_intro moves_fail moves_step)
    (use active_live [OF assms(1)] assms in
      \<open>auto simp: lifeOf_def afterDeploying_def split: if_splits
        intro: transition.deployed transition.deployed_first\<close>)

lemma handleTopologyDelay_moves:
  assumes "active e" "SubPhase (Status e) = SubPhaseTopologyDelay"
  shows "patchesOnce (moves e) (handleTopologyDelay k e)"
  unfolding handleTopologyDelay_def
  by (intro once_rules trace_intro moves_fail moves_step)
    (use active_live [OF assms(1)] assms in
      \<open>auto simp: lifeOf_def withElapsed_def intro: transition.activated transition.waits\<close>)

lemma handleWaitingForTopology_moves:
  assumes "active e" "SubPhase (Status e) = SubPhaseWaitingForTopology"
  shows "patchesOnce (moves e) (handleWaitingForTopology k e)"
  unfolding handleWaitingForTopology_def giveUpTopology_def get_defs
  by (intro once_rules trace_intro emits_request moves_fail moves_step)
    (use active_live [OF assms(1)] assms in
      \<open>auto simp: lifeOf_def withElapsed_def intro: transition.topology_active transition.waits\<close>)

lemma handleTimedWait_moves:
  assumes "active e" "transition (planOf (Spec e)) (lifeOf (Status e)) (lifeOf ((Status e)\<lparr>SubPhase := sp\<rparr>))"
    and "SubPhase (Status e) \<in> {SubPhaseLoadDelay, SubPhasePause}"
  shows "patchesOnce (moves e) (handleTimedWait k e sp d)"
  unfolding handleTimedWait_def
  by (intro once_rules trace_intro moves_step)
    (use active_live [OF assms(1)] assms in \<open>auto simp: lifeOf_def withElapsed_def intro: transition.waits\<close>)


lemma measureSLOs_does:
  "does (measureSLOs k prom el iv i cfgs states)
    (\<lambda>cs r. list_all quiet cs \<and> (\<forall>st. r = Some st \<longrightarrow> length st = length states))"
proof (induction cfgs arbitrary: i states)
  case (Cons cfg cfgs)
  have q: "does (query k prom (Query cfg)) (\<lambda>cs _. list_all quiet cs)"
    using query_quiet by (simp add: emits_does)
  show ?case
    unfolding measureSLOs.simps
    by (intro does_bind does_mono [OF q] does_prod does_if does_option does_ret does_mono [OF Cons.IH]) auto
qed (simp add: does_ret)

lemma finishMeasurement_moves:
  assumes "active e" "SubPhase (Status e) \<in> {SubPhasePreChaosMeasurement, SubPhaseChaosMeasurement}"
    and "next = (if SubPhase (Status e) = SubPhasePreChaosMeasurement then SubPhaseApplyingChaos else SubPhaseCleanup)"
    and "length states = window (planOf (Spec e)) (length (MeasurementState (Status e)))"
  shows "patchesOnce (moves e) (finishMeasurement k
    (withStatus e (\<lambda>st. st\<lparr>MeasurementState := states, SubPhaseElapsed := el\<rparr>)) e next)"
  unfolding finishMeasurement_def
  by (intro once_rules trace_intro moves_fail moves_step)
    (use active_live [OF assms(1)] assms in
      \<open>auto simp: lifeOf_def split: if_splits
        intro: transition.measured transition.measured_before transition.measured_without\<close>)

lemma handleMeasurement_moves:
  assumes "active e" "SubPhase (Status e) \<in> {SubPhasePreChaosMeasurement, SubPhaseChaosMeasurement}"
    and "next = (if SubPhase (Status e) = SubPhasePreChaosMeasurement then SubPhaseApplyingChaos else SubPhaseCleanup)"
  shows "patchesOnce (moves e) (handleMeasurement k e next)"
proof -
  have len: "length (initialStates (Spec e) (MeasurementState (Status e))) =
      window (planOf (Spec e)) (length (MeasurementState (Status e)))"
    by (simp add: initialStates_def window_def)
  have sample: "moves e e (withStatus e (\<lambda>st. st\<lparr>MeasurementState := states, SubPhaseElapsed := el\<rparr>))"
    if "length states = window (planOf (Spec e)) (length (MeasurementState (Status e)))" for states el
    using active_live [OF assms(1)] assms(2) that
    by (intro moves_step) (auto simp: lifeOf_def intro: transition.samples)
  show ?thesis
    unfolding handleMeasurement_def
    by (intro once_rules trace_intro once_does [OF does_mono [OF measureSLOs_does]])
      (auto simp: len intro!: once_rules finishMeasurement_moves sample assms)
qed

lemma handleApplyingChaos_moves:
  assumes "active e" "SubPhase (Status e) = SubPhaseApplyingChaos"
  shows "patchesOnce (moves e) (handleApplyingChaos k e)"
  unfolding handleApplyingChaos_def get_defs
  by (intro once_rules trace_intro emits_request moves_fail moves_step)
    (use active_live [OF assms(1)] assms in \<open>auto simp: lifeOf_def intro: transition.chaos_applied\<close>)

lemma if_setSubPhase:
  "(if b then setSubPhase k e p d else setSubPhase k e p' d') = setSubPhase k e (if b then p else p') (if b then d else d')"
  by simp

lemma handleCleanup_moves:
  assumes "active e" "SubPhase (Status e) = SubPhaseCleanup"
  shows "patchesOnce (moves e) (handleCleanup k e)"
proof -
  let ?r = "RepetitionsCompleted (Status e)"
  have r: "sint (?r + 1) = sint ?r + 1" using assms(1) sint_plus_one by (auto simp: active_def)
  have l: "live (planOf (Spec e)) (Life (Phase (Status e)) SubPhaseCleanup (sint ?r) (length (MeasurementState (Status e))))"
    using active_live [OF assms(1)] assms(2) by (simp add: lifeOf_def)
  have over: "transition (planOf (Spec e)) (lifeOf (Status e))
      (Life (Phase (Status e)) (if i32_lt (?r + 1) (totalRepetitions (Spec e)) \<and> i32_lt 0 (PauseBetweenRepetitions (Duration (Spec e)))
        then SubPhasePause else SubPhaseIdle) (sint ?r + 1) 0)"
    using transition.cleaned [OF l] transition.cleaned_pause [OF l] assms(2) r
    by (auto simp: lifeOf_def i32_lt_def [of "?r + 1"])
  show ?thesis
    unfolding handleCleanup_def Let_def if_setSubPhase
    by (intro once_rules trace_intro moves_fail moves_step)
      (use over assms r in \<open>simp_all add: lifeOf_def split del: if_split\<close>)
qed

lemma dispatchSubPhase_moves:
  assumes "active e"
  shows "patchesOnce (moves e) (dispatchSubPhase k e)"
proof -
  have "patchesOnce (moves e) (handleTimedWait k e sp d)"
    if "SubPhase (Status e) = SubPhaseLoadDelay \<and> sp = SubPhasePreChaosMeasurement \<or>
      SubPhase (Status e) = SubPhasePause \<and> sp = SubPhaseIdle" for sp d
    using active_live [OF assms] that
    by (intro handleTimedWait_moves assms) (auto simp: lifeOf_def intro: transition.load_over transition.pause_over)
  then show ?thesis
    by (cases "SubPhase (Status e)")
      (auto simp: dispatchSubPhase_def assms intro: once_ret handleIdle_moves handleDeploying_moves
        handleWaitingForTopology_moves handleTopologyDelay_moves handleMeasurement_moves
        handleApplyingChaos_moves handleCleanup_moves)
qed

lemma finish_moves:
  assumes "\<not> terminal (Phase (Status e))" "\<not> active e"
  shows "moves e (withStatus e (\<lambda>st. st\<lparr>CompletionTime := c\<rparr>))
    (withStatus (withStatus e (\<lambda>st. st\<lparr>CompletionTime := c\<rparr>))
      (\<lambda>st. st\<lparr>Phase := PhaseSucceeded, Conditions := Conditions st @ [cond]\<rparr>))"
  using assms
  by (auto simp: moves_def active_def terminal_def lifeOf_def mergeStatus_def mergeField_def i32_le_def i32_lt_def
      intro: transition.finishes)

text \<open>What a reconcile does after it has read the experiment.\<close>

definition reconcileExperiment :: "'w env \<Rightarrow> Experiment \<Rightarrow> ('w kst, outcome) state" where
  "reconcileExperiment k e =
     (if terminal (Phase (Status e)) then ret (Returned NoRequeue None)
      else if i32_le (totalRepetitions (Spec e)) (RepetitionsCompleted (Status e))
      then do {
        completed \<leftarrow> now k;
        err \<leftarrow> setPhase k (withStatus e (\<lambda>st. st\<lparr>CompletionTime := Some completed\<rparr>)) PhaseSucceeded '''';
        ret (Returned NoRequeue (map_option (wrapf ''set phase Succeeded'') err))
      }
      else dispatchSubPhase k e)"

lemma reconcileExperiment_moves: "patchesOnce (moves e) (reconcileExperiment k e)"
proof -
  have "patchesOnce (moves e) (reconcileExperiment k e)" if "\<not> terminal (Phase (Status e))" "\<not> active e"
  proof -
    from that have "i32_le (totalRepetitions (Spec e)) (RepetitionsCompleted (Status e))" by (simp add: active_def)
    with that show ?thesis
      unfolding reconcileExperiment_def
      by (auto intro!: once_rules trace_intro once_setPhase finish_moves)
  qed
  moreover have "patchesOnce (moves e) (reconcileExperiment k e)" if "active e"
    using that dispatchSubPhase_moves [OF that] by (auto simp: reconcileExperiment_def active_def simp flip: not_i32_lt)
  ultimately show ?thesis
    by (cases "active e") (auto simp: reconcileExperiment_def intro: once_ret)
qed

lemma Reconcile_reads:
  assumes "fst (eGetExperiment k ns name (world s)) = Inr e" "run (Reconcile k ns name) s = (out, s')"
  obtains s1 where "run (reconcileExperiment k e) s1 = (out, s')"
    "calls s1 = calls s @ [(Get (ObjKey ecoscapeAPIVersion ''Experiment'' ns name), True)]"
  using assms unfolding Reconcile_def get_defs
  by (auto elim!: run_bindE run_requestE simp: reconcileExperiment_def)

lemma Reconcile_once:
  assumes "fst (eGetExperiment k ns name (world s)) = Inr e" "run (Reconcile k ns name) s = (out, s')"
    and "patchesOnce P (reconcileExperiment k e)"
  shows "extends s s'" "statusOnce P (newCalls s s')"
proof -
  obtain s1 where 1: "run (reconcileExperiment k e) s1 = (out, s')"
    and c: "calls s1 = calls s @ [(Get (ObjKey ecoscapeAPIVersion ''Experiment'' ns name), True)]"
    using Reconcile_reads [OF assms(1,2)] .
  from doesD [OF assms(3) [unfolded patchesOnce_def] 1]
  have e1: "extends s1 s'" and o: "statusOnce P (newCalls s1 s')" by auto
  have e0: "extends s s1" using c by (rule extendsI)
  have "newCalls s s1 = [(Get (ObjKey ecoscapeAPIVersion ''Experiment'' ns name), True)]"
    using c by (rule newCalls_append)
  then show "extends s s'" "statusOnce P (newCalls s s')"
    using extends_trans [OF e0 e1] newCalls_trans [OF e0 e1] o by (auto intro: statusOnce_Cons)
qed

lemmas Reconcile_moves = Reconcile_once [OF _ _ reconcileExperiment_moves]

section \<open>No panics\<close>

definition noPanic :: "('w kst, outcome) state \<Rightarrow> bool" where
  "noPanic m \<longleftrightarrow> does m (\<lambda>_ out. out \<noteq> Panicked)"

named_theorems calm \<open>rules for \<open>noPanic\<close>\<close>

lemma calm_does: "does m (\<lambda>_ a. noPanic (f a)) \<Longrightarrow> noPanic (m \<bind> f)"
  unfolding noPanic_def by (rule does_bind)

lemma calm_bind [calm]: "emits quiet m \<Longrightarrow> (\<And>a. noPanic (f a)) \<Longrightarrow> noPanic (m \<bind> f)"
  by (rule calm_does) (auto simp: emits_does elim: does_mono)

lemma calm_ret [calm]: "out \<noteq> Panicked \<Longrightarrow> noPanic (ret out)"
  by (simp add: noPanic_def does_ret)

lemma calm_cases [calm]:
  "(b \<Longrightarrow> noPanic m) \<Longrightarrow> (\<not> b \<Longrightarrow> noPanic m') \<Longrightarrow> noPanic (if b then m else m')"
  "(x = None \<Longrightarrow> noPanic m) \<Longrightarrow> (\<And>a. x = Some a \<Longrightarrow> noPanic (f a)) \<Longrightarrow> noPanic (case x of None \<Rightarrow> m | Some a \<Rightarrow> f a)"
  "(\<And>a. y = Inl a \<Longrightarrow> noPanic (g a)) \<Longrightarrow> (\<And>b. y = Inr b \<Longrightarrow> noPanic (h b)) \<Longrightarrow>
     noPanic (case y of Inl a \<Rightarrow> g a | Inr b \<Rightarrow> h b)"
  "(\<And>a b. z = (a, b) \<Longrightarrow> noPanic (i a b)) \<Longrightarrow> noPanic (case z of (a, b) \<Rightarrow> i a b)"
  "noPanic (j v) \<Longrightarrow> noPanic (Let v j)"
  by (simp_all split: option.split sum.split prod.split)

lemma calm_ends [calm]:
  "noPanic (patchAndReturn k what new base rq)" "noPanic (failExperiment k e err)"
  unfolding patchAndReturn_def patchStatus_def failExperiment_def setPhase_def noPanic_def Let_def
  by (intro does_rules; auto split: option.split)+

lemma measureSLOs_calm:
  assumes "iv \<noteq> 0"
  shows "i + length cfgs \<le> length states \<Longrightarrow> does (measureSLOs k prom el iv i cfgs states) (\<lambda>_ r. r \<noteq> None)"
proof (induction cfgs arbitrary: i states)
  case (Cons cfg cfgs)
  have q: "does (query k prom (Query cfg)) (\<lambda>cs _. list_all quiet cs)"
    using query_quiet by (simp add: emits_does)
  show ?case
    unfolding measureSLOs.simps
    by (intro does_bind does_mono [OF q] does_prod does_if does_option does_ret does_mono [OF Cons.IH])
      (use Cons.prems assms in \<open>auto simp: recordMeasurement_def split: if_splits\<close>)
qed (simp add: does_ret)

text \<open>What the handlers rely on: the references their sub-phase needs, and as many states as SLOs.\<close>

definition wellPosed :: "Experiment \<Rightarrow> bool" where
  "wellPosed e \<longleftrightarrow>
     (SubPhase (Status e) \<in> {SubPhaseTopologyDelay, SubPhaseWaitingForTopology} \<longrightarrow> ExpTopologyRef (Spec e) \<noteq> None) \<and>
     (SubPhase (Status e) = SubPhaseApplyingChaos \<longrightarrow> ChaosPhaseRef (Spec e) \<noteq> None) \<and>
     length (MeasurementState (Status e)) \<in> {0, length (SLOs (Spec e))} \<and> sampleIntervalOf (Spec e) \<noteq> 0"

lemma handleMeasurement_calm: "wellPosed e \<Longrightarrow> noPanic (handleMeasurement k e next)"
  unfolding handleMeasurement_def finishMeasurement_def Let_def
  by (intro calm trace_intro calm_does [OF does_mono [OF measureSLOs_calm]])
    (auto simp: wellPosed_def initialStates_def intro!: calm trace_intro)

lemma dispatchSubPhase_calm: "wellPosed e \<Longrightarrow> noPanic (dispatchSubPhase k e)"
  unfolding dispatchSubPhase_def handleIdle_def handleDeploying_def handleTopologyDelay_def
    handleWaitingForTopology_def giveUpTopology_def handleTimedWait_def handleApplyingChaos_def
    handleCleanup_def Let_def get_defs
  by (cases "SubPhase (Status e)")
    (auto simp: wellPosed_def handleMeasurement_calm intro!: calm trace_intro emits_request split del: if_split)


end
