(* ===== verification/Experiment_Spec.thy ===== *)
theory Experiment_Spec
  imports Experiment_Refines
begin

text \<open>
  What the reconciler of experiments guarantees: over one call, and over any sequence of calls from a
  fresh experiment.
\<close>

section \<open>Sequences of reconciles\<close>

text \<open>
  One reconcile, as seen in the cluster: the experiment it read, and the experiment with the successful
  status patches of the run applied, when the reconciler is the only one to write this status and
  nobody changes the specification.
\<close>

inductive reconciles :: "'w env \<Rightarrow> Experiment \<Rightarrow> Experiment \<Rightarrow> bool" for k where
  "fst (eGetExperiment k ns name (world s)) = Inr e \<Longrightarrow> run (Reconcile k ns name) s = (out, s') \<Longrightarrow>
   reconciles k e (e\<lparr>Status := persisted (Status e) (newCalls s s')\<rparr>)"

inductive_cases reconcilesE: "reconciles k e e'"

lemma persisted_once:
  assumes "statusOnce (moves e) cs"
  shows "persisted (Status e) cs = Status e \<or>
    transition (planOf (Spec e)) (lifeOf (Status e)) (lifeOf (persisted (Status e) cs))"
  using assms unfolding statusOnce_def
proof (elim disjE exE conjE)
  fix qs base new b
  assume "cs = qs @ [(StatusPatch (OExperiment new) (OExperiment base), b)]" "list_all quiet qs" "moves e base new"
  then show ?thesis
    by (cases b) (auto simp: persisted_append persisted_quiet moves_def, simp_all add: persisted_def)
qed (simp add: persisted_quiet)

lemma reconciles_step:
  assumes "reconciles k e e'"
  shows "Spec e' = Spec e \<and> (lifeOf (Status e') = lifeOf (Status e) \<or>
    transition (planOf (Spec e)) (lifeOf (Status e)) (lifeOf (Status e')))"
  using assms
proof cases
  case (1 ns name s out s')
  then show ?thesis using persisted_once [OF Reconcile_moves(2) [OF 1(2,3)]] by auto
qed

text \<open>The runs of the reconciler simulate in the abstract system; a reconcile may also change nothing.\<close>

definition stepOrStay :: "plan \<Rightarrow> life \<Rightarrow> life \<Rightarrow> bool" where
  "stepOrStay p l l' \<longleftrightarrow> l' = l \<or> transition p l l'"

lemma sameStage_refl [simp]: "sameStage l l"
  by (simp add: sameStage_def)

interpretation expRuns: ranked_system "fresh p" "stepOrStay p" "lifeInv p" "lifeRank p" sameStage for p :: plan
  by unfold_locales
    (auto simp: stepOrStay_def intro: expLife.init_inv expLife.step_inv expLife.still_rank
      dest: expLife.step_rank)

lemma reconciles_simulate:
  assumes "(reconciles k)\<^sup>*\<^sup>* e e'"
  shows "Spec e' = Spec e \<and> (stepOrStay (planOf (Spec e)))\<^sup>*\<^sup>* (lifeOf (Status e)) (lifeOf (Status e'))"
  using assms
proof (induction rule: rtranclp_induct)
  case (step d d')
  then have "stepOrStay (planOf (Spec e)) (lifeOf (Status d)) (lifeOf (Status d'))" "Spec d' = Spec e"
    using reconciles_step [OF step(2)] by (auto simp: stepOrStay_def)
  with step.IH show ?case by (auto intro: rtranclp.rtrancl_into_rtrancl)
qed simp

definition freshExperiment :: "Experiment \<Rightarrow> bool" where
  "freshExperiment e \<longleftrightarrow> i32_lt 0 (totalRepetitions (Spec e)) \<and> SubPhase (Status e) = SubPhaseIdle \<and>
     RepetitionsCompleted (Status e) = 0 \<and> MeasurementState (Status e) = [] \<and>
     Phase (Status e) \<in> {PhaseEmpty, PhasePending, PhaseRunning}"

lemma freshExperiment_fresh: "freshExperiment e \<Longrightarrow> fresh (planOf (Spec e)) (lifeOf (Status e))"
  by (simp add: freshExperiment_def fresh_def lifeOf_def i32_lt_def)

lemma reachable_lifeInv:
  "freshExperiment e \<Longrightarrow> (reconciles k)\<^sup>*\<^sup>* e e' \<Longrightarrow> Spec e' = Spec e \<and> lifeInv (planOf (Spec e)) (lifeOf (Status e'))"
  using expRuns.reachable_inv [OF freshExperiment_fresh] reconciles_simulate by blast

fun chain :: "'w env \<Rightarrow> Experiment \<Rightarrow> Experiment list \<Rightarrow> bool" where
  "chain k e [] = True"
| "chain k e (e' # es) = (reconciles k e e' \<and> chain k e' es)"

fun stageChanges :: "Experiment \<Rightarrow> Experiment list \<Rightarrow> nat" where
  "stageChanges e [] = 0"
| "stageChanges e (e' # es) =
     (if sameStage (lifeOf (Status e)) (lifeOf (Status e')) then 0 else 1) + stageChanges e' es"

lemma chain_run:
  "chain k e es \<Longrightarrow> expRuns.run_steps (planOf (Spec e)) (lifeOf (Status e)) (map (\<lambda>d. lifeOf (Status d)) es) \<and>
   expRuns.run_moves (lifeOf (Status e)) (map (\<lambda>d. lifeOf (Status d)) es) = stageChanges e es"
proof (induction es arbitrary: e)
  case (Cons e' es)
  from Cons.prems have e': "reconciles k e e'" "chain k e' es" by simp_all
  have "stepOrStay (planOf (Spec e)) (lifeOf (Status e)) (lifeOf (Status e'))" "Spec e' = Spec e"
    using reconciles_step [OF e'(1)] by (auto simp: stepOrStay_def)
  with Cons.IH [OF e'(2)] show ?case by simp
qed simp

lemmas handler_defs = handleIdle_def handleDeploying_def handleTopologyDelay_def handleWaitingForTopology_def
  giveUpTopology_def handleTimedWait_def handleMeasurement_def finishMeasurement_def handleApplyingChaos_def
  handleCleanup_def

lemma measureSLOs_quiet [trace_intro]: "emits quiet (measureSLOs k prom el iv i cfgs states)"
  using measureSLOs_does unfolding emits_does by (rule does_mono) simp

text \<open>What a status patch may do to the identity of the run that was read.\<close>

definition keepsRun :: "Experiment \<Rightarrow> Experiment \<Rightarrow> Experiment \<Rightarrow> bool" where
  "keepsRun e base new \<longleftrightarrow>
     (ExperimentID (Status e) \<noteq> [] \<longrightarrow>
        ExperimentID (Status base) = ExperimentID (Status e) \<and> ExperimentID (Status new) = ExperimentID (Status e)) \<and>
     (StartTime (Status e) \<noteq> None \<longrightarrow> StartTime (Status base) = StartTime (Status e) \<and> StartTime (Status new) = StartTime (Status e)) \<and>
     CompletionTime (Status new) = CompletionTime (Status base)"

lemma keepsRunI:
  "ExperimentID (Status base) = ExperimentID (Status e) \<Longrightarrow> ExperimentID (Status new) = ExperimentID (Status e) \<Longrightarrow>
   StartTime (Status base) = StartTime (Status e) \<Longrightarrow> StartTime (Status new) = StartTime (Status e) \<Longrightarrow>
   CompletionTime (Status new) = CompletionTime (Status base) \<Longrightarrow> keepsRun e base new"
  by (simp add: keepsRun_def)

lemma handleIdle_keeps: "patchesOnce (keepsRun e) (handleIdle k e)"
proof -
  let ?i = "if ExperimentID (Status e) = '''' then randomID k 5 else ret (ExperimentID (Status e))"
  have i: "does ?i (\<lambda>cs i. list_all quiet cs \<and> (ExperimentID (Status e) \<noteq> [] \<longrightarrow> i = ExperimentID (Status e)))"
    by (auto intro!: does_ret does_mono [OF randomID_quiet [unfolded emits_does]])
  show ?thesis
    unfolding handleIdle_def
    by (rule once_does, rule does_mono [OF i])
      (auto simp: keepsRun_def split: option.splits intro!: once_does does_ret does_bind does_now once_patch)
qed

lemma handlers_keep:
  "patchesOnce (keepsRun e) (handleIdle k e)"
  "patchesOnce (keepsRun e) (handleDeploying k e)"
  "patchesOnce (keepsRun e) (handleTopologyDelay k e)"
  "patchesOnce (keepsRun e) (handleWaitingForTopology k e)"
  "patchesOnce (keepsRun e) (handleTimedWait k e sp d)"
  "patchesOnce (keepsRun e) (handleMeasurement k e sp)"
  "patchesOnce (keepsRun e) (handleApplyingChaos k e)"
  "patchesOnce (keepsRun e) (handleCleanup k e)"
  unfolding handleDeploying_def handleTopologyDelay_def handleWaitingForTopology_def
    giveUpTopology_def handleTimedWait_def handleMeasurement_def finishMeasurement_def handleApplyingChaos_def
    handleCleanup_def Let_def get_defs if_setSubPhase
  by (rule handleIdle_keeps)
    (intro once_rules trace_intro emits_request keepsRunI; simp add: withElapsed_def)+

lemma reconcileExperiment_keeps: "patchesOnce (keepsRun e) (reconcileExperiment k e)"
proof -
  have "patchesOnce (keepsRun e) (dispatchSubPhase k e)"
    unfolding dispatchSubPhase_def
    by (cases "SubPhase (Status e)") (auto intro: handlers_keep once_ret)
  then show ?thesis
    unfolding reconcileExperiment_def
    by (auto intro!: once_rules trace_intro once_setPhase keepsRunI)
qed

text \<open>The identity of the run in a stored status is the same in another.\<close>

definition sameRun :: "ExperimentStatus \<Rightarrow> ExperimentStatus \<Rightarrow> bool" where
  "sameRun st st' \<longleftrightarrow> (ExperimentID st \<noteq> '''' \<longrightarrow> ExperimentID st' = ExperimentID st) \<and>
     (StartTime st \<noteq> None \<longrightarrow> StartTime st' = StartTime st) \<and> CompletionTime st' = CompletionTime st"

lemma sameRun_trans: "sameRun st st' \<Longrightarrow> sameRun st' st'' \<Longrightarrow> sameRun st st''"
  by (auto simp: sameRun_def)

lemma keepsRun_persisted:
  assumes "statusOnce (keepsRun e) cs"
  shows "sameRun (Status e) (persisted (Status e) cs)"
  using assms unfolding statusOnce_def
proof (elim disjE exE conjE)
  fix qs base new b
  assume "cs = qs @ [(StatusPatch (OExperiment new) (OExperiment base), b)]" "list_all quiet qs" "keepsRun e base new"
  then show ?thesis
    by (cases b) (simp_all add: persisted_append persisted_quiet, auto simp: persisted_def keepsRun_def sameRun_def mergeStatus_def mergeField_def)
qed (simp add: persisted_quiet sameRun_def)

lemma reconciles_sameRun: "(reconciles k)\<^sup>*\<^sup>* e e' \<Longrightarrow> sameRun (Status e) (Status e')"
proof (induction rule: rtranclp_induct)
  case (step d d')
  then obtain ns name s out s' where r: "fst (eGetExperiment k ns name (world s)) = Inr d" "run (Reconcile k ns name) s = (out, s')"
    "d' = d\<lparr>Status := persisted (Status d) (newCalls s s')\<rparr>" by (elim reconcilesE)
  have "sameRun (Status d) (Status d')"
    using keepsRun_persisted [OF Reconcile_once(2) [OF r(1,2) reconcileExperiment_keeps]] by (simp add: r(3))
  with step.IH show ?case by (rule sameRun_trans)
qed (simp add: sameRun_def)

section \<open>What the handlers leave behind, and what they remove\<close>

fun noCreate :: "call \<times> bool \<Rightarrow> bool" where
  "noCreate (Create obj, b) = False"
| "noCreate (c, b) = True"

lemma noCreate_createdObjects: "list_all noCreate cs \<Longrightarrow> createdObjects cs = []"
proof (induction cs)
  case (Cons c cs)
  then show ?case by (cases c rule: createdObject.cases) simp_all
qed simp

lemma cleanup_noCreate: "emits noCreate (cleanup k ns owned)" "emits noCreate (cleanupChaosPhase k refs)"
  unfolding cleanup_def undeployManifests_def deleteManifests_def deleteConfigMap_def deleteEntry_def get_defs
    cleanupChaosPhase_def cleanupRef_def
  by (intro trace_intro emits_request emits_perform; simp)+

text \<open>The status patches among some calls only report failure.\<close>

fun failsOnly :: "call \<times> bool \<Rightarrow> bool" where
  "failsOnly (StatusPatch (OExperiment new) base, b) = (Phase (Status new) = PhaseFailed)"
| "failsOnly (c, b) = True"

lemma quiet_failsOnly: "quiet c \<Longrightarrow> failsOnly c"
  by (cases c rule: failsOnly.cases) simp_all

lemma emits_failsOnly: "emits quiet m \<Longrightarrow> does m (\<lambda>cs _. list_all failsOnly cs)"
  unfolding emits_does by (erule does_mono) (auto simp: list_all_iff intro: quiet_failsOnly)

lemma failExperiment_does: "does (failExperiment k e err) (\<lambda>cs _. list_all failsOnly cs)"
  unfolding failExperiment_def setPhase_def patchStatus_def Let_def
  by (intro does_rules) simp

lemma patchAndReturn_does:
  "does (patchAndReturn k what next e rq) (\<lambda>cs _. \<exists>b. cs = [(StatusPatch (OExperiment next) (OExperiment e), b)])"
  unfolding patchAndReturn_def patchStatus_def by (intro does_rules) auto

lemma setSubPhase_does:
  "does (setSubPhase k e sp d) (\<lambda>cs x. cs = [] \<and> (\<exists>t. x = withStatus e (\<lambda>st. st\<lparr>SubPhase := sp,
     SubPhaseStartTime := Some t, SubPhaseDuration := d, SubPhaseElapsed := 0\<rparr>)))"
  unfolding setSubPhase_def by (intro does_rules) auto

fun recorded :: "'w env \<Rightarrow> Unstructured list \<Rightarrow> call \<times> bool \<Rightarrow> bool" where
  "recorded k us (StatusPatch (OExperiment new) base, b) =
     (Phase (Status new) \<noteq> PhaseFailed \<longrightarrow> (\<forall>u \<in> set us. objectRef k u \<in> set (ManifestConfigMaps (Status new))))"
| "recorded k us (c, b) = True"

lemma failsOnly_recorded: "failsOnly c \<Longrightarrow> recorded k us c"
  by (cases c rule: failsOnly.cases) simp_all

definition chaosRecorded :: "'w env \<Rightarrow> (call \<times> bool) list \<Rightarrow> bool" where
  "chaosRecorded k cs \<longleftrightarrow> list_all (recorded k (createdObjects cs)) cs"

lemma failsOnly_list: "list_all failsOnly cs \<Longrightarrow> list_all (recorded k us) cs"
  by (auto simp: list_all_iff intro: failsOnly_recorded)

lemma applyChaosPhase_does:
  assumes "groupLaw k"
  shows "does (applyChaosPhase k cp i) (\<lambda>cs (refs, err). list_all failsOnly cs \<and>
      (err = None \<longrightarrow> refs = map (objectRef k) (createdObjects cs)))"
  unfolding applyChaosPhase_def
  by (rule does_mono [OF does_conj [OF applyFaults_emits [unfolded emits_does] applyFaults_refs [OF assms]]])
    (auto simp: list_all_iff intro!: quiet_failsOnly quiet_createsOnly)

lemma handleApplyingChaos_refs:
  assumes "groupLaw k"
  shows "does (handleApplyingChaos k e) (\<lambda>cs _. chaosRecorded k cs)"
proof -
  have clean: "does (cleanup k ns owned) (\<lambda>cs _. list_all failsOnly cs)" "does (cleanupChaosPhase k refs) (\<lambda>cs _. list_all failsOnly cs)"
    for ns owned refs
    by (intro emits_failsOnly trace_intro)+
  have get: "does (getChaosPhase k ns n) (\<lambda>cs r. \<exists>b. cs = [(Get (ObjKey ecoscapeAPIVersion ''ChaosPhase'' ns n), b)])" for ns n
    unfolding getChaosPhase_def by (intro does_rules) simp
  show ?thesis
    unfolding handleApplyingChaos_def Let_def
    by (intro does_option does_ret does_bind does_mono [OF get] does_sum does_mono [OF clean(1)]
        does_mono [OF clean(2)] does_mono [OF failExperiment_does] does_mono [OF applyChaosPhase_does [OF assms]] does_prod
        does_mono [OF setSubPhase_does] does_mono [OF patchAndReturn_does])
      (auto simp: chaosRecorded_def failsOnly_list)
qed

lemma cleanupChaosPhase_does:
  "does (cleanupChaosPhase k refs) (\<lambda>cs _. map fst cs = concat (map (refDeletion k) refs))"
  unfolding does_def
proof (intro allI impI conjI)
  fix s r s'
  assume r: "run (cleanupChaosPhase k refs) s = (r, s')"
  show e: "extends s s'" using emits_extends [OF cleanupChaosPhase_quiet r] .
  show "map fst (newCalls s s') = concat (map (refDeletion k) refs)"
    using cleanupChaosPhase_issues [of k refs s] r issued_newCalls [OF e] by simp
qed

lemma once_does_any: "patchesOnce P m \<Longrightarrow> (\<And>cs r. Q cs r) \<Longrightarrow> does m Q"
  unfolding patchesOnce_def by (erule does_mono)

lemma handleCleanup_deletes:
  assumes "run (handleCleanup k e) t = (out, t')"
  shows "set (concat (map (refDeletion k) (ManifestConfigMaps (Status e)))) \<subseteq> set (issued t')"
proof -
  have "does (handleCleanup k e)
      (\<lambda>cs _. set (concat (map (refDeletion k) (ManifestConfigMaps (Status e)))) \<subseteq> set (map fst cs))"
    unfolding handleCleanup_def Let_def if_setSubPhase
    by (intro does_bind [of "cleanupChaosPhase _ _"] does_mono [OF cleanupChaosPhase_does])
      (intro once_does_any [where P = "\<lambda>_ _. True"] once_rules trace_intro TrueI, metis UnI1 map_append set_append subsetI)
  from doesD [OF this assms] show ?thesis using issued_newCalls [of t t'] by auto
qed









lemma undeploy_does:
  "does (undeployManifests k ns n)
     (\<lambda>cs _. (Get (cmKey ns n), False) \<in> set cs \<or> Delete (cmKey ns n) \<in> set (map fst cs))"
proof -
  have "emits (\<lambda>_. True) (deleteManifests k cm)" for cm
    unfolding deleteManifests_def deleteEntry_def by (intro trace_intro emits_perform TrueI)
  then have del: "does (deleteManifests k cm) (\<lambda>_ _. True)" for cm
    unfolding emits_does by (rule does_mono) simp
  show ?thesis
    unfolding undeployManifests_def deleteConfigMap_def get_defs
    by (intro does_bind does_request does_sum does_ret does_mono [OF del] does_perform) auto
qed

lemma cleanup_does:
  "does (cleanup k ns names)
     (\<lambda>cs _. \<forall>n \<in> set names. (Get (cmKey ns n), False) \<in> set cs \<or> Delete (cmKey ns n) \<in> set (map fst cs))"
  unfolding cleanup_def
proof (induction names)
  case (Cons n names)
  show ?case
    unfolding forEach.simps
    by (intro does_bind does_mono [OF undeploy_does] does_mono [OF Cons.IH]) auto
qed (simp add: does_ret)

lemma handleCleanup_visits:
  "does (handleCleanup k e) (\<lambda>cs _. \<forall>n \<in> set (ManifestConfigMaps (Status e)).
     (Get (cmKey (ExpNamespace e) n), False) \<in> set cs \<or> Delete (cmKey (ExpNamespace e) n) \<in> set (map fst cs))"
proof -
  show ?thesis
    unfolding handleCleanup_def Let_def if_setSubPhase
    by (intro does_bind [of "cleanupChaosPhase _ _"] does_mono [OF cleanupChaosPhase_does]
        does_bind [of "cleanup _ _ _"] does_mono [OF cleanup_does])
      (intro once_does_any [where P = "\<lambda>_ _. True"] once_rules trace_intro TrueI, auto)
qed

fun noDelete :: "call \<times> bool \<Rightarrow> bool" where
  "noDelete (Delete key, b) = False"
| "noDelete (c, b) = True"

lemma noDelete_appliesOnly: "appliesOnly Q c \<Longrightarrow> noDelete c"
  by (cases "(Q, c)" rule: appliesOnly.cases) auto

lemma applyManifestSet_noDelete: "emits noDelete (applyManifestSet k ns ref i role owned)"
  unfolding applyManifestSet_def deployManifests_def readConfigMap_def ensureOwnedConfigMap_def storeConfigMap_def
    applyManifests_def get_defs
  by (intro trace_intro emits_request emits_perform emits_mono [OF applyEntries_emits noDelete_appliesOnly]) auto

lemma failing_set_does:
  "does (applyManifestSet k ns ref i role owned) (\<lambda>cs (owned', err). list_all noDelete cs \<and>
     (err \<noteq> None \<longrightarrow> owned' = owned) \<and> (ref = None \<longrightarrow> err = None))"
proof -
  have "does (applyManifestSet k ns ref i role owned) (\<lambda>cs (owned', err).
      (err \<noteq> None \<longrightarrow> owned' = owned) \<and> (ref = None \<longrightarrow> err = None))"
    unfolding applyManifestSet_def
    by (intro does_rules does_mono [OF deployManifests_quiet [unfolded emits_does]]) (auto split: option.splits)
  from does_conj [OF applyManifestSet_noDelete [unfolded emits_does] this] show ?thesis
    by (rule does_mono) auto
qed

text \<open>Which calls \<open>handleMeasurement\<close> can make: it never removes or switches anything.\<close>

fun keepsDeployment :: "call \<times> bool \<Rightarrow> bool" where
  "keepsDeployment (Delete key, b) = False"
| "keepsDeployment (Patch obj base, b) = False"
| "keepsDeployment (Create (OUnstructured u), b) = False"
| "keepsDeployment (Update (OUnstructured u), b) = False"
| "keepsDeployment (c, b) = True"

lemma measureSLOs_keeps: "emits keepsDeployment (measureSLOs k prom el iv i cfgs states)"
  by (induction cfgs arbitrary: i states)
    (auto simp: query_def get_defs intro!: trace_intro emits_request split del: if_split)

lemma ends_keep:
  "emits keepsDeployment (patchAndReturn k what new base rq)" "emits keepsDeployment (failExperiment k e err)"
  "emits keepsDeployment (setSubPhase k e sp d)" "emits keepsDeployment (elapsedSeconds k e)"
  "emits keepsDeployment (appendMeasurementsToConfigMap k ns e phase)"
  unfolding patchAndReturn_def patchStatus_def failExperiment_def setPhase_def setSubPhase_def elapsedSeconds_def append_defs Let_def
  by (intro trace_intro emits_request emits_perform; simp)+

section \<open>Runs to evaluate\<close>

text \<open>A world that holds one experiment, its topology and its chaos phase, at time \<open>t\<close>.\<close>

definition controlWorld :: "ExperimentStatus \<Rightarrow> Time \<Rightarrow> unit env" where
  "controlWorld st t = (topologyWorld True t)\<lparr>eGetExperiment := (\<lambda>ns n w. (Inr (sampleExperiment st), w)),
     eGetChaosPhase := (\<lambda>ns n w. (Inr stressPhase, w))\<rparr>"

lemma controlWorld_sel [simp]:
  "eGetExperiment (controlWorld st t) ns n w = (Inr (sampleExperiment st), w)"
  "eGetChaosPhase (controlWorld st t) ns n w = (Inr stressPhase, w)"
  "eNow (controlWorld st t) w = (t, w)" "eWrite (controlWorld st t) c w = (None, w)"
  "eGetTopology (controlWorld st t) ns n w = (Inr (sampleTopology True), w)"
  "eYaml (controlWorld st t) y = Inr samplePod" "eMapOrder (controlWorld st t) w = ([], w)"
  "eGetConfigMap (controlWorld st t) ns n w = (if n = ''src'' then Inr sampleSource else Inl (GoErr NotFound ''not found''), w)"
  "eHttp (controlWorld st t) url q tmo w = (Inl (errorf ''refused''), w)"
  by (simp_all add: controlWorld_def topologyWorld_def sampleWorld_def emptyWorld_def Let_def)

lemma start_sel [simp]: "world start = ()" "calls start = []"
  by (simp_all add: start_def)

lemma sampleSpec_sel [simp]:
  "totalRepetitions sampleSpec = 1" "ExpTopologyRef sampleSpec = Some ''t''" "ChaosPhaseRef sampleSpec = Some ''cp''"
  "sampleIntervalOf sampleSpec = 5" "SLOs sampleSpec = [sampleSLO]"
  by (simp_all add: sampleSpec_def totalRepetitions_def sampleIntervalOf_def derefOr_def)

lemma idleStatus_sel [simp]:
  "Phase idleStatus = PhaseRunning" "SubPhase idleStatus = SubPhaseIdle" "RepetitionsCompleted idleStatus = 0"
  "MeasurementState idleStatus = []" "ExperimentID idleStatus = ''abcde''" "StartTime idleStatus = Some 0"
  "SubPhaseStartTime idleStatus = Some 0" "SubPhaseDuration idleStatus = 0"
  by (simp_all add: idleStatus_def)

lemma sampleExperiment_fresh [simp]: "freshExperiment (sampleExperiment idleStatus)"
  by (simp add: freshExperiment_def i32_lt_def)

definition idleRun :: "outcome \<times> unit kst" where
  "idleRun = run (Reconcile (controlWorld idleStatus 0) ''x'' ''e'') start"

definition deployingExperiment :: Experiment where
  "deployingExperiment = (sampleExperiment idleStatus)\<lparr>Status := persisted idleStatus (newCalls start (snd idleRun))\<rparr>"

lemma idle_step:
  "reconciles (controlWorld idleStatus 0) (sampleExperiment idleStatus) deployingExperiment"
  using reconciles.intros [of "controlWorld idleStatus 0" "''x''" "''e''" start "sampleExperiment idleStatus" "fst idleRun" "snd idleRun"]
  by (simp add: idleRun_def deployingExperiment_def)

lemma idle_run_evaluated:
  "fst idleRun = Returned Requeue None" "SubPhase (Status deployingExperiment) = SubPhaseDeploying"
  by (simp_all add: deployingExperiment_def idleRun_def Reconcile_def get_defs request_def run_simps terminal_def i32_le_def
      dispatchSubPhase_def handleIdle_def patchAndReturn_def patchStatus_def perform_def newCalls_def start_def persisted_def)

section \<open>Properties\<close>

text \<open>
  One reconcile writes the status at most once, as its very last call: all effects on the cluster and
  all reads come before it, so a failed status write never leaves later work undone or done twice. The
  written object is the experiment that was read, with the same name, namespace and specification.
\<close>

theorem status_written_once:
  assumes "fst (eGetExperiment k ns name (world s)) = Inr e" "run (Reconcile k ns name) s = (out, s')"
  shows "\<exists>qs. list_all quiet qs \<and> (newCalls s s' = qs \<or> (\<exists>base new b.
    newCalls s s' = qs @ [(StatusPatch (OExperiment new) (OExperiment base), b)] \<and>
    Spec new = Spec e \<and> ExpName new = ExpName e \<and> ExpNamespace new = ExpNamespace e))"
  using Reconcile_moves(2) [OF assms] unfolding statusOnce_def moves_def by blast

theorem status_written_once_witness:
  "\<exists>qs new base b. newCalls start (snd idleRun) = qs @ [(StatusPatch (OExperiment new) (OExperiment base), b)]"
proof -
  have "\<not> list_all quiet (newCalls start (snd idleRun))"
    using persisted_quiet [of _ idleStatus] idle_run_evaluated(2) by (auto simp: deployingExperiment_def)
  moreover have "run (Reconcile (controlWorld idleStatus 0) ''x'' ''e'') start = (fst idleRun, snd idleRun)"
    by (simp add: idleRun_def)
  from status_written_once [OF _ this, of "sampleExperiment idleStatus"]
  have "\<exists>qs. list_all quiet qs \<and> (newCalls start (snd idleRun) = qs \<or> (\<exists>base new b.
      newCalls start (snd idleRun) = qs @ [(StatusPatch (OExperiment new) (OExperiment base), b)]))" by auto
  ultimately show ?thesis by blast
qed

text \<open>
  C1. The reconciler refines the abstract life of an experiment: whatever API server, Prometheus and clock
  answer, the status a reconcile leaves in the cluster is the one it read or comes from it by a
  transition of the specification, such as from the pre-chaos measurement to the application of chaos
  only if a chaos phase is configured.
\<close>

theorem reconcile_refines_lifecycle:
  assumes "reconciles k e e'"
  shows "lifeOf (Status e') = lifeOf (Status e) \<or>
    transition (planOf (Spec e)) (lifeOf (Status e)) (lifeOf (Status e'))"
  using reconciles_step [OF assms] by blast

theorem reconcile_refines_lifecycle_witness:
  "transition (planOf sampleSpec) (lifeOf idleStatus) (lifeOf (Status deployingExperiment))"
  using reconcile_refines_lifecycle [OF idle_step] idle_run_evaluated(2) by (auto simp: lifeOf_def)

text \<open>
  C3. In every state reachable from a fresh experiment the completed repetitions are between 0 and the
  total, success is reported only when all are done, and the sub-phases that dereference the topology or
  the chaos phase are only entered when the specification has one.
\<close>

theorem reachable_status_wellformed:
  assumes "freshExperiment e" "(reconciles k)\<^sup>*\<^sup>* e e'"
  shows "i32_le 0 (RepetitionsCompleted (Status e')) \<and>
    i32_le (RepetitionsCompleted (Status e')) (totalRepetitions (Spec e)) \<and>
    (Phase (Status e') = PhaseSucceeded \<longrightarrow> RepetitionsCompleted (Status e') = totalRepetitions (Spec e)) \<and>
    (SubPhase (Status e') \<in> {SubPhaseTopologyDelay, SubPhaseWaitingForTopology} \<longrightarrow> ExpTopologyRef (Spec e) \<noteq> None) \<and>
    (SubPhase (Status e') = SubPhaseApplyingChaos \<longrightarrow> ChaosPhaseRef (Spec e) \<noteq> None) \<and>
    length (MeasurementState (Status e')) \<in> {0, length (SLOs (Spec e))}"
  using reachable_lifeInv [OF assms]
  by (auto simp: lifeInv_def lifeOf_def i32_le_def intro: signed_word_eqI)

theorem reachable_status_wellformed_witness:
  "i32_le (RepetitionsCompleted (Status deployingExperiment)) 1 \<and> SubPhase (Status deployingExperiment) = SubPhaseDeploying"
  using reachable_status_wellformed [OF sampleExperiment_fresh r_into_rtranclp [of "reconciles _", OF idle_step]]
    idle_run_evaluated(2) by simp

text \<open>
  C4. The reconciler does not panic on an experiment reachable from a fresh one, unless its sample
  interval is zero: the nil references it dereferences, the states it indexes and the remainder it takes
  are all defined there.
\<close>

theorem reachable_no_panic:
  assumes "freshExperiment e" "(reconciles k)\<^sup>*\<^sup>* e e'" "sampleIntervalOf (Spec e) \<noteq> 0"
    and "fst (eGetExperiment k ns name (world s)) = Inr e'"
  shows "fst (run (Reconcile k ns name) s) \<noteq> Panicked"
proof -
  obtain out s' where r: "run (Reconcile k ns name) s = (out, s')" by fastforce
  obtain s1 where 1: "run (reconcileExperiment k e') s1 = (out, s')"
    using Reconcile_reads [OF assms(4) r] .
  have "wellPosed e'"
    using reachable_lifeInv [OF assms(1,2)] assms(3)
    by (auto simp: lifeInv_def lifeOf_def wellPosed_def)
  then have "noPanic (reconcileExperiment k e')"
    unfolding reconcileExperiment_def setPhase_def patchStatus_def Let_def
    by (auto simp: dispatchSubPhase_calm noPanic_def intro!: does_rules)
       (simp add: dispatchSubPhase_calm flip: noPanic_def)
  from doesD [OF this [unfolded noPanic_def] 1] r show ?thesis by simp
qed

theorem reachable_no_panic_witness:
  "fst (run (Reconcile (controlWorld idleStatus 0) ''x'' ''e'') start) \<noteq> Panicked"
  by (rule reachable_no_panic [OF sampleExperiment_fresh rtranclp.rtrancl_refl]) simp_all

text \<open>
  C2. An experiment ends: along any sequence of reconciles from a fresh experiment, phase, sub-phase and
  repetition count change at most \<open>10 * repetitions + 11\<close> times; every other reconcile waits, samples,
  or fails to write.
\<close>

theorem stage_changes_bounded:
  assumes "freshExperiment e" "chain k e es"
  shows "stageChanges e es \<le> 10 * nat (sint (totalRepetitions (Spec e))) + 11"
proof -
  have "lifeInv (planOf (Spec e)) (lifeOf (Status e))"
    using freshExperiment_fresh [OF assms(1)] by (rule expRuns.init_inv)
  with chain_run [OF assms(2)] have "stageChanges e es \<le> lifeRank (planOf (Spec e)) (lifeOf (Status e))"
    using expRuns.moves_finite by metis
  also have "\<dots> \<le> 10 * nat (sint (totalRepetitions (Spec e))) + 11"
    using assms(1) by (auto simp: lifeRank_def lifeOf_def freshExperiment_def)
  finally show ?thesis .
qed

theorem stage_changes_bounded_witness:
  "stageChanges (sampleExperiment idleStatus) [deployingExperiment] = 1 \<and>
   stageChanges (sampleExperiment idleStatus) [deployingExperiment] \<le> 21"
  using stage_changes_bounded [OF sampleExperiment_fresh, of "controlWorld idleStatus 0" "[deployingExperiment]"]
    idle_step idle_run_evaluated(2) by (simp add: sameStage_def lifeOf_def)

text \<open>
  C5. A finished experiment is left alone: when the phase that was read is \<open>Succeeded\<close> or \<open>Failed\<close>,
  the reconcile has read the experiment and done nothing else, and asks for no further one.
\<close>

theorem terminal_is_final:
  assumes "fst (eGetExperiment k ns name (world s)) = Inr e" "terminal (Phase (Status e))"
  shows "fst (run (Reconcile k ns name) s) = Returned NoRequeue None \<and>
    issued (snd (run (Reconcile k ns name) s)) = issued s @ [Get (ObjKey ecoscapeAPIVersion ''Experiment'' ns name)]"
proof -
  obtain out s' where r: "run (Reconcile k ns name) s = (out, s')" by fastforce
  obtain s1 where "run (reconcileExperiment k e) s1 = (out, s')"
    and "calls s1 = calls s @ [(Get (ObjKey ecoscapeAPIVersion ''Experiment'' ns name), True)]"
    using Reconcile_reads [OF assms(1) r] .
  with r assms(2) show ?thesis by (simp add: reconcileExperiment_def issued_def)
qed

theorem terminal_is_final_witness:
  "fst (run (Reconcile (controlWorld (idleStatus\<lparr>Phase := PhaseFailed\<rparr>) 0) ''x'' ''e'') start) = Returned NoRequeue None"
  using terminal_is_final [of "controlWorld (idleStatus\<lparr>Phase := PhaseFailed\<rparr>) 0" "''x''" "''e''" start
      "sampleExperiment (idleStatus\<lparr>Phase := PhaseFailed\<rparr>)"]
  by (simp add: terminal_def)

text \<open>
  C6. What identifies a run never changes: however many reconciles follow, the run id and the start time in the cluster,
  once set, stay what they are, and so does the completion time, which the code sets on the object before it takes the base
  of the patch, so that an experiment that starts without one never gets one.
\<close>

theorem run_identity_stable:
  assumes "(reconciles k)\<^sup>*\<^sup>* e e'"
  shows "(ExperimentID (Status e) \<noteq> '''' \<longrightarrow> ExperimentID (Status e') = ExperimentID (Status e)) \<and>
    (StartTime (Status e) \<noteq> None \<longrightarrow> StartTime (Status e') = StartTime (Status e)) \<and>
    CompletionTime (Status e') = CompletionTime (Status e)"
  using reconciles_sameRun [OF assms] by (simp add: sameRun_def)

theorem run_identity_stable_witness:
  "SubPhase (Status deployingExperiment) = SubPhaseDeploying \<and> ExperimentID (Status deployingExperiment) = ''abcde'' \<and>
   StartTime (Status deployingExperiment) = Some 0"
  using run_identity_stable [OF r_into_rtranclp [of "reconciles _", OF idle_step]] idle_run_evaluated(2) by simp

text \<open>
  C21. A timed sub-phase lasts what was configured: with a start time up to 48 days back, the handler
  \<open>handleTimedWait\<close> sends one status patch, which enters the next sub-phase exactly if the configured number of seconds has
  passed, and otherwise only records the whole seconds that have; it is then run again, at once or after a
  second.
\<close>

theorem timed_wait_decides:
  assumes "run (handleTimedWait k e sp d) s = (out, s')"
    and "SubPhaseStartTime (Status e) = Some since" "fst (eNow k (world s)) = t"
    and "since \<le> t" "t - since < 2 ^ 22 * nanosPerSecond"
  shows "\<exists>new b. newCalls s s' = [(StatusPatch (OExperiment new) (OExperiment e), b)] \<and>
    (if sint (SubPhaseDuration (Status e)) \<le> (t - since) div nanosPerSecond
     then SubPhase (Status new) = sp \<and> SubPhaseDuration (Status new) = d \<and> (b \<longrightarrow> out = Returned Requeue None)
     else SubPhase (Status new) = SubPhase (Status e) \<and> SubPhaseStartTime (Status new) = Some since \<and>
       sint (SubPhaseElapsed (Status new)) = (t - since) div nanosPerSecond \<and> (b \<longrightarrow> out = Returned (RequeueAfter 1) None))"
proof -
  from assms(1) obtain el s1 where 1: "run (elapsedSeconds k e) s = (el, s1)"
    and 2: "run (if i32_le (SubPhaseDuration (Status e)) el
        then do { next \<leftarrow> setSubPhase k (withElapsed e el) sp d; patchAndReturn k ''timed wait done'' next e Requeue }
        else patchAndReturn k ''timed wait'' (withElapsed e el) e (RequeueAfter 1)) s1 = (out, s')"
    unfolding handleTimedWait_def Let_def by (rule run_bindE)
  have el: "sint el = (t - since) div nanosPerSecond"
    using elapsed_seconds [OF assms(2) 1 assms(3-5)] .
  have c: "calls s1 = calls s"
    using 1 assms(2) by (auto simp: elapsedSeconds_def elim!: run_elims)
  show ?thesis
    using 2 assms(2) c el
    by (auto simp: patchAndReturn_def patchStatus_def setSubPhase_def withElapsed_def newCalls_def i32_le_def i32_lt_def
        elim!: run_elims split: if_splits)
qed

theorem timed_wait_decides_witness:
  "\<exists>new b. (StatusPatch (OExperiment new) (OExperiment (sampleExperiment idleStatus)), b) \<in>
      set (newCalls start (snd (run (handleTimedWait (controlWorld idleStatus 2500000000) (sampleExperiment idleStatus)
        SubPhasePreChaosMeasurement 7) start))) \<and> SubPhase (Status new) = SubPhasePreChaosMeasurement"
proof -
  let ?m = "run (handleTimedWait (controlWorld idleStatus 2500000000) (sampleExperiment idleStatus) SubPhasePreChaosMeasurement 7) start"
  from timed_wait_decides [OF prod.collapse [symmetric], where k = "controlWorld idleStatus 2500000000"
      and e = "sampleExperiment idleStatus" and sp = SubPhasePreChaosMeasurement and d = 7 and s = start
      and since = 0 and t = 2500000000]
  have "\<exists>new b. newCalls start (snd ?m) = [(StatusPatch (OExperiment new) (OExperiment (sampleExperiment idleStatus)), b)] \<and>
      SubPhase (Status new) = SubPhasePreChaosMeasurement"
    by (simp add: nanosPerSecond_def) blast
  then obtain new b where "newCalls start (snd ?m) = [(StatusPatch (OExperiment new) (OExperiment (sampleExperiment idleStatus)), b)]"
    "SubPhase (Status new) = SubPhasePreChaosMeasurement" by blast
  then show ?thesis by auto
qed

text \<open>
  Measurements are taken on the sampling grid only: between two multiples of the sample interval
  \<open>handleMeasurement\<close> makes no call at all, so the end of a window, too, is only noticed on the grid.
\<close>

theorem measurement_on_grid:
  assumes "run (handleMeasurement k e next) s = (out, s')" "newCalls s s' \<noteq> []"
    and "i32_lt 0 (sampleIntervalOf (Spec e))"
  shows "\<exists>elapsed. fst (run (elapsedSeconds k e) s) = elapsed \<and> sint (sampleIntervalOf (Spec e)) dvd sint elapsed"
proof -
  obtain el s1 where 1: "run (elapsedSeconds k e) s = (el, s1)" by fastforce
  have c: "calls s1 = calls s"
    using 1 by (auto simp: elapsedSeconds_def elim!: run_elims split: option.splits)
  have "el = 0 \<or> i32_rem el (sampleIntervalOf (Spec e)) = 0"
  proof (rule ccontr)
    assume "\<not> (el = 0 \<or> i32_rem el (sampleIntervalOf (Spec e)) = 0)"
    then have "s' = s1" using assms(1) 1
      by (auto simp: handleMeasurement_def Let_def run_simps split: if_splits)
    with c assms(2) show False by (simp add: newCalls_def)
  qed
  with 1 assms(3) show ?thesis
    using i32_rem_eq_0_iff [of "sampleIntervalOf (Spec e)" el] by (auto simp: i32_lt_def)
qed

definition measuringStatus :: ExperimentStatus where
  "measuringStatus = idleStatus\<lparr>SubPhase := SubPhaseChaosMeasurement, SubPhaseDuration := 10\<rparr>"

lemma measuringStatus_sel:
  "SubPhaseDuration measuringStatus = 10" "MeasurementState measuringStatus = []" "SubPhaseStartTime measuringStatus = Some 0"
  by (simp_all add: measuringStatus_def)

theorem measurement_on_grid_witness:
  "newCalls start (snd (run (handleMeasurement (controlWorld measuringStatus 0) (sampleExperiment measuringStatus) SubPhaseCleanup) start)) \<noteq> [] \<and>
   5 dvd sint (fst (run (elapsedSeconds (controlWorld measuringStatus 0) (sampleExperiment measuringStatus)) start))"
proof -
  let ?m = "run (handleMeasurement (controlWorld measuringStatus 0) (sampleExperiment measuringStatus) SubPhaseCleanup) start"
  have "int32OfFloat (eInt32Overflow (controlWorld measuringStatus 0)) (durationSeconds 0) = 0"
    by (simp add: int32_durationSeconds nanosPerSecond_def)
  then have el: "run (elapsedSeconds (controlWorld measuringStatus 0) (sampleExperiment measuringStatus)) start = (0, start)"
    by (simp add: elapsedSeconds_def now_def silent_def run_simps timeSub_def measuringStatus_sel)
  have q: "run (query (controlWorld measuringStatus 0) prom q) s = ((fzero, False, Some (errorf ''refused'')),
      \<lparr>world = (), calls = calls s @ [(HttpGet (serverURL prom @ ''/api/v1/query'') q (timeoutSeconds prom), False)]\<rparr>)" for prom q s
    by (simp add: query_def httpGet_def request_def run_simps)
  have "newCalls start (snd ?m) \<noteq> []"
    by (simp add: handleMeasurement_def el run_simps Let_def q sampleSLO_def i32_le_def measuringStatus_sel
      patchAndReturn_def patchStatus_def perform_def newCalls_def)
  with measurement_on_grid [OF prod.collapse [symmetric] this] el show ?thesis by (simp add: i32_lt_def)
qed

text \<open>
  C7. What chaos was applied is removed at the end of the repetition: the status that a successful
  \<open>handleApplyingChaos\<close> writes makes a later \<open>handleCleanup\<close> issue the deletion of every chaos object
  that was created (custom objects: of version \<open>v1alpha1\<close>, with names free of slashes), whatever else
  fails in between.
\<close>

theorem applied_chaos_is_removed:
  assumes "groupLaw k" "run (handleApplyingChaos k e) s = (out, s')"
    and "(StatusPatch (OExperiment new) (OExperiment base), b) \<in> set (newCalls s s')" "Phase (Status new) \<noteq> PhaseFailed"
    and "u \<in> set (createdObjects (newCalls s s'))" "removable k u"
    and "ManifestConfigMaps (Status e') = ManifestConfigMaps (Status new)" "run (handleCleanup k e') t = (out', t')"
  shows "Delete (usKey u) \<in> set (issued t')"
proof -
  from doesD [OF handleApplyingChaos_refs [OF assms(1)] assms(2)] assms(3-5,7)
  have "objectRef k u \<in> set (ManifestConfigMaps (Status e'))"
    by (auto simp: chaosRecorded_def list_all_iff)
  then have "Delete (usKey u) \<in> set (concat (map (refDeletion k) (ManifestConfigMaps (Status e'))))"
    using refDeletion_removable [OF assms(6)] by (auto intro!: bexI [of _ "objectRef k u"])
  then show ?thesis using handleCleanup_deletes [OF assms(8)] by blast
qed

definition chaosRun :: "outcome \<times> unit kst" where
  "chaosRun = run (handleApplyingChaos (controlWorld idleStatus 0) (sampleExperiment idleStatus)) start"

lemma controlWorld_laws:
  "groupLaw (controlWorld st t)" "removable (controlWorld st t) u \<longleftrightarrow> removable sampleWorld u"
  by (simp_all add: groupLaw_def removable_def controlWorld_def topologyWorld_def sampleWorld_def emptyWorld_def Let_def chaosMeshGroup_def)

definition firstStress :: Unstructured where
  "firstStress = buildStressChaos ''t-a'' ''cp-abcde-a-cpu'' (stressFaultSpec ''t-a'' (buildChaosPhaseStressCPU stressFault))"

lemma firstStress_key:
  "removable sampleWorld firstStress"
  "usKey firstStress = ObjKey ''chaos-mesh.org/v1alpha1'' ''StressChaos'' ''t-a'' ''cp-abcde-a-cpu''"
  by (simp_all add: firstStress_def usKey_def buildStressChaos_def chaosMeshGroup_def removable_def validChaosRef_def
      slashFree_def sampleWorld_def emptyWorld_def Let_def)

lemma chaos_run:
  "\<exists>new base. (StatusPatch (OExperiment new) (OExperiment base), True) \<in> set (newCalls start (snd chaosRun)) \<and>
     Phase (Status new) \<noteq> PhaseFailed"
  "firstStress \<in> set (createdObjects (newCalls start (snd chaosRun)))"
  by (simp_all add: chaosRun_def handleApplyingChaos_def get_defs request_def run_simps applyChaosPhase_def
      applyFault_def applyStressFault_def perform_def Let_def patchAndReturn_def patchStatus_def setSubPhase_def now_def silent_def
      newCalls_def zoneName_def stressFaultName_def firstStress_def stressFault_def)

theorem applied_chaos_is_removed_witness:
  "\<exists>e'. Delete (usKey firstStress) \<in> set (issued (snd (run (handleCleanup (controlWorld idleStatus 0) e') start)))"
proof -
  obtain new base where p: "(StatusPatch (OExperiment new) (OExperiment base), True) \<in> set (newCalls start (snd chaosRun))"
    "Phase (Status new) \<noteq> PhaseFailed" using chaos_run(1) by blast
  have r: "run (handleApplyingChaos (controlWorld idleStatus 0) (sampleExperiment idleStatus)) start = (fst chaosRun, snd chaosRun)"
    by (simp add: chaosRun_def)
  have "removable (controlWorld idleStatus 0) firstStress" using firstStress_key(1) controlWorld_laws(2) by blast
  from applied_chaos_is_removed [OF controlWorld_laws(1) r p chaos_run(2) this refl prod.collapse [symmetric]]
  show ?thesis by blast
qed





text \<open>
  C9. Everything remembered is removed: for each name the status lists, \<open>handleCleanup\<close> asks for the owned
  ConfigMap, and deletes it unless that read failed, whatever the other removals answer.
\<close>

theorem cleanup_removes_recorded:
  assumes "run (handleCleanup k e) s = (out, s')" "n \<in> set (ManifestConfigMaps (Status e))"
  shows "(Get (cmKey (ExpNamespace e) n), False) \<in> set (newCalls s s') \<or>
    Delete (cmKey (ExpNamespace e) n) \<in> set (map fst (newCalls s s'))"
  using doesD [OF handleCleanup_visits assms(1)] assms(2) by blast

theorem cleanup_removes_recorded_witness:
  "\<exists>b. (Get (cmKey ''x'' ''own''), b) \<in> set (newCalls start (snd (run (handleCleanup (controlWorld idleStatus 0)
     (sampleExperiment (idleStatus\<lparr>ManifestConfigMaps := [''own'']\<rparr>))) start))) \<or>
   Delete (cmKey ''x'' ''own'') \<in> set (map fst (newCalls start (snd (run (handleCleanup (controlWorld idleStatus 0)
     (sampleExperiment (idleStatus\<lparr>ManifestConfigMaps := [''own'']\<rparr>))) start))))"
  using cleanup_removes_recorded [OF prod.collapse [symmetric], where n = "''own''"
      and e = "sampleExperiment (idleStatus\<lparr>ManifestConfigMaps := [''own'']\<rparr>)" and k = "controlWorld idleStatus 0" and s = start]
  by (auto simp: sampleExperiment_def)

text \<open>
  A manifest set whose deployment fails is not cleaned up: \<open>applyManifestSet\<close> adds the name of a set to
  the owned ones only when all of it was deployed, so when the first set fails, \<open>handleDeploying\<close> deletes
  nothing at all, neither the owned ConfigMap nor the objects created before the failure.
\<close>

theorem failed_set_stays:
  assumes "fst (run (applyManifestSet k (ExpNamespace e) (Sut (Manifests (Spec e))) (ExperimentID (Status e)) ''sut'' []) s) = (owned, Some err)"
    and "run (handleDeploying k e) s = (out, s')"
  shows "list_all noDelete (newCalls s s') \<and> owned = []"
proof -
  obtain s1 where 1: "run (applyManifestSet k (ExpNamespace e) (Sut (Manifests (Spec e))) (ExperimentID (Status e)) ''sut'' []) s =
      ((owned, Some err), s1)"
    using assms(1) by (metis prod.collapse)
  from doesD [OF failing_set_does 1] have e1: "extends s s1" "list_all noDelete (newCalls s s1)" "owned = []" by auto
  have sets: "run (applyManifestSets k (ExpNamespace e) (ExperimentID (Status e)) [] (manifestSets (Manifests (Spec e)))) s =
      ((owned, Some (wrapf (''deploy '' @ ''sut'') err)), s1)"
    by (simp only: manifestSets_def applyManifestSets.simps State_Monad.run_state_bind 1 prod.case option.case State_Monad.run_state_return)
  have 2: "run (failExperiment k e (wrapf (''deploy '' @ ''sut'') err)) s1 = (out, s')"
    using assms(2) e1(3) unfolding handleDeploying_def Let_def State_Monad.run_state_bind sets
    by (simp add: run_simps cleanup_def)
  have "does (failExperiment k e (wrapf (''deploy '' @ ''sut'') err)) (\<lambda>cs _. list_all noDelete cs)"
    unfolding failExperiment_def setPhase_def patchStatus_def Let_def by (intro does_rules) simp
  from doesD [OF this 2] have e2: "extends s1 s'" "list_all noDelete (newCalls s1 s')" by simp_all
  show ?thesis using newCalls_trans [OF e1(1) e2(1)] e1(2,3) e2(2) by simp
qed

definition quotaWorld :: "unit env" where
  "quotaWorld = (controlWorld idleStatus 0)\<lparr>eWrite := (\<lambda>c w.
     (case c of Create (OUnstructured u) \<Rightarrow> Some (errorf ''quota'') | _ \<Rightarrow> None, w))\<rparr>"

lemma quota_run:
  "\<exists>err. fst (run (applyManifestSet quotaWorld ''x'' (Sut (Manifests sampleSpec)) ''abcde'' ''sut'' []) start) = ([], Some err)"
  by (simp add: quotaWorld_def applyManifestSet_def deployManifests_def sampleSpec_def
      readConfigMap_def ensureOwnedConfigMap_def applyManifests_def get_defs
      request_def perform_def rangeMap_def silent_def run_simps Let_def storeConfigMap_def newConfigMap_def isNotFound_def
      sampleSource_def isManifestFile_def fileExt_def parseManifest_def applyObject_def ownedConfigMapName_def
      isAlreadyExists_def errorf_def samplePod_def inNamespace_def)

theorem failed_set_stays_witness:
  "list_all noDelete (newCalls start (snd (run (handleDeploying quotaWorld (sampleExperiment idleStatus)) start)))"
proof -
  obtain err where "fst (run (applyManifestSet quotaWorld ''x'' (Sut (Manifests sampleSpec)) ''abcde'' ''sut'' []) start) = ([], Some err)"
    using quota_run by blast
  then show ?thesis
    using failed_set_stays [OF _ prod.collapse [symmetric], of quotaWorld "sampleExperiment idleStatus" start "[]" err]
    by (simp add: sampleExperiment_def)
qed

text \<open>
  A measurement window never tears anything down, not even when it fails the experiment because its
  values cannot be written: no manifest, chaos object or topology is deleted, patched or changed by
  \<open>handleMeasurement\<close>, and since a failed experiment is final, they stay.
\<close>

theorem measurement_keeps_deployment:
  "emits keepsDeployment (handleMeasurement k e next)"
  unfolding handleMeasurement_def finishMeasurement_def Let_def
  by (intro trace_intro ends_keep measureSLOs_keeps)

end
