(* ===== verification/Experiment_Results.thy ===== *)
theory Experiment_Results
  imports Experiment_Spec
begin

text \<open>
  A repetition is counted only when its result is stored, and the stored document reads back exactly. In the code every
  number of a status is a \<open>float64\<close>; in the model that is the predicate \<open>isFloat64\<close>, and the first half of this
  theory shows that the reconciler keeps it: from the answer of Prometheus through the states of a measurement to the
  scores of a repetition. The second half follows the result of a repetition into the ConfigMap and the status.
\<close>

section \<open>What a measurement takes in\<close>

lemma query_typed: "does (query k prometheus expr) (\<lambda>cs (v, found, err). list_all quiet cs \<and> isFloat64 v)"
proof (rule does_mono [OF does_conj])
  show "does (query k prometheus expr) (\<lambda>cs _. list_all quiet cs)"
    using query_quiet by (simp add: emits_does)
  show "does (query k prometheus expr) (\<lambda>_ (v, found, err). isFloat64 v)"
    unfolding query_def httpGet_def
    by (intro does_rules) (auto simp: float_types intro: readAnswer_typed split: sum.splits)
qed auto

lemma typed_recordMeasurement:
  "recordMeasurement st v slo elapsed interval = Some st' \<Longrightarrow> typedState st \<Longrightarrow> isFloat64 v \<Longrightarrow> typedState st'"
  using typed_recordMeasurementAggregate
  by (fastforce simp: recordMeasurement_def Let_def typedState_def split: if_splits)

lemma typed_update: "list_all typedState states \<Longrightarrow> typedState st \<Longrightarrow> list_all typedState (states[i := st])"
  using set_update_subset_insert [of states i st] by (auto simp: list_all_iff)

lemma typed_initialStates: "list_all typedState states \<Longrightarrow> list_all typedState (initialStates spec states)"
  by (simp add: initialStates_def list.pred_map list_all_iff typed_freshState)

lemma measureSLOs_typed:
  "list_all typedState states \<Longrightarrow> does (measureSLOs k prom el iv i cfgs states)
    (\<lambda>cs r. list_all quiet cs \<and> pred_option (list_all typedState) r)"
proof (induction cfgs arbitrary: i states)
  case (Cons cfg cfgs)
  have st: "typedState st" if "recordMeasurement (states ! i) v cfg el iv = Some st" "isFloat64 v"
    "\<not> length states \<le> i" for v st
    using that Cons.prems typed_recordMeasurement by (auto simp: list_all_length)
  show ?case
    unfolding measureSLOs.simps
    by (rule does_bind, rule does_mono [OF query_typed])
      (auto intro!: does_if does_option does_ret does_mono [OF Cons.IH] typed_update Cons.prems dest: st)
qed (simp add: does_ret)

section \<open>The status of an experiment\<close>

definition typedStatus :: "ExperimentStatus \<Rightarrow> bool" where
  "typedStatus st \<longleftrightarrow> list_all typedState (MeasurementState st) \<and> list_all typedResult (SloResults st) \<and>
     pred_option isFloat64 (AggregateScore st)"

definition typedExperiment :: "Experiment \<Rightarrow> bool" where
  "typedExperiment e \<longleftrightarrow> list_all typedSLO (SLOs (Spec e)) \<and> typedStatus (Status e)"

text \<open>What every status patch of a reconcile of \<open>e\<close> has to write.\<close>

definition keepsTypes :: "Experiment \<Rightarrow> Experiment \<Rightarrow> Experiment \<Rightarrow> bool" where
  "keepsTypes e base new \<longleftrightarrow> (typedExperiment e \<longrightarrow> typedStatus (Status new))"

lemma keepsTypesI: "(typedExperiment e \<Longrightarrow> typedStatus (Status new)) \<Longrightarrow> keepsTypes e base new"
  by (simp add: keepsTypes_def)

lemma finishMeasurement_types:
  assumes "typedExperiment e" "list_all typedState states"
  shows "patchesOnce (keepsTypes e) (finishMeasurement k
    (withStatus e (\<lambda>st. st\<lparr>MeasurementState := states, SubPhaseElapsed := el\<rparr>)) e next)"
  unfolding finishMeasurement_def
  by (intro once_rules trace_intro keepsTypesI)
    (use assms in \<open>auto simp: typedExperiment_def typedStatus_def\<close>)

lemma handleMeasurement_types: "patchesOnce (keepsTypes e) (handleMeasurement k e next)"
proof (cases "typedExperiment e")
  case True
  then have st: "list_all typedState (MeasurementState (Status e))"
    by (simp add: typedExperiment_def typedStatus_def)
  have sample: "keepsTypes e e (withStatus e (\<lambda>st. st\<lparr>MeasurementState := states, SubPhaseElapsed := el\<rparr>))"
    if "list_all typedState states" for states el
    using that by (auto simp: keepsTypes_def typedExperiment_def typedStatus_def)
  show ?thesis
    unfolding handleMeasurement_def
    by (intro once_rules trace_intro
        once_does [OF does_mono [OF measureSLOs_typed [OF typed_initialStates [OF st]]]])
      (auto intro!: once_rules finishMeasurement_types sample True)
next
  case False
  then show ?thesis
    unfolding handleMeasurement_def finishMeasurement_def
    by (intro once_rules trace_intro keepsTypesI) (simp_all add: typedStatus_def)
qed

lemma handleCleanup_types: "patchesOnce (keepsTypes e) (handleCleanup k e)"
  unfolding handleCleanup_def Let_def if_setSubPhase
  by (intro once_rules trace_intro keepsTypesI)
    (use typed_buildRepetitionResult in \<open>auto simp: typedExperiment_def typedStatus_def typedRepetition_def\<close>)

lemma handlers_types:
  "patchesOnce (keepsTypes e) (handleIdle k e)"
  "patchesOnce (keepsTypes e) (handleDeploying k e)"
  "patchesOnce (keepsTypes e) (handleTopologyDelay k e)"
  "patchesOnce (keepsTypes e) (handleWaitingForTopology k e)"
  "patchesOnce (keepsTypes e) (handleTimedWait k e sp d)"
  "patchesOnce (keepsTypes e) (handleApplyingChaos k e)"
  unfolding handleIdle_def handleDeploying_def handleTopologyDelay_def handleWaitingForTopology_def
    giveUpTopology_def handleTimedWait_def handleApplyingChaos_def Let_def get_defs
  by (intro once_rules trace_intro emits_request keepsTypesI;
      simp add: withElapsed_def typedExperiment_def typedStatus_def)+

lemma reconcileExperiment_types: "patchesOnce (keepsTypes e) (reconcileExperiment k e)"
proof -
  have "patchesOnce (keepsTypes e) (dispatchSubPhase k e)"
    unfolding dispatchSubPhase_def
    by (cases "SubPhase (Status e)") (auto intro: handlers_types handleMeasurement_types handleCleanup_types once_ret)
  then show ?thesis
    unfolding reconcileExperiment_def
    by (auto intro!: once_rules trace_intro once_setPhase keepsTypesI simp: typedExperiment_def typedStatus_def)
qed

lemma typed_mergeStatus: "typedStatus st \<Longrightarrow> typedStatus new \<Longrightarrow> typedStatus (mergeStatus st base new)"
  by (simp add: typedStatus_def mergeStatus_def mergeField_def)

lemma persisted_types:
  assumes "statusOnce (keepsTypes e) cs" "typedExperiment e"
  shows "typedStatus (persisted (Status e) cs)"
  using assms unfolding statusOnce_def
proof (elim disjE exE conjE)
  fix qs base new b
  assume "cs = qs @ [(StatusPatch (OExperiment new) (OExperiment base), b)]" "list_all quiet qs" "keepsTypes e base new"
  then show ?thesis using assms(2)
    by (cases b) (auto simp: persisted_append persisted_quiet keepsTypes_def typedExperiment_def,
      simp_all add: persisted_def typed_mergeStatus)
qed (simp add: persisted_quiet typedExperiment_def)

lemma reconciles_typed:
  assumes "reconciles k e e'" "typedExperiment e"
  shows "typedExperiment e'"
  using assms(1)
proof cases
  case (1 ns name s out s')
  then show ?thesis
    using persisted_types [OF Reconcile_once(2) [OF 1(2,3) reconcileExperiment_types] assms(2)] assms(2)
    by (simp add: typedExperiment_def)
qed

lemma reachable_typed: "(reconciles k)\<^sup>*\<^sup>* e e' \<Longrightarrow> typedExperiment e \<Longrightarrow> typedExperiment e'"
  by (induction rule: rtranclp_induct) (auto intro: reconciles_typed)

section \<open>Where a repetition is counted\<close>

definition keepsCount :: "Experiment \<Rightarrow> Experiment \<Rightarrow> Experiment \<Rightarrow> bool" where
  "keepsCount e base new \<longleftrightarrow> RepetitionsCompleted (Status new) = RepetitionsCompleted (Status e)"

lemma handlers_keep_count:
  "patchesOnce (keepsCount e) (handleIdle k e)"
  "patchesOnce (keepsCount e) (handleDeploying k e)"
  "patchesOnce (keepsCount e) (handleTopologyDelay k e)"
  "patchesOnce (keepsCount e) (handleWaitingForTopology k e)"
  "patchesOnce (keepsCount e) (handleTimedWait k e sp d)"
  "patchesOnce (keepsCount e) (handleMeasurement k e sp)"
  "patchesOnce (keepsCount e) (handleApplyingChaos k e)"
  unfolding handleIdle_def handleDeploying_def handleTopologyDelay_def handleWaitingForTopology_def
    giveUpTopology_def handleTimedWait_def handleMeasurement_def finishMeasurement_def handleApplyingChaos_def
    Let_def get_defs
  by (intro once_rules trace_intro emits_request; simp add: keepsCount_def withElapsed_def)+

text \<open>
  The results ConfigMap of the run was stored with the repetitions that were read from it and \<open>result\<close> as the last: a new
  ConfigMap if there was none, otherwise over the one that was read.
\<close>

definition resultStored :: "'w env \<Rightarrow> Experiment \<Rightarrow> RepetitionResult \<Rightarrow> (call \<times> bool) list \<Rightarrow> bool" where
  "resultStored k e result cs \<longleftrightarrow>
     (let ns = ExpNamespace e; name = ''ecoscape-'' @ ExperimentID (Status e) @ ''-results''
      in \<exists>w cm. (Get (cmKey ns name), isInr (fst (eGetConfigMap k ns name w))) \<in> set cs \<and>
        (case fst (eGetConfigMap k ns name w) of
           Inl _ \<Rightarrow> (Create (OConfigMap cm), True) \<in> set cs \<and> CmNamespace cm = ns \<and> CmName cm = name \<and>
             existingResults cm = [result]
         | Inr old \<Rightarrow> (Update (OConfigMap cm), True) \<in> set cs \<and> CmNamespace cm = CmNamespace old \<and> CmName cm = CmName old \<and>
             existingResults cm = existingResults old @ [result]))"

lemma resultStored_mono:
  assumes "resultStored k e result cs" "set cs \<subseteq> set ds"
  shows "resultStored k e result ds"
proof -
  let ?name = "''ecoscape-'' @ ExperimentID (Status e) @ ''-results''"
  from assms(1) obtain w cm where "(Get (cmKey (ExpNamespace e) ?name), isInr (fst (eGetConfigMap k (ExpNamespace e) ?name w))) \<in> set cs"
    "case fst (eGetConfigMap k (ExpNamespace e) ?name w) of
       Inl _ \<Rightarrow> (Create (OConfigMap cm), True) \<in> set cs \<and> CmNamespace cm = ExpNamespace e \<and> CmName cm = ?name \<and>
         existingResults cm = [result]
     | Inr old \<Rightarrow> (Update (OConfigMap cm), True) \<in> set cs \<and> CmNamespace cm = CmNamespace old \<and> CmName cm = CmName old \<and>
         existingResults cm = existingResults old @ [result]"
    unfolding resultStored_def Let_def by blast
  with assms(2) show ?thesis
    unfolding resultStored_def Let_def by (intro exI [of _ w] exI [of _ cm]) (auto split: sum.splits)
qed

definition counts :: "'w env \<Rightarrow> Experiment \<Rightarrow> (call \<times> bool) list \<Rightarrow> Experiment \<Rightarrow> bool" where
  "counts k e cs new \<longleftrightarrow> RepetitionsCompleted (Status new) = RepetitionsCompleted (Status e) + 1 \<and>
     SubPhase (Status e) = SubPhaseCleanup \<and>
     (\<exists>score. AggregateScore (Status new) = Some score \<and>
        resultStored k e \<lparr>Repetition = RepetitionsCompleted (Status new), RepSloResults = SloResults (Status new),
          RepAggregateScore = score\<rparr> cs)"

definition countedStored :: "'w env \<Rightarrow> Experiment \<Rightarrow> (call \<times> bool) list \<Rightarrow> bool" where
  "countedStored k e cs \<longleftrightarrow> (\<forall>new base b. (StatusPatch (OExperiment new) base, b) \<in> set cs \<longrightarrow>
     RepetitionsCompleted (Status new) \<noteq> RepetitionsCompleted (Status e) \<longrightarrow> counts k e cs new)"

lemma quiet_no_patch: "list_all quiet cs \<Longrightarrow> (StatusPatch obj base, b) \<notin> set cs"
  by (auto simp: list_all_iff)

lemma countedStored_quiet: "list_all quiet cs \<Longrightarrow> countedStored k e cs"
  by (simp add: countedStored_def quiet_no_patch)

lemma countedStored_once: "statusOnce (keepsCount e) cs \<Longrightarrow> countedStored k e cs"
  unfolding statusOnce_def
  by (elim disjE exE conjE) (simp add: countedStored_quiet, auto simp: countedStored_def keepsCount_def quiet_no_patch)

lemma stored_new:
  assumes "fst (eGetConfigMap k (ExpNamespace e) (resultsName e) w) = Inl x" "resultsText e [result] = Inr raw" "typedRepetition result"
  shows "resultStored k e result [(Get (cmKey (ExpNamespace e) (resultsName e)), False),
    (Create (OConfigMap (setData ''results.json'' raw (blankConfigMap (ExpNamespace e) (resultsName e)))), True)]"
  using assms existing_setData [of "[result]" e raw] unfolding resultStored_def Let_def resultsName_def
  by (intro exI [of _ w] exI) (auto simp: blankConfigMap_def)

lemma stored_over:
  assumes "fst (eGetConfigMap k (ExpNamespace e) (resultsName e) w) = Inr old" "typedRepetition result"
    and "resultsText e (existingResults old @ [result]) = Inr raw"
  shows "resultStored k e result [(Get (cmKey (ExpNamespace e) (resultsName e)), True),
    (Update (OConfigMap (setData ''results.json'' raw old)), True)]"
  using assms(1,2) existing_setData [OF _ assms(3)] typed_existing unfolding resultStored_def Let_def resultsName_def
  by (intro exI [of _ w] exI) auto

lemma append_stores:
  assumes "typedRepetition result"
  shows "does (appendRepetitionToConfigMap k (ExpNamespace e) e result) (\<lambda>cs err. list_all quiet cs \<and>
    (err = None \<longrightarrow> resultStored k e result cs))"
  unfolding append_defs
  by (intro does_bind does_request_world does_sum does_prod does_ret does_if does_perform)
    (auto intro: stored_new stored_over assms split: sum.splits if_splits)

lemma handleCleanup_counts:
  assumes "typedExperiment e" "SubPhase (Status e) = SubPhaseCleanup"
  shows "does (handleCleanup k e) (\<lambda>cs _. countedStored k e cs)"
proof -
  let ?result = "buildRepetitionResult (RepetitionsCompleted (Status e) + 1) (SLOs (Spec e)) (MeasurementState (Status e))"
  have typed: "typedRepetition ?result"
    using assms(1) by (simp add: typedExperiment_def typedStatus_def typed_buildRepetitionResult)
  have result: "\<lparr>Repetition = RepetitionsCompleted (Status e) + 1, RepSloResults = RepSloResults ?result,
      RepAggregateScore = RepAggregateScore ?result\<rparr> = ?result"
    by (simp add: buildRepetitionResult_def Let_def)
  have clean: "does (cleanupChaosPhase k refs) (\<lambda>cs _. list_all quiet cs)" "does (cleanup k ns owned) (\<lambda>cs _. list_all quiet cs)"
    "does (deactivateTopology k ns name) (\<lambda>cs _. list_all quiet cs)" for ns owned refs name
    using cleanupChaosPhase_quiet base_quiet by (simp_all flip: emits_does)
  have fail: "does (failExperiment k e err) (\<lambda>cs _. \<forall>new base b. (StatusPatch (OExperiment new) base, b) \<in> set cs \<longrightarrow>
      RepetitionsCompleted (Status new) = RepetitionsCompleted (Status e))" for err
    unfolding failExperiment_def setPhase_def patchStatus_def Let_def by (intro does_rules) simp
  show ?thesis
    unfolding handleCleanup_def Let_def
    by (intro does_bind does_mono [OF clean(1)] does_mono [OF clean(2)] does_option does_ret does_mono [OF clean(3)]
        does_mono [OF append_stores [OF typed]] does_mono [OF fail] does_if
        does_mono [OF setSubPhase_does] does_mono [OF patchAndReturn_does])
      (auto simp: countedStored_def counts_def quiet_no_patch assms(2) result elim!: resultStored_mono)
qed

lemma reconcileExperiment_counts:
  assumes "typedExperiment e"
  shows "does (reconcileExperiment k e) (\<lambda>cs _. countedStored k e cs)"
proof -
  have once: "does m (\<lambda>cs _. countedStored k e cs)" if "patchesOnce (keepsCount e) m" for m :: "('a kst, outcome) state"
    using that unfolding patchesOnce_def by (rule does_mono) (rule countedStored_once)
  have "does (dispatchSubPhase k e) (\<lambda>cs _. countedStored k e cs)"
  proof (cases "SubPhase (Status e) = SubPhaseCleanup")
    case True
    then show ?thesis by (simp add: dispatchSubPhase_def handleCleanup_counts assms)
  next
    case False
    then have "patchesOnce (keepsCount e) (dispatchSubPhase k e)"
      unfolding dispatchSubPhase_def by (cases "SubPhase (Status e)") (auto intro: handlers_keep_count once_ret)
    then show ?thesis by (rule once)
  qed
  moreover have "patchesOnce (keepsCount e) (do { completed \<leftarrow> now k;
      err \<leftarrow> setPhase k (withStatus e (\<lambda>st. st\<lparr>CompletionTime := Some completed\<rparr>)) PhaseSucceeded '''';
      ret (Returned NoRequeue (map_option (wrapf ''set phase Succeeded'') err)) })"
    by (intro once_rules trace_intro once_setPhase) (simp_all add: keepsCount_def)
  ultimately show ?thesis
    unfolding reconcileExperiment_def using once [OF once_ret] once by simp
qed

lemma countedStored_Cons:
  assumes "quiet c" "countedStored k e cs"
  shows "countedStored k e (c # cs)"
  unfolding countedStored_def
proof (intro allI impI)
  fix new base b
  assume p: "(StatusPatch (OExperiment new) base, b) \<in> set (c # cs)" "RepetitionsCompleted (Status new) \<noteq> RepetitionsCompleted (Status e)"
  with assms have "counts k e cs new" by (auto simp: countedStored_def)
  then show "counts k e (c # cs) new" unfolding counts_def using resultStored_mono [OF _ set_subset_Cons] by blast
qed

lemma reconcile_counts:
  assumes "typedExperiment e" "fst (eGetExperiment k ns name (world s)) = Inr e" "run (Reconcile k ns name) s = (out, s')"
  shows "countedStored k e (newCalls s s')"
proof -
  obtain s1 where 1: "run (reconcileExperiment k e) s1 = (out, s')"
    and c: "calls s1 = calls s @ [(Get (ObjKey ecoscapeAPIVersion ''Experiment'' ns name), True)]"
    using Reconcile_reads [OF assms(2,3)] .
  from doesD [OF reconcileExperiment_counts [OF assms(1)] 1]
  have e1: "extends s1 s'" and o: "countedStored k e (newCalls s1 s')" by auto
  show ?thesis
    using newCalls_trans [OF extendsI [OF c] e1] newCalls_append [OF c] o by (auto intro: countedStored_Cons)
qed

section \<open>Property\<close>

text \<open>
  C32. A repetition is counted only when its result is stored: whenever a reconcile of an experiment reached from one whose
  numbers are binary64 values patches the number of completed repetitions, it raises it by one, in the clean-up, and in the
  same reconcile the results ConfigMap of the run was created or updated successfully with a document that reads back as
  the repetitions that were in it and one more: exactly the number, the results and the aggregate score that the patch puts
  into the status.
\<close>

theorem counted_repetition_stored:
  assumes "(reconciles k)\<^sup>*\<^sup>* e0 e" "typedExperiment e0"
    and "fst (eGetExperiment k ns name (world s)) = Inr e" "run (Reconcile k ns name) s = (out, s')"
    and "(StatusPatch (OExperiment new) base, b) \<in> set (newCalls s s')"
    and "RepetitionsCompleted (Status new) \<noteq> RepetitionsCompleted (Status e)"
  shows "RepetitionsCompleted (Status new) = RepetitionsCompleted (Status e) + 1 \<and> SubPhase (Status e) = SubPhaseCleanup \<and>
    (\<exists>score. AggregateScore (Status new) = Some score \<and>
       resultStored k e \<lparr>Repetition = RepetitionsCompleted (Status new), RepSloResults = SloResults (Status new),
         RepAggregateScore = score\<rparr> (newCalls s s'))"
  using reconcile_counts [OF reachable_typed [OF assms(1,2)] assms(3,4)] assms(5,6)
  unfolding countedStored_def counts_def by blast

definition cleanupStatus :: ExperimentStatus where
  "cleanupStatus = idleStatus\<lparr>SubPhase := SubPhaseCleanup, ManifestConfigMaps := []\<rparr>"

definition cleanupRun :: "outcome \<times> unit kst" where
  "cleanupRun = run (Reconcile (controlWorld cleanupStatus 0) ''x'' ''e'') start"

lemma cleanupStatus_sel:
  "Phase cleanupStatus = PhaseRunning" "SubPhase cleanupStatus = SubPhaseCleanup" "RepetitionsCompleted cleanupStatus = 0"
  "MeasurementState cleanupStatus = []" "ManifestConfigMaps cleanupStatus = []" "ExperimentID cleanupStatus = ''abcde''"
  by (simp_all add: cleanupStatus_def)

lemma cleanup_result:
  "buildRepetitionResult n cfgs [] = \<lparr>Repetition = n, RepSloResults = [], RepAggregateScore = fzero\<rparr>"
  "resultsText e [\<lparr>Repetition = n, RepSloResults = [], RepAggregateScore = fzero\<rparr>] =
     Inr (jsonIndent 0 (resultsDocument e [\<lparr>Repetition = n, RepSloResults = [], RepAggregateScore = fzero\<rparr>]))"
  by (simp_all add: buildRepetitionResult_def resultsText_def marshalWith_finite finiteRepetition_def fzero_def)

lemma cleanup_run:
  "\<exists>new base b. (StatusPatch (OExperiment new) base, b) \<in> set (newCalls start (snd cleanupRun)) \<and> RepetitionsCompleted (Status new) = 1"
  by (simp add: cleanupRun_def Reconcile_def get_defs request_def run_simps terminal_def i32_le_def dispatchSubPhase_def
      handleCleanup_def cleanupStatus_sel cleanupChaosPhase_def cleanup_def deactivateTopology_def perform_def Let_def
      appendRepetitionToConfigMap_def cleanup_result isNotFound_def resultsName_def
      setSubPhase_def now_def silent_def patchAndReturn_def patchStatus_def newCalls_def sampleTopology_def)
    (auto intro: exI [of _ True])

theorem counted_repetition_stored_witness:
  "\<exists>result. Repetition result = 1 \<and> resultStored (controlWorld cleanupStatus 0) (sampleExperiment cleanupStatus) result (newCalls start (snd cleanupRun))"
proof -
  obtain new base b where p: "(StatusPatch (OExperiment new) base, b) \<in> set (newCalls start (snd cleanupRun))"
    "RepetitionsCompleted (Status new) = 1" using cleanup_run by blast
  have t: "typedExperiment (sampleExperiment cleanupStatus)"
    by (simp add: typedExperiment_def typedStatus_def typedSLO_def sampleSLO_def cleanupStatus_def idleStatus_def float_types typed_freshState)
  have r: "run (Reconcile (controlWorld cleanupStatus 0) ''x'' ''e'') start = (fst cleanupRun, snd cleanupRun)"
    by (simp add: cleanupRun_def)
  from counted_repetition_stored [OF rtranclp.rtrancl_refl t _ r p(1)] p(2) show ?thesis
    by (simp add: cleanupStatus_sel) (metis RepetitionResult.select_convs(1))
qed

end
