(* ===== verification/Go_Memory.thy ===== *)
theory Go_Memory
  imports Eco_Prelude "HOL-Library.Monad_Syntax"
begin

text \<open>
  Go's memory as far as slices and pointers share it: arrays at addresses, slices and pointers into them, and
  deep copies. The contract of a deep copy is the locale \<open>deep_copy\<close>: the copy has the value of the original,
  and consists of memory that did not exist before. Pointers, slices, slices of copied elements and structs of
  such parts are shown to meet it whenever their parts do.
\<close>

section \<open>Arrays, slices, pointers\<close>

text \<open>
  A memory is the list of the arrays allocated so far, an address an index into it; nothing is ever freed. The
  type \<open>'c\<close> of arrays is a sum over the kinds of elements, each with an injection and a partial inverse. A slice
  starts at the beginning of its array, as all slices of this program do, and its capacity is the length of the
  array. What a pointer points to is an array of length one.
\<close>

type_synonym 'c mem = "'c list"

type_synonym pointer = "nat option"

datatype slice = NilSlice | Slice nat nat

definition readArray :: "('c \<Rightarrow> 'a list option) \<Rightarrow> 'c mem \<Rightarrow> nat \<Rightarrow> 'a list option" where
  "readArray unpack m a = (if a < length m then unpack (m ! a) else None)"

definition writeArray :: "('a list \<Rightarrow> 'c) \<Rightarrow> ('c \<Rightarrow> 'a list option) \<Rightarrow> nat \<Rightarrow> nat \<Rightarrow> 'a \<Rightarrow> 'c mem \<Rightarrow> 'c mem option" where
  "writeArray pack unpack a i x m = do {
     xs \<leftarrow> readArray unpack m a;
     if i < length xs then Some (m[a := pack (xs[i := x])]) else None
   }"

fun readSlice :: "('c \<Rightarrow> 'a list option) \<Rightarrow> 'c mem \<Rightarrow> slice \<Rightarrow> 'a list option" where
  "readSlice unpack m NilSlice = Some []"
| "readSlice unpack m (Slice a n) = do {
     xs \<leftarrow> readArray unpack m a;
     if n \<le> length xs then Some (take n xs) else None
   }"

fun readPointer :: "('c \<Rightarrow> 'a list option) \<Rightarrow> 'c mem \<Rightarrow> pointer \<Rightarrow> 'a option option" where
  "readPointer unpack m None = Some None"
| "readPointer unpack m (Some a) = do {
     xs \<leftarrow> readArray unpack m a;
     case xs of [x] \<Rightarrow> Some (Some x) | _ \<Rightarrow> None
   }"

text \<open>\<open>make([]T, len)\<close> and the copy of elements into it.\<close>

definition makeSlice :: "('a list \<Rightarrow> 'c) \<Rightarrow> 'a list \<Rightarrow> 'c mem \<Rightarrow> slice \<times> 'c mem" where
  "makeSlice pack xs m = (Slice (length m) (length xs), m @ [pack xs])"

text \<open>
  \<open>append(s, xs...)\<close>: in place when the capacity suffices, and otherwise in a new array, whose spare capacity is
  the choice of the run-time system.
\<close>

fun appendSlice :: "('a list \<Rightarrow> 'c) \<Rightarrow> ('c \<Rightarrow> 'a list option) \<Rightarrow> ('a list \<Rightarrow> 'a list) \<Rightarrow> slice \<Rightarrow> 'a list \<Rightarrow> 'c mem
    \<Rightarrow> (slice \<times> 'c mem) option" where
  "appendSlice pack unpack spare NilSlice xs m =
     (if xs = [] then Some (NilSlice, m)
      else Some (Slice (length m) (length xs), m @ [pack (xs @ spare xs)]))"
| "appendSlice pack unpack spare (Slice a n) xs m = do {
     ys \<leftarrow> readArray unpack m a;
     if n + length xs \<le> length ys
     then Some (Slice a (n + length xs), m[a := pack (take n ys @ xs @ drop (n + length xs) ys)])
     else Some (Slice (length m) (n + length xs), m @ [pack (take n ys @ xs @ spare (take n ys @ xs))])
   }"

section \<open>Deep copies\<close>

text \<open>\<open>if in.F != nil { *out = new(T); **out = **in }\<close> for a pointer to a flat value\<close>

fun copyPointer :: "('a list \<Rightarrow> 'c) \<Rightarrow> ('c \<Rightarrow> 'a list option) \<Rightarrow> pointer \<Rightarrow> 'c mem \<Rightarrow> (pointer \<times> 'c mem) option" where
  "copyPointer pack unpack None m = Some (None, m)"
| "copyPointer pack unpack (Some a) m = do {
     xs \<leftarrow> readArray unpack m a;
     case xs of [x] \<Rightarrow> Some (Some (length m), m @ [pack [x]]) | _ \<Rightarrow> None
   }"

text \<open>\<open>if in.F != nil { *out = make([]T, len( *in)); copy( *out, *in) }\<close> for a slice of flat values\<close>

fun copySlice :: "('a list \<Rightarrow> 'c) \<Rightarrow> ('c \<Rightarrow> 'a list option) \<Rightarrow> slice \<Rightarrow> 'c mem \<Rightarrow> (slice \<times> 'c mem) option" where
  "copySlice pack unpack NilSlice m = Some (NilSlice, m)"
| "copySlice pack unpack (Slice a n) m = do {
     xs \<leftarrow> readSlice unpack m (Slice a n);
     Some (makeSlice pack xs m)
   }"

text \<open>
  \<open>if in.F != nil { *out = make([]T, len( *in)); for i := range *in { ( *in)[i].DeepCopyInto(&( *out)[i]) } }\<close>; the
  loop from index \<open>i\<close>, over the elements of the original that are left.
\<close>

fun copyElements :: "('a list \<Rightarrow> 'c) \<Rightarrow> ('c \<Rightarrow> 'a list option) \<Rightarrow> ('a \<Rightarrow> 'c mem \<Rightarrow> ('a \<times> 'c mem) option) \<Rightarrow>
    nat \<Rightarrow> nat \<Rightarrow> 'a list \<Rightarrow> 'c mem \<Rightarrow> 'c mem option" where
  "copyElements pack unpack dup out i [] m = Some m"
| "copyElements pack unpack dup out i (x # xs) m = do {
     (y, m) \<leftarrow> dup x m;
     m \<leftarrow> writeArray pack unpack out i y m;
     copyElements pack unpack dup out (Suc i) xs m
   }"

fun copyEach :: "('a list \<Rightarrow> 'c) \<Rightarrow> ('c \<Rightarrow> 'a list option) \<Rightarrow> 'a \<Rightarrow> ('a \<Rightarrow> 'c mem \<Rightarrow> ('a \<times> 'c mem) option) \<Rightarrow>
    slice \<Rightarrow> 'c mem \<Rightarrow> (slice \<times> 'c mem) option" where
  "copyEach pack unpack zero dup NilSlice m = Some (NilSlice, m)"
| "copyEach pack unpack zero dup (Slice a n) m = do {
     xs \<leftarrow> readSlice unpack m (Slice a n);
     let (s, m') = makeSlice pack (replicate n zero) m;
     m'' \<leftarrow> copyElements pack unpack dup (length m) 0 xs m';
     Some (s, m'')
   }"

section \<open>The contract of a deep copy\<close>

text \<open>What a value of the program occupies: its footprint, a set of addresses.\<close>

definition agreeOn :: "nat set \<Rightarrow> 'c mem \<Rightarrow> 'c mem \<Rightarrow> bool" where
  "agreeOn A m m' \<longleftrightarrow> (\<forall>a\<in>A. a < length m' \<and> m' ! a = m ! a)"

lemma agreeOn_append: "A \<subseteq> {..<length m} \<Longrightarrow> agreeOn A m (m @ cs)"
  by (auto simp: agreeOn_def nth_append)

lemma agreeOn_subset: "agreeOn A m m' \<Longrightarrow> B \<subseteq> A \<Longrightarrow> agreeOn B m m'"
  by (auto simp: agreeOn_def)

lemma agreeOn_Un [simp]: "agreeOn (A \<union> B) m m' \<longleftrightarrow> agreeOn A m m' \<and> agreeOn B m m'"
  by (auto simp: agreeOn_def)

lemma agreeOn_empty [simp]: "agreeOn {} m m'"
  by (simp add: agreeOn_def)

lemma agreeOn_trans: "agreeOn A m m' \<Longrightarrow> agreeOn A m' m'' \<Longrightarrow> agreeOn A m m''"
  by (auto simp: agreeOn_def)

text \<open>\<open>DeepCopy\<close>: a copy of what a pointer leads to, or nil.\<close>

definition deepCopyOf :: "('r \<Rightarrow> 'c mem \<Rightarrow> ('r \<times> 'c mem) option) \<Rightarrow> 'r option \<Rightarrow> 'c mem \<Rightarrow> ('r option \<times> 'c mem) option" where
  "deepCopyOf dup object m = (case object of
     None \<Rightarrow> Some (None, m)
   | Some r \<Rightarrow> do { (r', m') \<leftarrow> dup r m; Some (Some r', m') })"

text \<open>
  What a copy is for: it has the value of the original, which is still there, and no later change outside its own
  memory takes it away.
\<close>

definition isolatedCopy :: "('c mem \<Rightarrow> 'r \<Rightarrow> 'v option) \<Rightarrow> ('c mem \<Rightarrow> 'r \<Rightarrow> nat set) \<Rightarrow> 'r \<Rightarrow> 'v \<Rightarrow>
    ('r option \<times> 'c mem) option \<Rightarrow> bool" where
  "isolatedCopy load foot r v copy \<longleftrightarrow> (\<exists>c m. copy = Some (Some c, m) \<and> load m c = Some v \<and> load m r = Some v \<and>
     foot m r \<inter> foot m c = {} \<and> (\<forall>m'. agreeOn (foot m c) m m' \<longrightarrow> load m' c = Some v))"

locale deep_copy =
  fixes load :: "'c mem \<Rightarrow> 'r \<Rightarrow> 'v option"
    and foot :: "'c mem \<Rightarrow> 'r \<Rightarrow> nat set"
    and dup :: "'r \<Rightarrow> 'c mem \<Rightarrow> ('r \<times> 'c mem) option"
  assumes foot_old: "load m r = Some v \<Longrightarrow> foot m r \<subseteq> {..<length m}"
    and load_agree: "load m r = Some v \<Longrightarrow> agreeOn (foot m r) m m' \<Longrightarrow> load m' r = Some v \<and> foot m' r = foot m r"
    and dup_loads: "load m r = Some v \<Longrightarrow> \<exists>r' cs. dup r m = Some (r', m @ cs) \<and> load (m @ cs) r' = Some v \<and>
      foot (m @ cs) r' \<subseteq> {length m..<length m + length cs}"
begin

lemma load_append: "load m r = Some v \<Longrightarrow> load (m @ cs) r = Some v \<and> foot (m @ cs) r = foot m r"
  by (rule load_agree) (simp_all add: agreeOn_append foot_old)

text \<open>Original and copy share no memory, and either keeps its value while the other is written.\<close>

lemma dup_disjoint:
  assumes "load m r = Some v" "dup r m = Some (r', m')"
  shows "load m' r = Some v" "load m' r' = Some v" "foot m' r = foot m r" "foot m' r \<inter> foot m' r' = {}"
    "length m \<le> length m'" "foot m' r' \<subseteq> {length m..<length m'}"
proof -
  from dup_loads [OF assms(1)] assms(2) obtain cs where
    cs: "m' = m @ cs" "load (m @ cs) r' = Some v" "foot (m @ cs) r' \<subseteq> {length m..<length m + length cs}" by auto
  with load_append [OF assms(1)] show "load m' r = Some v" "load m' r' = Some v" "foot m' r = foot m r" by auto
  with cs foot_old [OF assms(1)] show "foot m' r \<inter> foot m' r' = {}" by fastforce
  from cs show "length m \<le> length m'" "foot m' r' \<subseteq> {length m..<length m'}" by auto
qed

lemma isolated:
  assumes "load m r = Some v"
  shows "isolatedCopy load foot r v (deepCopyOf dup (Some r) m)"
proof -
  obtain c m' where c: "dup r m = Some (c, m')" using dup_loads [OF assms] by blast
  note d = dup_disjoint [OF assms c]
  show ?thesis
    using c d(1,2,4) load_agree [OF d(2)] by (auto simp: isolatedCopy_def deepCopyOf_def)
qed

end

section \<open>Parts and how they are put together\<close>

lemma deep_copy_pair:
  assumes "deep_copy load1 foot1 dup1" "deep_copy load2 foot2 dup2"
  shows "deep_copy (\<lambda>m (a, b). do { x \<leftarrow> load1 m a; y \<leftarrow> load2 m b; Some (x, y) })
    (\<lambda>m (a, b). foot1 m a \<union> foot2 m b)
    (\<lambda>(a, b) m. do { (a, m) \<leftarrow> dup1 a m; (b, m) \<leftarrow> dup2 b m; Some ((a, b), m) })"
    (is "deep_copy ?load ?foot ?dup")
proof
  fix m r v assume "?load m r = Some v"
  then obtain a b x y where r: "r = (a, b)" "v = (x, y)" and l: "load1 m a = Some x" "load2 m b = Some y"
    by (auto simp: bind_eq_Some_conv split: prod.splits)
  show "?foot m r \<subseteq> {..<length m}"
    using r deep_copy.foot_old [OF assms(1) l(1)] deep_copy.foot_old [OF assms(2) l(2)] by auto
  show "\<exists>r' cs. ?dup r m = Some (r', m @ cs) \<and> ?load (m @ cs) r' = Some v \<and>
      ?foot (m @ cs) r' \<subseteq> {length m..<length m + length cs}"
  proof -
    obtain a' cs where a: "dup1 a m = Some (a', m @ cs)" "load1 (m @ cs) a' = Some x"
      "foot1 (m @ cs) a' \<subseteq> {length m..<length m + length cs}"
      using deep_copy.dup_loads [OF assms(1) l(1)] by blast
    have "load2 (m @ cs) b = Some y" using deep_copy.load_append [OF assms(2) l(2)] by blast
    then obtain b' ds where b: "dup2 b (m @ cs) = Some (b', (m @ cs) @ ds)" "load2 ((m @ cs) @ ds) b' = Some y"
      "foot2 ((m @ cs) @ ds) b' \<subseteq> {length (m @ cs)..<length (m @ cs) + length ds}"
      using deep_copy.dup_loads [OF assms(2)] by blast
    have "load1 ((m @ cs) @ ds) a' = Some x" "foot1 ((m @ cs) @ ds) a' = foot1 (m @ cs) a'"
      using deep_copy.load_append [OF assms(1) a(2)] by blast+
    with a b r show ?thesis
      by (intro exI [of _ "(a', b')"] exI [of _ "cs @ ds"]) auto
  qed
next
  fix m r v m' assume "?load m r = Some v" "agreeOn (?foot m r) m m'"
  then obtain a b x y where r: "r = (a, b)" "v = (x, y)" and l: "load1 m a = Some x" "load2 m b = Some y"
    and g: "agreeOn (foot1 m a) m m'" "agreeOn (foot2 m b) m m'"
    by (auto simp: bind_eq_Some_conv split: prod.splits)
  from deep_copy.load_agree [OF assms(1) l(1) g(1)] deep_copy.load_agree [OF assms(2) l(2) g(2)] r
  show "?load m' r = Some v \<and> ?foot m' r = ?foot m r" by simp
qed

text \<open>
  A struct is copied by copying its references \<open>refs\<close> and putting the copies in their place; its value is made of
  its other fields and the values of the references.
\<close>

lemma deep_copy_via:
  assumes "deep_copy load foot dup"
    and "\<And>m s. load' m s = map_option (mk s) (load m (refs s))"
    and "\<And>m s. foot' m s = foot m (refs s)"
    and "\<And>m s. dup' s m = map_option (\<lambda>(r, m'). (put s r, m')) (dup (refs s) m)"
    and "\<And>s r. refs (put s r) = r" "\<And>s r. mk (put s r) = mk s"
  shows "deep_copy load' foot' dup'"
proof
  fix m s v assume "load' m s = Some v"
  then obtain w where w: "load m (refs s) = Some w" "v = mk s w" using assms(2) by auto
  show "foot' m s \<subseteq> {..<length m}" using deep_copy.foot_old [OF assms(1) w(1)] assms(3) by simp
  show "\<exists>s' cs. dup' s m = Some (s', m @ cs) \<and> load' (m @ cs) s' = Some v \<and>
      foot' (m @ cs) s' \<subseteq> {length m..<length m + length cs}"
  proof -
    obtain r' cs where "dup (refs s) m = Some (r', m @ cs)" "load (m @ cs) r' = Some w"
      "foot (m @ cs) r' \<subseteq> {length m..<length m + length cs}"
      using deep_copy.dup_loads [OF assms(1) w(1)] by blast
    with w assms(2-) show ?thesis by (intro exI [of _ "put s r'"] exI [of _ cs]) simp
  qed
next
  fix m s v m' assume "load' m s = Some v" "agreeOn (foot' m s) m m'"
  then obtain w where w: "load m (refs s) = Some w" "v = mk s w" and g: "agreeOn (foot m (refs s)) m m'"
    using assms(2,3) by auto
  from deep_copy.load_agree [OF assms(1) w(1) g] w(2) assms(2,3)
  show "load' m' s = Some v \<and> foot' m' s = foot' m s" by simp
qed

text \<open>A struct without references is copied by \<open>*out = *in\<close>.\<close>

lemma deep_copy_flat: "deep_copy (\<lambda>m s. Some (f s)) (\<lambda>m s. {}) (\<lambda>s m. Some (s, m))"
  by unfold_locales (auto intro: exI [of _ "[]"])

section \<open>Kinds of elements\<close>

fun footSlice :: "slice \<Rightarrow> nat set" where
  "footSlice NilSlice = {}"
| "footSlice (Slice a n) = {a}"

fun footPointer :: "pointer \<Rightarrow> nat set" where
  "footPointer None = {}"
| "footPointer (Some a) = {a}"

locale kind =
  fixes pack :: "'a list \<Rightarrow> 'c" and unpack :: "'c \<Rightarrow> 'a list option"
  assumes unpack_pack [simp]: "unpack (pack xs) = Some xs"
    and pack_unpack: "unpack c = Some xs \<Longrightarrow> c = pack xs"
begin

lemma readArray_new [simp]: "readArray unpack (m @ pack xs # cs) (length m) = Some xs"
  by (simp add: readArray_def nth_append)

lemma readArray_SomeD: "readArray unpack m a = Some xs \<Longrightarrow> a < length m \<and> unpack (m ! a) = Some xs"
  by (simp add: readArray_def split: if_splits)

lemma readArray_agree: "readArray unpack m a = Some xs \<Longrightarrow> agreeOn {a} m m' \<Longrightarrow> readArray unpack m' a = Some xs"
  by (auto simp: readArray_def agreeOn_def split: if_splits)

lemma readArray_other: "b \<noteq> a \<Longrightarrow> readArray unpack (m[a := c]) b = readArray unpack m b"
  by (simp add: readArray_def)

lemma readArray_update [simp]: "a < length m \<Longrightarrow> readArray unpack (m[a := pack xs]) a = Some xs"
  by (simp add: readArray_def)

lemma readSlice_cases:
  assumes "readSlice unpack m s = Some xs"
  obtains "s = NilSlice" "xs = []"
  | a n ys where "s = Slice a n" "readArray unpack m a = Some ys" "n \<le> length ys" "xs = take n ys" "a < length m"
  using assms by (cases s) (auto simp: bind_eq_Some_conv split: if_splits dest: readArray_SomeD)

lemma readPointer_cases:
  assumes "readPointer unpack m p = Some x"
  obtains "p = None" "x = None"
  | a y where "p = Some a" "readArray unpack m a = Some [y]" "x = Some y" "a < length m"
proof (cases p)
  case (Some a)
  with assms obtain ys where ys: "readArray unpack m a = Some ys" "(case ys of [y] \<Rightarrow> Some (Some y) | _ \<Rightarrow> None) = Some x"
    by (auto simp: bind_eq_Some_conv)
  then obtain y where "ys = [y]" "x = Some y" by (auto split: list.splits)
  with ys Some readArray_SomeD that(2) show thesis by blast
qed (use assms that(1) in simp)

lemma appendSlice_loads:
  assumes "readSlice unpack m s = Some ys"
  obtains s' m' where "appendSlice pack unpack spare s xs m = Some (s', m')" "readSlice unpack m' s' = Some (ys @ xs)"
    "length m \<le> length m'" "\<And>a. a < length m \<Longrightarrow> a \<notin> footSlice s \<Longrightarrow> m' ! a = m ! a"
    "footSlice s' \<subseteq> footSlice s \<union> {length m..<length m'}"
  using assms
proof (rule readSlice_cases)
  assume s: "s = NilSlice" "ys = []"
  show thesis
  proof (cases "xs = []")
    case True
    with s show thesis by (intro that [of NilSlice m]) simp_all
  next
    case False
    with s show thesis
      by (intro that [of "Slice (length m) (length xs)" "m @ [pack (xs @ spare xs)]"]) (simp_all add: nth_append)
  qed
next
  fix a n zs assume s: "s = Slice a n" "readArray unpack m a = Some zs" "n \<le> length zs" "ys = take n zs" "a < length m"
  show thesis
  proof (cases "n + length xs \<le> length zs")
    case True
    with s show thesis
      by (intro that [of "Slice a (n + length xs)" "m[a := pack (take n zs @ xs @ drop (n + length xs) zs)]"]) simp_all
  next
    case False
    with s show thesis
      by (intro that [of "Slice (length m) (n + length xs)" "m @ [pack (take n zs @ xs @ spare (take n zs @ xs))]"])
        (simp_all add: nth_append)
  qed
qed

end

sublocale kind \<subseteq> pointer: deep_copy "readPointer unpack" "\<lambda>m. footPointer" "copyPointer pack unpack"
proof
  fix m p v assume l: "readPointer unpack m p = Some v"
  then show "footPointer p \<subseteq> {..<length m}" by (rule readPointer_cases) auto
  from l show "\<exists>p' cs. copyPointer pack unpack p m = Some (p', m @ cs) \<and> readPointer unpack (m @ cs) p' = Some v \<and>
    footPointer p' \<subseteq> {length m..<length m + length cs}"
  proof (rule readPointer_cases)
    fix a y assume "p = Some a" "readArray unpack m a = Some [y]" "v = Some y"
    then show ?thesis by (intro exI [of _ "Some (length m)"] exI [of _ "[pack [y]]"]) simp
  qed (auto intro: exI [of _ "[]"])
next
  fix m p v m' assume l: "readPointer unpack m p = Some v" and g: "agreeOn (footPointer p) m m'"
  from l show "readPointer unpack m' p = Some v \<and> footPointer p = footPointer p"
  proof (rule readPointer_cases)
    fix a y assume p: "p = Some a" and r: "readArray unpack m a = Some [y]" and "v = Some y"
    moreover have "readArray unpack m' a = Some [y]" using readArray_agree [OF r, of m'] g p by simp
    ultimately show ?thesis by simp
  qed simp
qed

sublocale kind \<subseteq> flat: deep_copy "readSlice unpack" "\<lambda>m. footSlice" "copySlice pack unpack"
proof
  fix m s v assume l: "readSlice unpack m s = Some v"
  then show "footSlice s \<subseteq> {..<length m}" by (rule readSlice_cases) auto
  from l show "\<exists>s' cs. copySlice pack unpack s m = Some (s', m @ cs) \<and> readSlice unpack (m @ cs) s' = Some v \<and>
    footSlice s' \<subseteq> {length m..<length m + length cs}"
  proof (rule readSlice_cases)
    fix a n ys assume "s = Slice a n" "readArray unpack m a = Some ys" "n \<le> length ys" "v = take n ys"
    then show ?thesis
      by (intro exI [of _ "Slice (length m) n"] exI [of _ "[pack v]"]) (simp add: makeSlice_def min_def)
  qed (auto intro: exI [of _ "[]"])
next
  fix m s v m' assume l: "readSlice unpack m s = Some v" and g: "agreeOn (footSlice s) m m'"
  from l show "readSlice unpack m' s = Some v \<and> footSlice s = footSlice s"
  proof (rule readSlice_cases)
    fix a n ys assume s: "s = Slice a n" and r: "readArray unpack m a = Some ys" and "n \<le> length ys" "v = take n ys"
    moreover have "readArray unpack m' a = Some ys" using readArray_agree [OF r, of m'] g s by simp
    ultimately show ?thesis by simp
  qed simp
qed

section \<open>Slices of structs that have references of their own\<close>

definition loadEach :: "('c \<Rightarrow> 'a list option) \<Rightarrow> ('c mem \<Rightarrow> 'a \<Rightarrow> 'v option) \<Rightarrow> 'c mem \<Rightarrow> slice \<Rightarrow> 'v list option" where
  "loadEach unpack load m s = do { xs \<leftarrow> readSlice unpack m s; those (map (load m) xs) }"

definition footEach :: "('c \<Rightarrow> 'a list option) \<Rightarrow> ('c mem \<Rightarrow> 'a \<Rightarrow> nat set) \<Rightarrow> 'c mem \<Rightarrow> slice \<Rightarrow> nat set" where
  "footEach unpack foot m s = footSlice s \<union> (case readSlice unpack m s of None \<Rightarrow> {} | Some xs \<Rightarrow> (\<Union>x\<in>set xs. foot m x))"

lemma those_eq_Some: "those xs = Some ys \<longleftrightarrow> xs = map Some ys"
  by (induction xs arbitrary: ys) (auto split: option.splits)

lemma those_map: "those (map f xs) = Some ys \<longleftrightarrow> list_all2 (\<lambda>x y. f x = Some y) xs ys"
  by (auto simp: those_eq_Some list_all2_conv_all_nth list_eq_iff_nth_eq)

locale kind_of_copies = kind pack unpack + elem: deep_copy load foot dup
  for pack :: "'a list \<Rightarrow> 'c" and unpack and load :: "'c mem \<Rightarrow> 'a \<Rightarrow> 'v option" and foot dup +
  fixes zero :: 'a
begin

lemma loadEach_cases:
  assumes "loadEach unpack load m s = Some vs"
  obtains rs where "readSlice unpack m s = Some rs" "list_all2 (\<lambda>r v. load m r = Some v) rs vs"
    "footEach unpack foot m s = footSlice s \<union> (\<Union>r\<in>set rs. foot m r)"
  using assms by (auto simp: loadEach_def footEach_def those_map bind_eq_Some_conv)

lemma loadEach_intro:
  "readSlice unpack m s = Some rs \<Longrightarrow> list_all2 (\<lambda>r v. load m r = Some v) rs vs \<Longrightarrow>
   loadEach unpack load m s = Some vs \<and> footEach unpack foot m s = footSlice s \<union> (\<Union>r\<in>set rs. foot m r)"
  by (simp add: loadEach_def footEach_def those_map)

lemma elems_agree:
  "list_all2 (\<lambda>r v. load m r = Some v) rs vs \<Longrightarrow> \<forall>r\<in>set rs. agreeOn (foot m r) m m' \<Longrightarrow>
   list_all2 (\<lambda>r v. load m' r = Some v) rs vs \<and> (\<forall>r\<in>set rs. foot m' r = foot m r)"
  by (induction rule: list_all2_induct) (auto dest: elem.load_agree)

lemma elems_old: "list_all2 (\<lambda>r v. load m r = Some v) rs vs \<Longrightarrow> (\<Union>r\<in>set rs. foot m r) \<subseteq> {..<length m}"
  by (induction rule: list_all2_induct) (auto dest: elem.foot_old)

lemma copyElements_loads:
  assumes "list_all2 (\<lambda>r v. load m r = Some v) rs vs" "\<forall>r\<in>set rs. out \<notin> foot m r"
    and "readArray unpack m out = Some ys" "length ys = i + length rs"
  shows "\<exists>ys' cs m'. m' = m[out := pack (take i ys @ ys')] @ cs \<and> copyElements pack unpack dup out i rs m = Some m' \<and>
    list_all2 (\<lambda>r v. load m' r = Some v) ys' vs \<and> (\<forall>y\<in>set ys'. foot m' y \<subseteq> {length m..<length m'})"
  using assms
proof (induction rs arbitrary: vs m ys i)
  case Nil
  then have "m ! out = pack (take i ys)" "vs = []"
    using readArray_SomeD [OF Nil(3)] by (auto dest: pack_unpack)
  then have "m[out := pack (take i ys @ [])] @ [] = m" by (metis append_Nil2 list_update_id)
  then show ?case using \<open>vs = []\<close> by (intro exI [of _ "[]"] exI [of _ m]) simp
next
  case (Cons r rs)
  from Cons.prems(1) obtain v ws where vs: "vs = v # ws" "load m r = Some v" "list_all2 (\<lambda>r v. load m r = Some v) rs ws"
    by (auto simp: list_all2_Cons1)
  from elem.dup_loads [OF vs(2)] obtain y cs1 where y: "dup r m = Some (y, m @ cs1)" "load (m @ cs1) y = Some v"
    "foot (m @ cs1) y \<subseteq> {length m..<length m + length cs1}" by blast
  have out: "out < length m" "unpack (m ! out) = Some ys" using readArray_SomeD [OF Cons.prems(3)] by auto
  let ?m2 = "m[out := pack (ys[i := y])] @ cs1"
  have w: "writeArray pack unpack out i y (m @ cs1) = Some ?m2"
    using out Cons.prems(4) by (simp add: writeArray_def readArray_def nth_append list_update_append)
  have old: "\<forall>r\<in>set rs. agreeOn (foot m r) m ?m2"
  proof
    fix r' assume r': "r' \<in> set rs"
    then have "foot m r' \<subseteq> {..<length m}" "out \<notin> foot m r'" using elems_old [OF vs(3)] Cons.prems(2) by auto
    then show "agreeOn (foot m r') m ?m2" by (auto simp: agreeOn_def nth_append) (metis nth_list_update_neq)
  qed
  from elems_agree [OF vs(3) old] have rs: "list_all2 (\<lambda>r v. load ?m2 r = Some v) rs ws" "\<forall>r\<in>set rs. out \<notin> foot ?m2 r"
    using Cons.prems(2) by auto
  have "readArray unpack ?m2 out = Some (ys[i := y])" using out by (simp add: readArray_def nth_append)
  from Cons.IH [OF rs this, of "Suc i"] Cons.prems(4) obtain ys' cs2 m' where
    IH: "m' = ?m2[out := pack (take (Suc i) (ys[i := y]) @ ys')] @ cs2" "copyElements pack unpack dup out (Suc i) rs ?m2 = Some m'"
      "list_all2 (\<lambda>r v. load m' r = Some v) ys' ws" "\<forall>y\<in>set ys'. foot m' y \<subseteq> {length ?m2..<length m'}" by auto
  have "take (Suc i) (ys[i := y]) = take i ys @ [y]" using Cons.prems(4) by (simp add: take_Suc_conv_app_nth)
  then have m': "m' = m[out := pack (take i ys @ y # ys')] @ (cs1 @ cs2)" using IH(1) out by (simp add: list_update_append)
  have "agreeOn (foot (m @ cs1) y) (m @ cs1) m'"
    using y(3) out by (fastforce simp: m' agreeOn_def nth_append)
  from elem.load_agree [OF y(2) this] y(3) have "load m' y = Some v" "foot m' y \<subseteq> {length m..<length m'}" by (auto simp: m')
  with IH(2-4) y(1) w vs(1) m' show ?case by (intro exI [of _ "y # ys'"] exI [of _ "cs1 @ cs2"] exI [of _ m']) fastforce
qed

end

sublocale kind_of_copies \<subseteq> each: deep_copy "loadEach unpack load" "footEach unpack foot" "copyEach pack unpack zero dup"
proof
  fix m s v assume l: "loadEach unpack load m s = Some v"
  obtain rs where rs: "readSlice unpack m s = Some rs" "list_all2 (\<lambda>r v. load m r = Some v) rs v"
    "footEach unpack foot m s = footSlice s \<union> (\<Union>r\<in>set rs. foot m r)"
    using loadEach_cases [OF l] .
  show "footEach unpack foot m s \<subseteq> {..<length m}"
    using rs elems_old [OF rs(2)] flat.foot_old [OF rs(1)] by simp
  show "\<exists>s' cs. copyEach pack unpack zero dup s m = Some (s', m @ cs) \<and> loadEach unpack load (m @ cs) s' = Some v \<and>
    footEach unpack foot (m @ cs) s' \<subseteq> {length m..<length m + length cs}"
  proof (cases s)
    case NilSlice
    with l show ?thesis by (auto simp: loadEach_def footEach_def intro!: exI [of _ "[]"])
  next
    case (Slice a n)
    have n: "length rs = n" using rs(1) Slice by (auto simp: bind_eq_Some_conv split: if_splits)
    let ?m = "m @ [pack (replicate n zero)]"
    have old: "\<forall>r\<in>set rs. agreeOn (foot m r) m ?m" using elems_old [OF rs(2)] by (auto intro: agreeOn_append)
    have fresh: "\<forall>r\<in>set rs. length m \<notin> foot ?m r" using elems_agree [OF rs(2) old] elems_old [OF rs(2)] by auto
    from copyElements_loads [OF conjunct1 [OF elems_agree [OF rs(2) old]] fresh, of "replicate n zero" 0] n
    obtain ys cs m' where m': "m' = ?m[length m := pack ys] @ cs" "copyElements pack unpack dup (length m) 0 rs ?m = Some m'"
      "list_all2 (\<lambda>r v. load m' r = Some v) ys v" "\<forall>y\<in>set ys. foot m' y \<subseteq> {length ?m..<length m'}" by auto
    have e: "m' = m @ pack ys # cs" using m'(1) by simp
    have "length ys = n" using list_all2_lengthD [OF m'(3)] list_all2_lengthD [OF rs(2)] n by simp
    then have "readSlice unpack m' (Slice (length m) n) = Some ys" by (simp add: e)
    from loadEach_intro [OF this m'(3)] m'(2,4) e rs(1) n Slice show ?thesis
      by (intro exI [of _ "Slice (length m) n"] exI [of _ "pack ys # cs"]) (fastforce simp: makeSlice_def)
  qed
next
  fix m s v m' assume l: "loadEach unpack load m s = Some v" and g: "agreeOn (footEach unpack foot m s) m m'"
  obtain rs where rs: "readSlice unpack m s = Some rs" "list_all2 (\<lambda>r v. load m r = Some v) rs v"
    "footEach unpack foot m s = footSlice s \<union> (\<Union>r\<in>set rs. foot m r)"
    using loadEach_cases [OF l] .
  from g rs(3) have g': "agreeOn (footSlice s) m m'" "\<forall>r\<in>set rs. agreeOn (foot m r) m m'"
    by (auto intro: agreeOn_subset)
  from flat.load_agree [OF rs(1) g'(1)] have "readSlice unpack m' s = Some rs" by simp
  from loadEach_intro [OF this conjunct1 [OF elems_agree [OF rs(2) g'(2)]]] elems_agree [OF rs(2) g'(2)] rs(3)
  show "loadEach unpack load m' s = Some v \<and> footEach unpack foot m' s = footEach unpack foot m s" by simp
qed

end
