(* ===== verification/Deep_Copies.thy ===== *)
theory Deep_Copies
  imports Api_Types Go_Memory
begin

text \<open>
  The deep copies of \<open>zz_generated.deepcopy.go\<close> for the custom resources, on memory. A struct in memory is its
  record of \<open>Api_Types\<close> for the fields that are stored in the struct itself, together with where its slices and
  pointers lead (the fields ending in \<open>At\<close>) and with the structs inside it that have such fields themselves (those ending
  in \<open>In\<close>); what the record holds for these is not looked at. \<open>load\<close> reads the value of a struct, \<open>foot\<close> is the memory it
  occupies, and each \<open>T_DeepCopyInto\<close> is shown to meet the contract \<open>deep_copy\<close>. \<open>ObjectMeta\<close>,
  \<open>metav1.Condition\<close> and \<open>metav1.Time\<close> are the library's, and their copies are taken to be new values.
\<close>

section \<open>Structs in memory\<close>

record MemState =
  StateFields :: SLOMeasurementState
  ValuesAt :: slice

record MemResult =
  ResultFields :: SLOResult
  MinSliAt :: pointer
  MaxSliAt :: pointer

record MemZone =
  ZoneFields :: ZoneSpec
  CPUAt :: pointer
  MemoryAt :: pointer
  DiskAt :: pointer

record MemLink =
  LinkFields :: ZoneLinkSpec
  LinkZonesAt :: slice

record MemFault =
  FaultFields :: FaultSpec
  FaultZonesAt :: slice

record MemDuration =
  DurationFields :: DurationConfig
  LoadDelayAt :: pointer
  EvalDelayAt :: pointer
  TopologyDelayAt :: pointer
  ChaosDelayAt :: pointer
  MeasurementDurationAt :: pointer
  MeasurementSampleIntervalAt :: pointer

record MemManifests =
  ManifestsFields :: ManifestsConfig
  SutAt :: pointer
  LoadAt :: pointer
  InfraAt :: pointer
  MonitorAt :: pointer

record MemPrometheus =
  PrometheusFields :: PrometheusConfig
  QueryTimeoutSecondsAt :: pointer

record MemSpec =
  SpecFields :: ExperimentSpec
  DurationIn :: MemDuration
  ManifestsIn :: MemManifests
  TopologyRefAt :: pointer
  ChaosPhaseRefAt :: pointer
  PrometheusIn :: MemPrometheus
  SLOsAt :: slice

record MemStatus =
  StatusFields :: ExperimentStatus
  SubPhaseStartTimeAt :: pointer
  MeasurementStateAt :: slice
  StartTimeAt :: pointer
  CompletionTimeAt :: pointer
  ManifestConfigMapsAt :: slice
  SloResultsAt :: slice
  AggregateScoreAt :: pointer
  ConditionsAt :: slice

record MemExperiment =
  ExperimentFields :: Experiment
  SpecIn :: MemSpec
  StatusIn :: MemStatus

record MemTopologySpec =
  TopologySpecFields :: TopologySpec
  ZonesAt :: slice
  LinksAt :: slice

record MemTopologyStatus =
  TopologyStatusFields :: TopologyStatus
  TopZonesAt :: slice
  NetworkChaosRefsAt :: slice
  TopConditionsAt :: slice

record MemTopology =
  TopologyFields :: Topology
  TopSpecIn :: MemTopologySpec
  TopStatusIn :: MemTopologyStatus

record MemChaosPhaseSpec =
  ChaosPhaseSpecFields :: ChaosPhaseSpec
  FaultsAt :: slice

record MemChaosPhase =
  ChaosPhaseFields :: ChaosPhase
  CpSpecIn :: MemChaosPhaseSpec

text \<open>The kinds of arrays.\<close>

datatype cell =
    ArrInt32 "int32 list"
  | ArrFloat64 "float64 list"
  | ArrString "string list"
  | ArrTime "Time list"
  | ArrManifestRef "ManifestRef list"
  | ArrSLOConfig "SLOConfig list"
  | ArrCondition "Condition list"
  | ArrZoneCPU "ZoneCPUSpec list"
  | ArrZoneMemory "ZoneMemorySpec list"
  | ArrZoneDisk "ZoneDiskSpec list"
  | ArrZoneStatus "ZoneStatus list"
  | ArrState "MemState list"
  | ArrResult "MemResult list"
  | ArrZone "MemZone list"
  | ArrLink "MemLink list"
  | ArrFault "MemFault list"
  | ArrExperiment "MemExperiment list"
  | ArrTopology "MemTopology list"
  | ArrChaosPhase "MemChaosPhase list"

definition unpackInt32 :: "cell \<Rightarrow> int32 list option" where
  "unpackInt32 c = (case c of ArrInt32 xs \<Rightarrow> Some xs | _ \<Rightarrow> None)"

definition unpackFloat64 :: "cell \<Rightarrow> float64 list option" where
  "unpackFloat64 c = (case c of ArrFloat64 xs \<Rightarrow> Some xs | _ \<Rightarrow> None)"

definition unpackString :: "cell \<Rightarrow> string list option" where
  "unpackString c = (case c of ArrString xs \<Rightarrow> Some xs | _ \<Rightarrow> None)"

definition unpackTime :: "cell \<Rightarrow> Time list option" where
  "unpackTime c = (case c of ArrTime xs \<Rightarrow> Some xs | _ \<Rightarrow> None)"

definition unpackManifestRef :: "cell \<Rightarrow> ManifestRef list option" where
  "unpackManifestRef c = (case c of ArrManifestRef xs \<Rightarrow> Some xs | _ \<Rightarrow> None)"

definition unpackSLOConfig :: "cell \<Rightarrow> SLOConfig list option" where
  "unpackSLOConfig c = (case c of ArrSLOConfig xs \<Rightarrow> Some xs | _ \<Rightarrow> None)"

definition unpackCondition :: "cell \<Rightarrow> Condition list option" where
  "unpackCondition c = (case c of ArrCondition xs \<Rightarrow> Some xs | _ \<Rightarrow> None)"

definition unpackZoneCPU :: "cell \<Rightarrow> ZoneCPUSpec list option" where
  "unpackZoneCPU c = (case c of ArrZoneCPU xs \<Rightarrow> Some xs | _ \<Rightarrow> None)"

definition unpackZoneMemory :: "cell \<Rightarrow> ZoneMemorySpec list option" where
  "unpackZoneMemory c = (case c of ArrZoneMemory xs \<Rightarrow> Some xs | _ \<Rightarrow> None)"

definition unpackZoneDisk :: "cell \<Rightarrow> ZoneDiskSpec list option" where
  "unpackZoneDisk c = (case c of ArrZoneDisk xs \<Rightarrow> Some xs | _ \<Rightarrow> None)"

definition unpackZoneStatus :: "cell \<Rightarrow> ZoneStatus list option" where
  "unpackZoneStatus c = (case c of ArrZoneStatus xs \<Rightarrow> Some xs | _ \<Rightarrow> None)"

definition unpackState :: "cell \<Rightarrow> MemState list option" where
  "unpackState c = (case c of ArrState xs \<Rightarrow> Some xs | _ \<Rightarrow> None)"

definition unpackResult :: "cell \<Rightarrow> MemResult list option" where
  "unpackResult c = (case c of ArrResult xs \<Rightarrow> Some xs | _ \<Rightarrow> None)"

definition unpackZone :: "cell \<Rightarrow> MemZone list option" where
  "unpackZone c = (case c of ArrZone xs \<Rightarrow> Some xs | _ \<Rightarrow> None)"

definition unpackLink :: "cell \<Rightarrow> MemLink list option" where
  "unpackLink c = (case c of ArrLink xs \<Rightarrow> Some xs | _ \<Rightarrow> None)"

definition unpackFault :: "cell \<Rightarrow> MemFault list option" where
  "unpackFault c = (case c of ArrFault xs \<Rightarrow> Some xs | _ \<Rightarrow> None)"

definition unpackExperiment :: "cell \<Rightarrow> MemExperiment list option" where
  "unpackExperiment c = (case c of ArrExperiment xs \<Rightarrow> Some xs | _ \<Rightarrow> None)"

definition unpackTopology :: "cell \<Rightarrow> MemTopology list option" where
  "unpackTopology c = (case c of ArrTopology xs \<Rightarrow> Some xs | _ \<Rightarrow> None)"

definition unpackChaosPhase :: "cell \<Rightarrow> MemChaosPhase list option" where
  "unpackChaosPhase c = (case c of ArrChaosPhase xs \<Rightarrow> Some xs | _ \<Rightarrow> None)"

section \<open>Zero values\<close>

text \<open>The elements of a slice fresh from \<open>make\<close>.\<close>

definition zeroState :: MemState where
  "zeroState = \<lparr>StateFields = \<lparr>StName = '''', Sum = fzero, Count = 0, Violations = 0, MinVal = fzero, MaxVal = fzero,
     MinSet = False, Values = []\<rparr>, ValuesAt = NilSlice\<rparr>"

definition zeroResult :: MemResult where
  "zeroResult = \<lparr>ResultFields = \<lparr>ResName = '''', ViolationScore = fzero, MeanSli = fzero, MinSli = None, MaxSli = None,
     Evaluations = 0, ResViolations = 0\<rparr>, MinSliAt = None, MaxSliAt = None\<rparr>"

definition zeroCondition :: Condition where
  "zeroCondition = \<lparr>CondType = '''', CondStatus = False, LastTransitionTime = 0, CondReason = '''', CondMessage = ''''\<rparr>"

definition zeroZone :: MemZone where
  "zeroZone = \<lparr>ZoneFields = \<lparr>ZoneSpecName = '''', CPU = None, Memory = None, Disk = None\<rparr>,
     CPUAt = None, MemoryAt = None, DiskAt = None\<rparr>"

definition zeroLink :: MemLink where
  "zeroLink = \<lparr>LinkFields = \<lparr>LinkZones = [], Latency = '''', Jitter = '''', Bandwidth = '''', PacketLoss = ''''\<rparr>,
     LinkZonesAt = NilSlice\<rparr>"

definition zeroFault :: MemFault where
  "zeroFault = \<lparr>FaultFields = \<lparr>Type = FaultOther '''', FaultZones = [], FaultLatency = '''', FaultJitter = '''',
     FaultBandwidth = '''', FaultPacketLoss = '''', Workers = 0, CpuLoad = 0, Size = '''', Manifest = ''''\<rparr>,
     FaultZonesAt = NilSlice\<rparr>"

section \<open>The kinds meet their contract\<close>

interpretation int32s: kind ArrInt32 unpackInt32
  by unfold_locales (simp_all add: unpackInt32_def split: cell.splits)

interpretation float64s: kind ArrFloat64 unpackFloat64
  by unfold_locales (simp_all add: unpackFloat64_def split: cell.splits)

interpretation strings: kind ArrString unpackString
  by unfold_locales (simp_all add: unpackString_def split: cell.splits)

interpretation times: kind ArrTime unpackTime
  by unfold_locales (simp_all add: unpackTime_def split: cell.splits)

interpretation manifestRefs: kind ArrManifestRef unpackManifestRef
  by unfold_locales (simp_all add: unpackManifestRef_def split: cell.splits)

interpretation sloConfigs: kind ArrSLOConfig unpackSLOConfig
  by unfold_locales (simp_all add: unpackSLOConfig_def split: cell.splits)

interpretation conditions: kind ArrCondition unpackCondition
  by unfold_locales (simp_all add: unpackCondition_def split: cell.splits)

interpretation zoneCPUs: kind ArrZoneCPU unpackZoneCPU
  by unfold_locales (simp_all add: unpackZoneCPU_def split: cell.splits)

interpretation zoneMemories: kind ArrZoneMemory unpackZoneMemory
  by unfold_locales (simp_all add: unpackZoneMemory_def split: cell.splits)

interpretation zoneDisks: kind ArrZoneDisk unpackZoneDisk
  by unfold_locales (simp_all add: unpackZoneDisk_def split: cell.splits)

interpretation zoneStatuses: kind ArrZoneStatus unpackZoneStatus
  by unfold_locales (simp_all add: unpackZoneStatus_def split: cell.splits)

interpretation states: kind ArrState unpackState
  by unfold_locales (simp_all add: unpackState_def split: cell.splits)

interpretation sloResults: kind ArrResult unpackResult
  by unfold_locales (simp_all add: unpackResult_def split: cell.splits)

interpretation zones: kind ArrZone unpackZone
  by unfold_locales (simp_all add: unpackZone_def split: cell.splits)

interpretation links: kind ArrLink unpackLink
  by unfold_locales (simp_all add: unpackLink_def split: cell.splits)

interpretation faults: kind ArrFault unpackFault
  by unfold_locales (simp_all add: unpackFault_def split: cell.splits)

interpretation experimentArrays: kind ArrExperiment unpackExperiment
  by unfold_locales (simp_all add: unpackExperiment_def split: cell.splits)

interpretation topologyArrays: kind ArrTopology unpackTopology
  by unfold_locales (simp_all add: unpackTopology_def split: cell.splits)

interpretation chaosPhaseArrays: kind ArrChaosPhase unpackChaosPhase
  by unfold_locales (simp_all add: unpackChaosPhase_def split: cell.splits)

section \<open>The copies\<close>

lemma map_option_bind: "map_option f (Option.bind x g) = Option.bind x (\<lambda>y. map_option f (g y))"
  by (cases x) simp_all

lemma bind_case_prod: "Option.bind (case p of (a, b) \<Rightarrow> f a b) g = (case p of (a, b) \<Rightarrow> Option.bind (f a b) g)"
  by (simp add: case_prod_unfold)

lemma bind_Some: "Option.bind x (\<lambda>y. Some (f y)) = map_option f x"
  by (cases x) simp_all

lemmas one_simps = bind_Some case_prod_unfold

lemmas struct_simps = map_option_bind bind_case_prod case_prod_unfold Un_assoc Option.bind_assoc [symmetric]

text \<open>\<open>metav1.Condition\<close>: its time has no parts the program could write to.\<close>

definition Condition_DeepCopyInto :: "Condition \<Rightarrow> cell mem \<Rightarrow> (Condition \<times> cell mem) option" where
  "Condition_DeepCopyInto c m = Some (c, m)"

definition loadCondition :: "cell mem \<Rightarrow> Condition \<Rightarrow> Condition option" where
  "loadCondition m c = Some c"

definition footCondition :: "cell mem \<Rightarrow> Condition \<Rightarrow> nat set" where
  "footCondition m c = {}"

interpretation conditionStructs: deep_copy loadCondition footCondition Condition_DeepCopyInto
  unfolding loadCondition_def footCondition_def Condition_DeepCopyInto_def by (rule deep_copy_flat)

interpretation conditionsEach: kind_of_copies ArrCondition unpackCondition loadCondition footCondition Condition_DeepCopyInto zeroCondition
  by unfold_locales

definition loadDuration :: "cell mem \<Rightarrow> MemDuration \<Rightarrow> DurationConfig option" where
  "loadDuration m s = do {
     loadDelay \<leftarrow> readPointer unpackInt32 m (LoadDelayAt s);
     evalDelay \<leftarrow> readPointer unpackInt32 m (EvalDelayAt s);
     topologyDelay \<leftarrow> readPointer unpackInt32 m (TopologyDelayAt s);
     chaosDelay \<leftarrow> readPointer unpackInt32 m (ChaosDelayAt s);
     measurementDuration \<leftarrow> readPointer unpackInt32 m (MeasurementDurationAt s);
     measurementSampleInterval \<leftarrow> readPointer unpackInt32 m (MeasurementSampleIntervalAt s);
     Some ((DurationFields s)\<lparr>LoadDelay := loadDelay, EvalDelay := evalDelay,
         TopologyDelay := topologyDelay, ChaosDelay := chaosDelay, MeasurementDuration := measurementDuration,
         MeasurementSampleInterval := measurementSampleInterval\<rparr>)
   }"

definition footDuration :: "cell mem \<Rightarrow> MemDuration \<Rightarrow> nat set" where
  "footDuration m s = footPointer (LoadDelayAt s) \<union> footPointer (EvalDelayAt s)
      \<union> footPointer (TopologyDelayAt s) \<union> footPointer (ChaosDelayAt s)
      \<union> footPointer (MeasurementDurationAt s) \<union> footPointer (MeasurementSampleIntervalAt s)"

definition DurationConfig_DeepCopyInto :: "MemDuration \<Rightarrow> cell mem \<Rightarrow> (MemDuration \<times> cell mem) option" where
  "DurationConfig_DeepCopyInto s m = do {
     (loadDelay, m) \<leftarrow> copyPointer ArrInt32 unpackInt32 (LoadDelayAt s) m;
     (evalDelay, m) \<leftarrow> copyPointer ArrInt32 unpackInt32 (EvalDelayAt s) m;
     (topologyDelay, m) \<leftarrow> copyPointer ArrInt32 unpackInt32 (TopologyDelayAt s) m;
     (chaosDelay, m) \<leftarrow> copyPointer ArrInt32 unpackInt32 (ChaosDelayAt s) m;
     (measurementDuration, m) \<leftarrow> copyPointer ArrInt32 unpackInt32 (MeasurementDurationAt s) m;
     (measurementSampleInterval, m) \<leftarrow> copyPointer ArrInt32 unpackInt32 (MeasurementSampleIntervalAt s) m;
     Some (s\<lparr>LoadDelayAt := loadDelay, EvalDelayAt := evalDelay, TopologyDelayAt := topologyDelay,
         ChaosDelayAt := chaosDelay, MeasurementDurationAt := measurementDuration,
         MeasurementSampleIntervalAt := measurementSampleInterval\<rparr>, m)
   }"

interpretation durations: deep_copy loadDuration footDuration DurationConfig_DeepCopyInto
  by (rule deep_copy_via [OF deep_copy_pair [OF int32s.pointer.deep_copy_axioms
    deep_copy_pair [OF int32s.pointer.deep_copy_axioms
    deep_copy_pair [OF int32s.pointer.deep_copy_axioms
    deep_copy_pair [OF int32s.pointer.deep_copy_axioms
    deep_copy_pair [OF int32s.pointer.deep_copy_axioms int32s.pointer.deep_copy_axioms]]]]],
      where refs = "\<lambda>s. (LoadDelayAt s, (EvalDelayAt s, (TopologyDelayAt s, (ChaosDelayAt s,
          (MeasurementDurationAt s, MeasurementSampleIntervalAt s)))))"
        and mk = "\<lambda>s (loadDelay, (evalDelay, (topologyDelay, (chaosDelay, (measurementDuration,
            measurementSampleInterval))))). (DurationFields s)\<lparr>LoadDelay := loadDelay,
            EvalDelay := evalDelay, TopologyDelay := topologyDelay, ChaosDelay := chaosDelay,
            MeasurementDuration := measurementDuration,
            MeasurementSampleInterval := measurementSampleInterval\<rparr>"
        and put = "\<lambda>s (loadDelay, (evalDelay, (topologyDelay, (chaosDelay, (measurementDuration,
            measurementSampleInterval))))). s\<lparr>LoadDelayAt := loadDelay, EvalDelayAt := evalDelay,
            TopologyDelayAt := topologyDelay, ChaosDelayAt := chaosDelay,
            MeasurementDurationAt := measurementDuration,
            MeasurementSampleIntervalAt := measurementSampleInterval\<rparr>"])
    (simp_all add: loadDuration_def footDuration_def DurationConfig_DeepCopyInto_def struct_simps)

definition loadManifests :: "cell mem \<Rightarrow> MemManifests \<Rightarrow> ManifestsConfig option" where
  "loadManifests m s = do {
     sut \<leftarrow> readPointer unpackManifestRef m (SutAt s);
     load \<leftarrow> readPointer unpackManifestRef m (LoadAt s);
     infra \<leftarrow> readPointer unpackManifestRef m (InfraAt s);
     monitor \<leftarrow> readPointer unpackManifestRef m (MonitorAt s);
     Some ((ManifestsFields s)\<lparr>Sut := sut, Load := load, Infra := infra, Monitor := monitor\<rparr>)
   }"

definition footManifests :: "cell mem \<Rightarrow> MemManifests \<Rightarrow> nat set" where
  "footManifests m s = footPointer (SutAt s) \<union> footPointer (LoadAt s)
      \<union> footPointer (InfraAt s) \<union> footPointer (MonitorAt s)"

definition ManifestsConfig_DeepCopyInto :: "MemManifests \<Rightarrow> cell mem \<Rightarrow> (MemManifests \<times> cell mem) option" where
  "ManifestsConfig_DeepCopyInto s m = do {
     (sut, m) \<leftarrow> copyPointer ArrManifestRef unpackManifestRef (SutAt s) m;
     (load, m) \<leftarrow> copyPointer ArrManifestRef unpackManifestRef (LoadAt s) m;
     (infra, m) \<leftarrow> copyPointer ArrManifestRef unpackManifestRef (InfraAt s) m;
     (monitor, m) \<leftarrow> copyPointer ArrManifestRef unpackManifestRef (MonitorAt s) m;
     Some (s\<lparr>SutAt := sut, LoadAt := load, InfraAt := infra, MonitorAt := monitor\<rparr>, m)
   }"

interpretation manifestSets: deep_copy loadManifests footManifests ManifestsConfig_DeepCopyInto
  by (rule deep_copy_via [OF deep_copy_pair [OF manifestRefs.pointer.deep_copy_axioms
    deep_copy_pair [OF manifestRefs.pointer.deep_copy_axioms
    deep_copy_pair [OF manifestRefs.pointer.deep_copy_axioms manifestRefs.pointer.deep_copy_axioms]]],
      where refs = "\<lambda>s. (SutAt s, (LoadAt s, (InfraAt s, MonitorAt s)))"
        and mk = "\<lambda>s (sut, (load, (infra, monitor))). (ManifestsFields s)\<lparr>Sut := sut,
            Load := load, Infra := infra, Monitor := monitor\<rparr>"
        and put = "\<lambda>s (sut, (load, (infra, monitor))). s\<lparr>SutAt := sut, LoadAt := load,
            InfraAt := infra, MonitorAt := monitor\<rparr>"])
    (simp_all add: loadManifests_def footManifests_def ManifestsConfig_DeepCopyInto_def struct_simps)

definition loadPrometheus :: "cell mem \<Rightarrow> MemPrometheus \<Rightarrow> PrometheusConfig option" where
  "loadPrometheus m s = do {
     queryTimeoutSeconds \<leftarrow> readPointer unpackInt32 m (QueryTimeoutSecondsAt s);
     Some ((PrometheusFields s)\<lparr>QueryTimeoutSeconds := queryTimeoutSeconds\<rparr>)
   }"

definition footPrometheus :: "cell mem \<Rightarrow> MemPrometheus \<Rightarrow> nat set" where
  "footPrometheus m s = footPointer (QueryTimeoutSecondsAt s)"

definition PrometheusConfig_DeepCopyInto :: "MemPrometheus \<Rightarrow> cell mem \<Rightarrow> (MemPrometheus \<times> cell mem) option" where
  "PrometheusConfig_DeepCopyInto s m = do {
     (queryTimeoutSeconds, m) \<leftarrow> copyPointer ArrInt32 unpackInt32 (QueryTimeoutSecondsAt s) m;
     Some (s\<lparr>QueryTimeoutSecondsAt := queryTimeoutSeconds\<rparr>, m)
   }"

interpretation prometheusConfigs: deep_copy loadPrometheus footPrometheus PrometheusConfig_DeepCopyInto
  by (rule deep_copy_via [OF int32s.pointer.deep_copy_axioms,
      where refs = "\<lambda>s. QueryTimeoutSecondsAt s"
        and mk = "\<lambda>s queryTimeoutSeconds. (PrometheusFields s)\<lparr>QueryTimeoutSeconds := queryTimeoutSeconds\<rparr>"
        and put = "\<lambda>s queryTimeoutSeconds. s\<lparr>QueryTimeoutSecondsAt := queryTimeoutSeconds\<rparr>"])
    (simp_all add: loadPrometheus_def footPrometheus_def PrometheusConfig_DeepCopyInto_def one_simps)

definition loadSpec :: "cell mem \<Rightarrow> MemSpec \<Rightarrow> ExperimentSpec option" where
  "loadSpec m s = do {
     duration \<leftarrow> loadDuration m (DurationIn s);
     manifests \<leftarrow> loadManifests m (ManifestsIn s);
     topologyRef \<leftarrow> readPointer unpackString m (TopologyRefAt s);
     chaosPhaseRef \<leftarrow> readPointer unpackString m (ChaosPhaseRefAt s);
     prometheus \<leftarrow> loadPrometheus m (PrometheusIn s);
     slos \<leftarrow> readSlice unpackSLOConfig m (SLOsAt s);
     Some ((SpecFields s)\<lparr>Duration := duration, Manifests := manifests, ExpTopologyRef := topologyRef,
         ChaosPhaseRef := chaosPhaseRef, Prometheus := prometheus, SLOs := slos\<rparr>)
   }"

definition footSpec :: "cell mem \<Rightarrow> MemSpec \<Rightarrow> nat set" where
  "footSpec m s = footDuration m (DurationIn s) \<union> footManifests m (ManifestsIn s)
      \<union> footPointer (TopologyRefAt s) \<union> footPointer (ChaosPhaseRefAt s)
      \<union> footPrometheus m (PrometheusIn s) \<union> footSlice (SLOsAt s)"

definition ExperimentSpec_DeepCopyInto :: "MemSpec \<Rightarrow> cell mem \<Rightarrow> (MemSpec \<times> cell mem) option" where
  "ExperimentSpec_DeepCopyInto s m = do {
     (duration, m) \<leftarrow> DurationConfig_DeepCopyInto (DurationIn s) m;
     (manifests, m) \<leftarrow> ManifestsConfig_DeepCopyInto (ManifestsIn s) m;
     (topologyRef, m) \<leftarrow> copyPointer ArrString unpackString (TopologyRefAt s) m;
     (chaosPhaseRef, m) \<leftarrow> copyPointer ArrString unpackString (ChaosPhaseRefAt s) m;
     (prometheus, m) \<leftarrow> PrometheusConfig_DeepCopyInto (PrometheusIn s) m;
     (slos, m) \<leftarrow> copySlice ArrSLOConfig unpackSLOConfig (SLOsAt s) m;
     Some (s\<lparr>DurationIn := duration, ManifestsIn := manifests, TopologyRefAt := topologyRef,
         ChaosPhaseRefAt := chaosPhaseRef, PrometheusIn := prometheus, SLOsAt := slos\<rparr>, m)
   }"

interpretation experimentSpecs: deep_copy loadSpec footSpec ExperimentSpec_DeepCopyInto
  by (rule deep_copy_via [OF deep_copy_pair [OF durations.deep_copy_axioms
    deep_copy_pair [OF manifestSets.deep_copy_axioms
    deep_copy_pair [OF strings.pointer.deep_copy_axioms
    deep_copy_pair [OF strings.pointer.deep_copy_axioms
    deep_copy_pair [OF prometheusConfigs.deep_copy_axioms sloConfigs.flat.deep_copy_axioms]]]]],
      where refs = "\<lambda>s. (DurationIn s, (ManifestsIn s, (TopologyRefAt s, (ChaosPhaseRefAt s,
          (PrometheusIn s, SLOsAt s)))))"
        and mk = "\<lambda>s (duration, (manifests, (topologyRef, (chaosPhaseRef, (prometheus,
            slos))))). (SpecFields s)\<lparr>Duration := duration, Manifests := manifests,
            ExpTopologyRef := topologyRef, ChaosPhaseRef := chaosPhaseRef, Prometheus := prometheus,
            SLOs := slos\<rparr>"
        and put = "\<lambda>s (duration, (manifests, (topologyRef, (chaosPhaseRef, (prometheus,
            slos))))). s\<lparr>DurationIn := duration, ManifestsIn := manifests, TopologyRefAt := topologyRef,
            ChaosPhaseRefAt := chaosPhaseRef, PrometheusIn := prometheus, SLOsAt := slos\<rparr>"])
    (simp_all add: loadSpec_def footSpec_def ExperimentSpec_DeepCopyInto_def struct_simps)

definition loadState :: "cell mem \<Rightarrow> MemState \<Rightarrow> SLOMeasurementState option" where
  "loadState m s = do {
     values \<leftarrow> readSlice unpackFloat64 m (ValuesAt s);
     Some ((StateFields s)\<lparr>Values := values\<rparr>)
   }"

definition footState :: "cell mem \<Rightarrow> MemState \<Rightarrow> nat set" where
  "footState m s = footSlice (ValuesAt s)"

definition SLOMeasurementState_DeepCopyInto :: "MemState \<Rightarrow> cell mem \<Rightarrow> (MemState \<times> cell mem) option" where
  "SLOMeasurementState_DeepCopyInto s m = do {
     (values, m) \<leftarrow> copySlice ArrFloat64 unpackFloat64 (ValuesAt s) m;
     Some (s\<lparr>ValuesAt := values\<rparr>, m)
   }"

interpretation measurementStates: deep_copy loadState footState SLOMeasurementState_DeepCopyInto
  by (rule deep_copy_via [OF float64s.flat.deep_copy_axioms,
      where refs = "\<lambda>s. ValuesAt s"
        and mk = "\<lambda>s values. (StateFields s)\<lparr>Values := values\<rparr>"
        and put = "\<lambda>s values. s\<lparr>ValuesAt := values\<rparr>"])
    (simp_all add: loadState_def footState_def SLOMeasurementState_DeepCopyInto_def one_simps)

interpretation statesEach: kind_of_copies ArrState unpackState loadState footState SLOMeasurementState_DeepCopyInto zeroState
  by unfold_locales

definition loadResult :: "cell mem \<Rightarrow> MemResult \<Rightarrow> SLOResult option" where
  "loadResult m s = do {
     minSli \<leftarrow> readPointer unpackFloat64 m (MinSliAt s);
     maxSli \<leftarrow> readPointer unpackFloat64 m (MaxSliAt s);
     Some ((ResultFields s)\<lparr>MinSli := minSli, MaxSli := maxSli\<rparr>)
   }"

definition footResult :: "cell mem \<Rightarrow> MemResult \<Rightarrow> nat set" where
  "footResult m s = footPointer (MinSliAt s) \<union> footPointer (MaxSliAt s)"

definition SLOResult_DeepCopyInto :: "MemResult \<Rightarrow> cell mem \<Rightarrow> (MemResult \<times> cell mem) option" where
  "SLOResult_DeepCopyInto s m = do {
     (minSli, m) \<leftarrow> copyPointer ArrFloat64 unpackFloat64 (MinSliAt s) m;
     (maxSli, m) \<leftarrow> copyPointer ArrFloat64 unpackFloat64 (MaxSliAt s) m;
     Some (s\<lparr>MinSliAt := minSli, MaxSliAt := maxSli\<rparr>, m)
   }"

interpretation resultStructs: deep_copy loadResult footResult SLOResult_DeepCopyInto
  by (rule deep_copy_via [OF deep_copy_pair [OF float64s.pointer.deep_copy_axioms float64s.pointer.deep_copy_axioms],
      where refs = "\<lambda>s. (MinSliAt s, MaxSliAt s)"
        and mk = "\<lambda>s (minSli, maxSli). (ResultFields s)\<lparr>MinSli := minSli, MaxSli := maxSli\<rparr>"
        and put = "\<lambda>s (minSli, maxSli). s\<lparr>MinSliAt := minSli, MaxSliAt := maxSli\<rparr>"])
    (simp_all add: loadResult_def footResult_def SLOResult_DeepCopyInto_def struct_simps)

interpretation sloResultsEach: kind_of_copies ArrResult unpackResult loadResult footResult SLOResult_DeepCopyInto zeroResult
  by unfold_locales

definition loadStatus :: "cell mem \<Rightarrow> MemStatus \<Rightarrow> ExperimentStatus option" where
  "loadStatus m s = do {
     subPhaseStartTime \<leftarrow> readPointer unpackTime m (SubPhaseStartTimeAt s);
     measurementState \<leftarrow> loadEach unpackState loadState m (MeasurementStateAt s);
     startTime \<leftarrow> readPointer unpackTime m (StartTimeAt s);
     completionTime \<leftarrow> readPointer unpackTime m (CompletionTimeAt s);
     manifestConfigMaps \<leftarrow> readSlice unpackString m (ManifestConfigMapsAt s);
     sloResults \<leftarrow> loadEach unpackResult loadResult m (SloResultsAt s);
     aggregateScore \<leftarrow> readPointer unpackFloat64 m (AggregateScoreAt s);
     conditions \<leftarrow> loadEach unpackCondition loadCondition m (ConditionsAt s);
     Some ((StatusFields s)\<lparr>SubPhaseStartTime := subPhaseStartTime,
         MeasurementState := measurementState, StartTime := startTime, CompletionTime := completionTime,
         ManifestConfigMaps := manifestConfigMaps, SloResults := sloResults, AggregateScore := aggregateScore,
         Conditions := conditions\<rparr>)
   }"

definition footStatus :: "cell mem \<Rightarrow> MemStatus \<Rightarrow> nat set" where
  "footStatus m s = footPointer (SubPhaseStartTimeAt s)
      \<union> footEach unpackState footState m (MeasurementStateAt s)
      \<union> footPointer (StartTimeAt s) \<union> footPointer (CompletionTimeAt s)
      \<union> footSlice (ManifestConfigMapsAt s)
      \<union> footEach unpackResult footResult m (SloResultsAt s)
      \<union> footPointer (AggregateScoreAt s) \<union> footEach unpackCondition footCondition m (ConditionsAt s)"

definition ExperimentStatus_DeepCopyInto :: "MemStatus \<Rightarrow> cell mem \<Rightarrow> (MemStatus \<times> cell mem) option" where
  "ExperimentStatus_DeepCopyInto s m = do {
     (subPhaseStartTime, m) \<leftarrow> copyPointer ArrTime unpackTime (SubPhaseStartTimeAt s) m;
     (measurementState, m) \<leftarrow> copyEach ArrState unpackState zeroState SLOMeasurementState_DeepCopyInto (MeasurementStateAt s) m;
     (startTime, m) \<leftarrow> copyPointer ArrTime unpackTime (StartTimeAt s) m;
     (completionTime, m) \<leftarrow> copyPointer ArrTime unpackTime (CompletionTimeAt s) m;
     (manifestConfigMaps, m) \<leftarrow> copySlice ArrString unpackString (ManifestConfigMapsAt s) m;
     (sloResults, m) \<leftarrow> copyEach ArrResult unpackResult zeroResult SLOResult_DeepCopyInto (SloResultsAt s) m;
     (aggregateScore, m) \<leftarrow> copyPointer ArrFloat64 unpackFloat64 (AggregateScoreAt s) m;
     (conditions, m) \<leftarrow> copyEach ArrCondition unpackCondition zeroCondition Condition_DeepCopyInto (ConditionsAt s) m;
     Some (s\<lparr>SubPhaseStartTimeAt := subPhaseStartTime, MeasurementStateAt := measurementState,
         StartTimeAt := startTime, CompletionTimeAt := completionTime,
         ManifestConfigMapsAt := manifestConfigMaps, SloResultsAt := sloResults,
         AggregateScoreAt := aggregateScore, ConditionsAt := conditions\<rparr>, m)
   }"

interpretation experimentStatuses: deep_copy loadStatus footStatus ExperimentStatus_DeepCopyInto
  by (rule deep_copy_via [OF deep_copy_pair [OF times.pointer.deep_copy_axioms
    deep_copy_pair [OF statesEach.each.deep_copy_axioms
    deep_copy_pair [OF times.pointer.deep_copy_axioms
    deep_copy_pair [OF times.pointer.deep_copy_axioms
    deep_copy_pair [OF strings.flat.deep_copy_axioms
    deep_copy_pair [OF sloResultsEach.each.deep_copy_axioms
    deep_copy_pair [OF float64s.pointer.deep_copy_axioms conditionsEach.each.deep_copy_axioms]]]]]]],
      where refs = "\<lambda>s. (SubPhaseStartTimeAt s, (MeasurementStateAt s, (StartTimeAt s,
          (CompletionTimeAt s, (ManifestConfigMapsAt s, (SloResultsAt s, (AggregateScoreAt s, ConditionsAt s)))))))"
        and mk = "\<lambda>s (subPhaseStartTime, (measurementState, (startTime, (completionTime,
            (manifestConfigMaps, (sloResults, (aggregateScore,
            conditions))))))). (StatusFields s)\<lparr>SubPhaseStartTime := subPhaseStartTime,
            MeasurementState := measurementState, StartTime := startTime, CompletionTime := completionTime,
            ManifestConfigMaps := manifestConfigMaps, SloResults := sloResults,
            AggregateScore := aggregateScore, Conditions := conditions\<rparr>"
        and put = "\<lambda>s (subPhaseStartTime, (measurementState, (startTime, (completionTime,
            (manifestConfigMaps, (sloResults, (aggregateScore,
            conditions))))))). s\<lparr>SubPhaseStartTimeAt := subPhaseStartTime,
            MeasurementStateAt := measurementState, StartTimeAt := startTime,
            CompletionTimeAt := completionTime, ManifestConfigMapsAt := manifestConfigMaps,
            SloResultsAt := sloResults, AggregateScoreAt := aggregateScore, ConditionsAt := conditions\<rparr>"])
    (simp_all add: loadStatus_def footStatus_def ExperimentStatus_DeepCopyInto_def struct_simps)

definition loadExperiment :: "cell mem \<Rightarrow> MemExperiment \<Rightarrow> Experiment option" where
  "loadExperiment m s = do {
     spec \<leftarrow> loadSpec m (SpecIn s);
     status \<leftarrow> loadStatus m (StatusIn s);
     Some ((ExperimentFields s)\<lparr>Spec := spec, Status := status\<rparr>)
   }"

definition footExperiment :: "cell mem \<Rightarrow> MemExperiment \<Rightarrow> nat set" where
  "footExperiment m s = footSpec m (SpecIn s) \<union> footStatus m (StatusIn s)"

definition Experiment_DeepCopyInto :: "MemExperiment \<Rightarrow> cell mem \<Rightarrow> (MemExperiment \<times> cell mem) option" where
  "Experiment_DeepCopyInto s m = do {
     (spec, m) \<leftarrow> ExperimentSpec_DeepCopyInto (SpecIn s) m;
     (status, m) \<leftarrow> ExperimentStatus_DeepCopyInto (StatusIn s) m;
     Some (s\<lparr>SpecIn := spec, StatusIn := status\<rparr>, m)
   }"

interpretation experiments: deep_copy loadExperiment footExperiment Experiment_DeepCopyInto
  by (rule deep_copy_via [OF deep_copy_pair [OF experimentSpecs.deep_copy_axioms experimentStatuses.deep_copy_axioms],
      where refs = "\<lambda>s. (SpecIn s, StatusIn s)"
        and mk = "\<lambda>s (spec, status). (ExperimentFields s)\<lparr>Spec := spec, Status := status\<rparr>"
        and put = "\<lambda>s (spec, status). s\<lparr>SpecIn := spec, StatusIn := status\<rparr>"])
    (simp_all add: loadExperiment_def footExperiment_def Experiment_DeepCopyInto_def struct_simps)

definition loadZone :: "cell mem \<Rightarrow> MemZone \<Rightarrow> ZoneSpec option" where
  "loadZone m s = do {
     cpu \<leftarrow> readPointer unpackZoneCPU m (CPUAt s);
     memory \<leftarrow> readPointer unpackZoneMemory m (MemoryAt s);
     disk \<leftarrow> readPointer unpackZoneDisk m (DiskAt s);
     Some ((ZoneFields s)\<lparr>CPU := cpu, Memory := memory, Disk := disk\<rparr>)
   }"

definition footZone :: "cell mem \<Rightarrow> MemZone \<Rightarrow> nat set" where
  "footZone m s = footPointer (CPUAt s) \<union> footPointer (MemoryAt s) \<union> footPointer (DiskAt s)"

definition ZoneSpec_DeepCopyInto :: "MemZone \<Rightarrow> cell mem \<Rightarrow> (MemZone \<times> cell mem) option" where
  "ZoneSpec_DeepCopyInto s m = do {
     (cpu, m) \<leftarrow> copyPointer ArrZoneCPU unpackZoneCPU (CPUAt s) m;
     (memory, m) \<leftarrow> copyPointer ArrZoneMemory unpackZoneMemory (MemoryAt s) m;
     (disk, m) \<leftarrow> copyPointer ArrZoneDisk unpackZoneDisk (DiskAt s) m;
     Some (s\<lparr>CPUAt := cpu, MemoryAt := memory, DiskAt := disk\<rparr>, m)
   }"

interpretation zoneSpecs: deep_copy loadZone footZone ZoneSpec_DeepCopyInto
  by (rule deep_copy_via [OF deep_copy_pair [OF zoneCPUs.pointer.deep_copy_axioms
    deep_copy_pair [OF zoneMemories.pointer.deep_copy_axioms zoneDisks.pointer.deep_copy_axioms]],
      where refs = "\<lambda>s. (CPUAt s, (MemoryAt s, DiskAt s))"
        and mk = "\<lambda>s (cpu, (memory, disk)). (ZoneFields s)\<lparr>CPU := cpu, Memory := memory,
            Disk := disk\<rparr>"
        and put = "\<lambda>s (cpu, (memory, disk)). s\<lparr>CPUAt := cpu, MemoryAt := memory,
            DiskAt := disk\<rparr>"])
    (simp_all add: loadZone_def footZone_def ZoneSpec_DeepCopyInto_def struct_simps)

interpretation zonesEach: kind_of_copies ArrZone unpackZone loadZone footZone ZoneSpec_DeepCopyInto zeroZone
  by unfold_locales

definition loadLink :: "cell mem \<Rightarrow> MemLink \<Rightarrow> ZoneLinkSpec option" where
  "loadLink m s = do {
     linkZones \<leftarrow> readSlice unpackString m (LinkZonesAt s);
     Some ((LinkFields s)\<lparr>LinkZones := linkZones\<rparr>)
   }"

definition footLink :: "cell mem \<Rightarrow> MemLink \<Rightarrow> nat set" where
  "footLink m s = footSlice (LinkZonesAt s)"

definition ZoneLinkSpec_DeepCopyInto :: "MemLink \<Rightarrow> cell mem \<Rightarrow> (MemLink \<times> cell mem) option" where
  "ZoneLinkSpec_DeepCopyInto s m = do {
     (linkZones, m) \<leftarrow> copySlice ArrString unpackString (LinkZonesAt s) m;
     Some (s\<lparr>LinkZonesAt := linkZones\<rparr>, m)
   }"

interpretation linkSpecs: deep_copy loadLink footLink ZoneLinkSpec_DeepCopyInto
  by (rule deep_copy_via [OF strings.flat.deep_copy_axioms,
      where refs = "\<lambda>s. LinkZonesAt s"
        and mk = "\<lambda>s linkZones. (LinkFields s)\<lparr>LinkZones := linkZones\<rparr>"
        and put = "\<lambda>s linkZones. s\<lparr>LinkZonesAt := linkZones\<rparr>"])
    (simp_all add: loadLink_def footLink_def ZoneLinkSpec_DeepCopyInto_def one_simps)

interpretation linksEach: kind_of_copies ArrLink unpackLink loadLink footLink ZoneLinkSpec_DeepCopyInto zeroLink
  by unfold_locales

definition loadTopologySpec :: "cell mem \<Rightarrow> MemTopologySpec \<Rightarrow> TopologySpec option" where
  "loadTopologySpec m s = do {
     zones \<leftarrow> loadEach unpackZone loadZone m (ZonesAt s);
     links \<leftarrow> loadEach unpackLink loadLink m (LinksAt s);
     Some ((TopologySpecFields s)\<lparr>Zones := zones, Links := links\<rparr>)
   }"

definition footTopologySpec :: "cell mem \<Rightarrow> MemTopologySpec \<Rightarrow> nat set" where
  "footTopologySpec m s = footEach unpackZone footZone m (ZonesAt s)
      \<union> footEach unpackLink footLink m (LinksAt s)"

definition TopologySpec_DeepCopyInto :: "MemTopologySpec \<Rightarrow> cell mem \<Rightarrow> (MemTopologySpec \<times> cell mem) option" where
  "TopologySpec_DeepCopyInto s m = do {
     (zones, m) \<leftarrow> copyEach ArrZone unpackZone zeroZone ZoneSpec_DeepCopyInto (ZonesAt s) m;
     (links, m) \<leftarrow> copyEach ArrLink unpackLink zeroLink ZoneLinkSpec_DeepCopyInto (LinksAt s) m;
     Some (s\<lparr>ZonesAt := zones, LinksAt := links\<rparr>, m)
   }"

interpretation topologySpecs: deep_copy loadTopologySpec footTopologySpec TopologySpec_DeepCopyInto
  by (rule deep_copy_via [OF deep_copy_pair [OF zonesEach.each.deep_copy_axioms linksEach.each.deep_copy_axioms],
      where refs = "\<lambda>s. (ZonesAt s, LinksAt s)"
        and mk = "\<lambda>s (zones, links). (TopologySpecFields s)\<lparr>Zones := zones, Links := links\<rparr>"
        and put = "\<lambda>s (zones, links). s\<lparr>ZonesAt := zones, LinksAt := links\<rparr>"])
    (simp_all add: loadTopologySpec_def footTopologySpec_def TopologySpec_DeepCopyInto_def struct_simps)

definition loadTopologyStatus :: "cell mem \<Rightarrow> MemTopologyStatus \<Rightarrow> TopologyStatus option" where
  "loadTopologyStatus m s = do {
     zones \<leftarrow> readSlice unpackZoneStatus m (TopZonesAt s);
     networkChaosRefs \<leftarrow> readSlice unpackString m (NetworkChaosRefsAt s);
     conditions \<leftarrow> loadEach unpackCondition loadCondition m (TopConditionsAt s);
     Some ((TopologyStatusFields s)\<lparr>TopZones := zones, NetworkChaosRefs := networkChaosRefs,
         TopConditions := conditions\<rparr>)
   }"

definition footTopologyStatus :: "cell mem \<Rightarrow> MemTopologyStatus \<Rightarrow> nat set" where
  "footTopologyStatus m s = footSlice (TopZonesAt s) \<union> footSlice (NetworkChaosRefsAt s)
      \<union> footEach unpackCondition footCondition m (TopConditionsAt s)"

definition TopologyStatus_DeepCopyInto :: "MemTopologyStatus \<Rightarrow> cell mem \<Rightarrow> (MemTopologyStatus \<times> cell mem) option" where
  "TopologyStatus_DeepCopyInto s m = do {
     (zones, m) \<leftarrow> copySlice ArrZoneStatus unpackZoneStatus (TopZonesAt s) m;
     (networkChaosRefs, m) \<leftarrow> copySlice ArrString unpackString (NetworkChaosRefsAt s) m;
     (conditions, m) \<leftarrow> copyEach ArrCondition unpackCondition zeroCondition Condition_DeepCopyInto (TopConditionsAt s) m;
     Some (s\<lparr>TopZonesAt := zones, NetworkChaosRefsAt := networkChaosRefs,
         TopConditionsAt := conditions\<rparr>, m)
   }"

interpretation topologyStatuses: deep_copy loadTopologyStatus footTopologyStatus TopologyStatus_DeepCopyInto
  by (rule deep_copy_via [OF deep_copy_pair [OF zoneStatuses.flat.deep_copy_axioms
    deep_copy_pair [OF strings.flat.deep_copy_axioms conditionsEach.each.deep_copy_axioms]],
      where refs = "\<lambda>s. (TopZonesAt s, (NetworkChaosRefsAt s, TopConditionsAt s))"
        and mk = "\<lambda>s (zones, (networkChaosRefs,
            conditions)). (TopologyStatusFields s)\<lparr>TopZones := zones,
            NetworkChaosRefs := networkChaosRefs, TopConditions := conditions\<rparr>"
        and put = "\<lambda>s (zones, (networkChaosRefs, conditions)). s\<lparr>TopZonesAt := zones,
            NetworkChaosRefsAt := networkChaosRefs, TopConditionsAt := conditions\<rparr>"])
    (simp_all add: loadTopologyStatus_def footTopologyStatus_def TopologyStatus_DeepCopyInto_def struct_simps)

definition loadTopology :: "cell mem \<Rightarrow> MemTopology \<Rightarrow> Topology option" where
  "loadTopology m s = do {
     spec \<leftarrow> loadTopologySpec m (TopSpecIn s);
     status \<leftarrow> loadTopologyStatus m (TopStatusIn s);
     Some ((TopologyFields s)\<lparr>TopSpec := spec, TopStatus := status\<rparr>)
   }"

definition footTopology :: "cell mem \<Rightarrow> MemTopology \<Rightarrow> nat set" where
  "footTopology m s = footTopologySpec m (TopSpecIn s) \<union> footTopologyStatus m (TopStatusIn s)"

definition Topology_DeepCopyInto :: "MemTopology \<Rightarrow> cell mem \<Rightarrow> (MemTopology \<times> cell mem) option" where
  "Topology_DeepCopyInto s m = do {
     (spec, m) \<leftarrow> TopologySpec_DeepCopyInto (TopSpecIn s) m;
     (status, m) \<leftarrow> TopologyStatus_DeepCopyInto (TopStatusIn s) m;
     Some (s\<lparr>TopSpecIn := spec, TopStatusIn := status\<rparr>, m)
   }"

interpretation topologies: deep_copy loadTopology footTopology Topology_DeepCopyInto
  by (rule deep_copy_via [OF deep_copy_pair [OF topologySpecs.deep_copy_axioms topologyStatuses.deep_copy_axioms],
      where refs = "\<lambda>s. (TopSpecIn s, TopStatusIn s)"
        and mk = "\<lambda>s (spec, status). (TopologyFields s)\<lparr>TopSpec := spec, TopStatus := status\<rparr>"
        and put = "\<lambda>s (spec, status). s\<lparr>TopSpecIn := spec, TopStatusIn := status\<rparr>"])
    (simp_all add: loadTopology_def footTopology_def Topology_DeepCopyInto_def struct_simps)

definition loadFault :: "cell mem \<Rightarrow> MemFault \<Rightarrow> FaultSpec option" where
  "loadFault m s = do {
     zones \<leftarrow> readSlice unpackString m (FaultZonesAt s);
     Some ((FaultFields s)\<lparr>FaultZones := zones\<rparr>)
   }"

definition footFault :: "cell mem \<Rightarrow> MemFault \<Rightarrow> nat set" where
  "footFault m s = footSlice (FaultZonesAt s)"

definition FaultSpec_DeepCopyInto :: "MemFault \<Rightarrow> cell mem \<Rightarrow> (MemFault \<times> cell mem) option" where
  "FaultSpec_DeepCopyInto s m = do {
     (zones, m) \<leftarrow> copySlice ArrString unpackString (FaultZonesAt s) m;
     Some (s\<lparr>FaultZonesAt := zones\<rparr>, m)
   }"

interpretation faultSpecs: deep_copy loadFault footFault FaultSpec_DeepCopyInto
  by (rule deep_copy_via [OF strings.flat.deep_copy_axioms,
      where refs = "\<lambda>s. FaultZonesAt s"
        and mk = "\<lambda>s zones. (FaultFields s)\<lparr>FaultZones := zones\<rparr>"
        and put = "\<lambda>s zones. s\<lparr>FaultZonesAt := zones\<rparr>"])
    (simp_all add: loadFault_def footFault_def FaultSpec_DeepCopyInto_def one_simps)

interpretation faultsEach: kind_of_copies ArrFault unpackFault loadFault footFault FaultSpec_DeepCopyInto zeroFault
  by unfold_locales

definition loadChaosPhaseSpec :: "cell mem \<Rightarrow> MemChaosPhaseSpec \<Rightarrow> ChaosPhaseSpec option" where
  "loadChaosPhaseSpec m s = do {
     faults \<leftarrow> loadEach unpackFault loadFault m (FaultsAt s);
     Some ((ChaosPhaseSpecFields s)\<lparr>Faults := faults\<rparr>)
   }"

definition footChaosPhaseSpec :: "cell mem \<Rightarrow> MemChaosPhaseSpec \<Rightarrow> nat set" where
  "footChaosPhaseSpec m s = footEach unpackFault footFault m (FaultsAt s)"

definition ChaosPhaseSpec_DeepCopyInto :: "MemChaosPhaseSpec \<Rightarrow> cell mem \<Rightarrow> (MemChaosPhaseSpec \<times> cell mem) option" where
  "ChaosPhaseSpec_DeepCopyInto s m = do {
     (faults, m) \<leftarrow> copyEach ArrFault unpackFault zeroFault FaultSpec_DeepCopyInto (FaultsAt s) m;
     Some (s\<lparr>FaultsAt := faults\<rparr>, m)
   }"

interpretation chaosPhaseSpecs: deep_copy loadChaosPhaseSpec footChaosPhaseSpec ChaosPhaseSpec_DeepCopyInto
  by (rule deep_copy_via [OF faultsEach.each.deep_copy_axioms,
      where refs = "\<lambda>s. FaultsAt s"
        and mk = "\<lambda>s faults. (ChaosPhaseSpecFields s)\<lparr>Faults := faults\<rparr>"
        and put = "\<lambda>s faults. s\<lparr>FaultsAt := faults\<rparr>"])
    (simp_all add: loadChaosPhaseSpec_def footChaosPhaseSpec_def ChaosPhaseSpec_DeepCopyInto_def one_simps)

definition loadChaosPhase :: "cell mem \<Rightarrow> MemChaosPhase \<Rightarrow> ChaosPhase option" where
  "loadChaosPhase m s = do {
     spec \<leftarrow> loadChaosPhaseSpec m (CpSpecIn s);
     Some ((ChaosPhaseFields s)\<lparr>CpSpec := spec\<rparr>)
   }"

definition footChaosPhase :: "cell mem \<Rightarrow> MemChaosPhase \<Rightarrow> nat set" where
  "footChaosPhase m s = footChaosPhaseSpec m (CpSpecIn s)"

definition ChaosPhase_DeepCopyInto :: "MemChaosPhase \<Rightarrow> cell mem \<Rightarrow> (MemChaosPhase \<times> cell mem) option" where
  "ChaosPhase_DeepCopyInto s m = do {
     (spec, m) \<leftarrow> ChaosPhaseSpec_DeepCopyInto (CpSpecIn s) m;
     Some (s\<lparr>CpSpecIn := spec\<rparr>, m)
   }"

interpretation chaosPhases: deep_copy loadChaosPhase footChaosPhase ChaosPhase_DeepCopyInto
  by (rule deep_copy_via [OF chaosPhaseSpecs.deep_copy_axioms,
      where refs = "\<lambda>s. CpSpecIn s"
        and mk = "\<lambda>s spec. (ChaosPhaseFields s)\<lparr>CpSpec := spec\<rparr>"
        and put = "\<lambda>s spec. s\<lparr>CpSpecIn := spec\<rparr>"])
    (simp_all add: loadChaosPhase_def footChaosPhase_def ChaosPhase_DeepCopyInto_def one_simps)

text \<open>The copies of whole objects.\<close>

definition Experiment_DeepCopy :: "MemExperiment option \<Rightarrow> cell mem \<Rightarrow> (MemExperiment option \<times> cell mem) option" where
  "Experiment_DeepCopy = deepCopyOf Experiment_DeepCopyInto"

definition Topology_DeepCopy :: "MemTopology option \<Rightarrow> cell mem \<Rightarrow> (MemTopology option \<times> cell mem) option" where
  "Topology_DeepCopy = deepCopyOf Topology_DeepCopyInto"

definition ChaosPhase_DeepCopy :: "MemChaosPhase option \<Rightarrow> cell mem \<Rightarrow> (MemChaosPhase option \<times> cell mem) option" where
  "ChaosPhase_DeepCopy = deepCopyOf ChaosPhase_DeepCopyInto"

section \<open>Property\<close>

text \<open>
  The deep copies of the three kinds of objects are what a reconciler needs as the base of a patch: a copy has the
  value of the original, shares no memory with it, and keeps its value whatever is written to other memory later.
\<close>

theorem deep_copies_isolated:
  "(loadExperiment m x = Some experiment \<longrightarrow>
     isolatedCopy loadExperiment footExperiment x experiment (Experiment_DeepCopy (Some x) m)) \<and>
   (loadTopology m t = Some topology \<longrightarrow>
     isolatedCopy loadTopology footTopology t topology (Topology_DeepCopy (Some t) m)) \<and>
   (loadChaosPhase m p = Some phase \<longrightarrow>
     isolatedCopy loadChaosPhase footChaosPhase p phase (ChaosPhase_DeepCopy (Some p) m))"
  unfolding Experiment_DeepCopy_def Topology_DeepCopy_def ChaosPhase_DeepCopy_def
  by (intro conjI impI experiments.isolated topologies.isolated chaosPhases.isolated)

definition samplePhaseMemory :: "cell mem" where
  "samplePhaseMemory = [ArrString [''a'', ''b''], ArrFault [zeroFault\<lparr>FaultZonesAt := Slice 0 2\<rparr>, zeroFault]]"

definition samplePhasePlace :: MemChaosPhase where
  "samplePhasePlace = \<lparr>ChaosPhaseFields = \<lparr>CpName = ''cp'', CpNamespace = ''x'', CpSpec = \<lparr>CpTopologyRef = ''t'', Faults = []\<rparr>\<rparr>,
     CpSpecIn = \<lparr>ChaosPhaseSpecFields = \<lparr>CpTopologyRef = ''t'', Faults = []\<rparr>, FaultsAt = Slice 1 2\<rparr>\<rparr>"

theorem deep_copies_isolated_witness:
  "\<exists>phase. map FaultZones (Faults (CpSpec phase)) = [[''a'', ''b''], []] \<and> isolatedCopy loadChaosPhase footChaosPhase samplePhasePlace phase
     (ChaosPhase_DeepCopy (Some samplePhasePlace) samplePhaseMemory)"
proof -
  obtain phase where l: "loadChaosPhase samplePhaseMemory samplePhasePlace = Some phase"
    and f: "map FaultZones (Faults (CpSpec phase)) = [[''a'', ''b''], []]"
    by (auto simp: loadChaosPhase_def loadChaosPhaseSpec_def loadEach_def loadFault_def samplePhasePlace_def
        samplePhaseMemory_def readArray_def unpackFault_def unpackString_def zeroFault_def)
  show ?thesis
    by (intro exI [of _ phase] conjI f deep_copies_isolated [THEN conjunct2, THEN conjunct2, rule_format, OF l])
qed

end
