(* ===== verification/Measurement_Memory.thy ===== *)
theory Measurement_Memory
  imports Deep_Copies Experiment_Spec
begin

text \<open>
  The aliasing in \<open>handleMeasurement\<close>. The code takes a deep copy of the experiment as the base of its patch and
  then updates the measurement states where they are, through pointers into the slice of the status and appends to
  the slices inside it; \<open>Experiment_Ctl\<close> has values in their place. Here this part of the handler runs on memory,
  and it is shown that it computes the same, and that the base keeps what was read.
\<close>

section \<open>The measurement states where they are\<close>

text \<open>\<open>recordMeasurement(&experiment.Status.MeasurementState[i], ...)\<close>; \<open>None\<close> is a panic.\<close>

fun recordMeasurementAt :: "(float64 list \<Rightarrow> float64 list) \<Rightarrow> slice \<Rightarrow> nat \<Rightarrow> float64 \<Rightarrow> SLOConfig \<Rightarrow> int32 \<Rightarrow> int32 \<Rightarrow>
    cell mem \<Rightarrow> cell mem option" where
  "recordMeasurementAt spare NilSlice i v slo elapsed sampleInterval m = None"
| "recordMeasurementAt spare (Slice a n) i v slo elapsed sampleInterval m = do {
     states \<leftarrow> readSlice unpackState m (Slice a n);
     if n \<le> i \<or> sampleInterval = 0 then None
     else if i32_rem elapsed sampleInterval = 0 then do {
       (values, m) \<leftarrow> appendSlice ArrFloat64 unpackFloat64 spare (ValuesAt (states ! i)) [v] m;
       writeArray ArrState unpackState a i
         \<lparr>StateFields = recordMeasurementAggregate (StateFields (states ! i)) v slo, ValuesAt = values\<rparr> m
     }
     else Some m
   }"

fun measureSLOsAt :: "'w env \<Rightarrow> (float64 list \<Rightarrow> float64 list) \<Rightarrow> prometheusClient \<Rightarrow> int32 \<Rightarrow> int32 \<Rightarrow> nat \<Rightarrow>
    SLOConfig list \<Rightarrow> slice \<Rightarrow> cell mem \<Rightarrow> ('w kst, cell mem option) state" where
  "measureSLOsAt k spare prometheus elapsed sampleInterval i [] states m = ret (Some m)"
| "measureSLOsAt k spare prometheus elapsed sampleInterval i (slo # cfgs) states m = do {
     (v, found, err) \<leftarrow> query k prometheus (Query slo);
     if err \<noteq> None \<or> \<not> found then measureSLOsAt k spare prometheus elapsed sampleInterval (Suc i) cfgs states m
     else case recordMeasurementAt spare states i v slo elapsed sampleInterval m of
       None \<Rightarrow> ret None
     | Some m' \<Rightarrow> measureSLOsAt k spare prometheus elapsed sampleInterval (Suc i) cfgs states m'
   }"

fun sliceLength :: "slice \<Rightarrow> nat" where
  "sliceLength NilSlice = 0"
| "sliceLength (Slice a n) = n"

definition initialStatesAt :: "ExperimentSpec \<Rightarrow> slice \<Rightarrow> cell mem \<Rightarrow> slice \<times> cell mem" where
  "initialStatesAt spec states m =
     (if sliceLength states = 0
      then makeSlice ArrState (map (\<lambda>slo. \<lparr>StateFields = freshState (SloName slo), ValuesAt = NilSlice\<rparr>) (SLOs spec)) m
      else (states, m))"

text \<open>
  \<open>handleMeasurement\<close> up to the measured values: the base, the experiment with its new states and elapsed time, and
  the memory in which they are.
\<close>

definition measureAt :: "'w env \<Rightarrow> (float64 list \<Rightarrow> float64 list) \<Rightarrow> ExperimentSpec \<Rightarrow> int32 \<Rightarrow> MemExperiment \<Rightarrow> cell mem \<Rightarrow>
    ('w kst, (MemExperiment \<times> MemExperiment \<times> cell mem) option) state" where
  "measureAt k spare spec elapsed experiment m =
     (case Experiment_DeepCopyInto experiment m of
        None \<Rightarrow> ret None
      | Some (base, m) \<Rightarrow>
          let status = StatusIn experiment;
              (states, m) = initialStatesAt spec (MeasurementStateAt status) m
          in do {
            r \<leftarrow> measureSLOsAt k spare
              (newPrometheusClient (URL (Prometheus spec)) (derefOr (QueryTimeoutSeconds (Prometheus spec)) 10))
              elapsed (sampleIntervalOf spec) 0 (SLOs spec) states m;
            ret (map_option (\<lambda>m. (base, experiment\<lparr>StatusIn := status\<lparr>MeasurementStateAt := states,
              StatusFields := (StatusFields status)\<lparr>SubPhaseElapsed := elapsed\<rparr>\<rparr>\<rparr>, m)) r)
          })"

text \<open>
  The handler. The patch compares base and experiment as they are when it is sent, so both are read from the memory
  of that moment; after the measurement the code only assigns fields of the experiment.
\<close>

definition handleMeasurementAt :: "'w env \<Rightarrow> (float64 list \<Rightarrow> float64 list) \<Rightarrow> cell mem \<Rightarrow> MemExperiment \<Rightarrow>
    ExperimentSubPhase \<Rightarrow> ('w kst, outcome) state" where
  "handleMeasurementAt k spare m experiment nextSubPhase =
     (case loadExperiment m experiment of None \<Rightarrow> ret Panicked | Some e \<Rightarrow> do {
       elapsed \<leftarrow> elapsedSeconds k e;
       let sampleInterval = sampleIntervalOf (Spec e);
       if elapsed \<noteq> 0 \<and> sampleInterval = 0 then ret Panicked
       else if elapsed \<noteq> 0 \<and> i32_rem elapsed sampleInterval \<noteq> 0 then ret (Returned (RequeueAfter 1) None)
       else do {
         measured \<leftarrow> measureAt k spare (Spec e) elapsed experiment m;
         case measured of
           None \<Rightarrow> ret Panicked
         | Some (base, current, m') \<Rightarrow> (case (loadExperiment m' base, loadExperiment m' current) of
             (Some old, Some new) \<Rightarrow>
               if i32_le (SubPhaseDuration (Status e)) elapsed
               then finishMeasurement k new old nextSubPhase
               else patchAndReturn k ''measurement'' new old (RequeueAfter 1)
           | _ \<Rightarrow> ret Panicked)
       }
     })"

section \<open>What the updates touch\<close>

abbreviation loadStates :: "cell mem \<Rightarrow> slice \<Rightarrow> SLOMeasurementState list option" where
  "loadStates \<equiv> loadEach unpackState loadState"

abbreviation footStates :: "cell mem \<Rightarrow> slice \<Rightarrow> nat set" where
  "footStates \<equiv> footEach unpackState footState"

text \<open>The slices of values of different states do not overlap.\<close>

definition ownValues :: "cell mem \<Rightarrow> slice \<Rightarrow> bool" where
  "ownValues m s \<longleftrightarrow> (case readSlice unpackState m s of None \<Rightarrow> True
     | Some sts \<Rightarrow> \<forall>i<length sts. \<forall>j<length sts. i \<noteq> j \<longrightarrow> footState m (sts ! i) \<inter> footState m (sts ! j) = {})"

text \<open>
  From \<open>m\<close> to \<open>m'\<close> the states in \<open>s\<close> have become \<open>states\<close>, at the cost of their own memory and of new memory only.
\<close>

definition updates :: "slice \<Rightarrow> cell mem \<Rightarrow> SLOMeasurementState list \<Rightarrow> cell mem \<Rightarrow> bool" where
  "updates s m states m' \<longleftrightarrow> loadStates m' s = Some states \<and> ownValues m' s \<and> length m \<le> length m' \<and>
     (\<forall>a<length m. a \<notin> footStates m s \<longrightarrow> m' ! a = m ! a) \<and>
     footStates m' s \<subseteq> footStates m s \<union> {length m..<length m'}"

lemma grows_trans:
  fixes A :: "nat set"
  assumes "A' \<subseteq> A \<union> {l..<l'}" "A'' \<subseteq> A' \<union> {l'..<l''}" "l \<le> l'" "l' \<le> l''"
  shows "A'' \<subseteq> A \<union> {l..<l''}"
proof
  fix a assume "a \<in> A''"
  with assms(2) have "a \<in> A' \<or> l' \<le> a \<and> a < l''" by auto
  with assms(1,3,4) show "a \<in> A \<union> {l..<l''}" by fastforce
qed

lemma updates_refl: "loadStates m s = Some states \<Longrightarrow> ownValues m s \<Longrightarrow> updates s m states m"
  by (simp add: updates_def)

lemma updates_trans:
  assumes "updates s m states m'" "updates s m' states' m''"
  shows "updates s m states' m''"
proof -
  have "m'' ! a = m ! a" if "a < length m" "a \<notin> footStates m s" for a
  proof -
    have "a \<notin> footStates m' s" using assms(1) that by (fastforce simp: updates_def)
    with assms that show ?thesis by (simp add: updates_def)
  qed
  moreover have "footStates m'' s \<subseteq> footStates m s \<union> {length m..<length m''}"
  proof -
    have "footStates m' s \<subseteq> footStates m s \<union> {length m..<length m'}" "footStates m'' s \<subseteq> footStates m' s \<union> {length m'..<length m''}"
      "length m \<le> length m'" "length m' \<le> length m''"
      using assms by (simp_all add: updates_def)
    then show ?thesis by (rule grows_trans)
  qed
  ultimately show ?thesis using assms by (simp add: updates_def)
qed

lemma updates_agree:
  assumes "updates s m states m'" "A \<subseteq> {..<length m}" "A \<inter> footStates m s = {}"
  shows "agreeOn A m m'"
  using assms by (auto simp: updates_def agreeOn_def)

section \<open>One state\<close>

lemma loadState_eq_Some:
  "loadState m st = Some v \<longleftrightarrow> (\<exists>vs. readSlice unpackFloat64 m (ValuesAt st) = Some vs \<and> v = (StateFields st)\<lparr>Values := vs\<rparr>)"
  by (auto simp: loadState_def bind_eq_Some_conv)

lemma loadStates_eq_Some:
  "loadStates m s = Some vs \<longleftrightarrow> (\<exists>sts. readSlice unpackState m s = Some sts \<and> length sts = length vs \<and>
     (\<forall>j<length vs. loadState m (sts ! j) = Some (vs ! j)))"
  by (auto simp: loadEach_def bind_eq_Some_conv those_map list_all2_conv_all_nth)

text \<open>An array of states is none of numbers.\<close>

lemma state_array_apart: "readArray unpackState m a = Some sts \<Longrightarrow> readSlice unpackFloat64 m s = Some vs \<Longrightarrow> a \<notin> footSlice s"
  by (cases s) (auto simp: readArray_def unpackState_def unpackFloat64_def bind_eq_Some_conv split: if_splits cell.splits)

lemma aggregate_values [simp]:
  "(recordMeasurementAggregate st v slo)\<lparr>Values := vs\<rparr> = recordMeasurementAggregate (st\<lparr>Values := vs\<rparr>) v slo"
  by (simp add: recordMeasurementAggregate_def Let_def violates_def)

lemma footState_simp: "footState m st = footSlice (ValuesAt st)"
  by (simp add: footState_def)

lemma footStates_simp: "readSlice unpackState m s = Some sts \<Longrightarrow> footStates m s = footSlice s \<union> (\<Union>st\<in>set sts. footSlice (ValuesAt st))"
  by (simp add: footEach_def footState_def)

lemma ownValues_simp: "readSlice unpackState m s = Some sts \<Longrightarrow> ownValues m s \<longleftrightarrow>
    (\<forall>i<length sts. \<forall>j<length sts. i \<noteq> j \<longrightarrow> footSlice (ValuesAt (sts ! i)) \<inter> footSlice (ValuesAt (sts ! j)) = {})"
  by (simp add: ownValues_def footState_def)

text \<open>A state is rewritten after a value has been appended to its slice.\<close>

lemma rewrite_state:
  assumes array: "readArray unpackState m a = Some xs" "n \<le> length xs"
    and load: "loadStates m (Slice a n) = Some states" and own: "ownValues m (Slice a n)" and i: "i < n"
    and new: "readSlice unpackFloat64 m1 values = Some (Values (states ! i) @ vs)" "length m \<le> length m1"
      "\<And>b. b < length m \<Longrightarrow> b \<notin> footSlice (ValuesAt (xs ! i)) \<Longrightarrow> m1 ! b = m ! b"
      "footSlice values \<subseteq> footSlice (ValuesAt (xs ! i)) \<union> {length m..<length m1}"
  shows "\<exists>m'. writeArray ArrState unpackState a i \<lparr>StateFields = f, ValuesAt = values\<rparr> m1 = Some m' \<and>
    updates (Slice a n) m (states[i := f\<lparr>Values := Values (states ! i) @ vs\<rparr>]) m'"
proof -
  have sts: "readSlice unpackState m (Slice a n) = Some (take n xs)" using array by simp
  with load have n: "length states = n" and st: "\<And>j. j < n \<Longrightarrow> loadState m (xs ! j) = Some (states ! j)"
    using array(2) by (auto simp: loadStates_eq_Some)
  have apart: "a \<notin> footSlice (ValuesAt (xs ! j))" if "j < n" for j
    using st [OF that] state_array_apart [OF array(1)] by (auto simp: loadState_eq_Some)
  have old: "footSlice (ValuesAt (xs ! j)) \<subseteq> {..<length m}" if "j < n" for j
    using measurementStates.foot_old [OF st [OF that]] by (simp add: footState_simp)
  have a: "a < length m" "m ! a = ArrState xs"
    using states.readArray_SomeD [OF array(1)] states.pack_unpack by auto
  let ?new = "\<lparr>StateFields = f, ValuesAt = values\<rparr>"
  let ?m' = "m1[a := ArrState (xs[i := ?new])]"
  have a1: "m1 ! a = ArrState xs" "a < length m1" using new(2,3) a apart [OF i] by auto
  have w: "writeArray ArrState unpackState a i ?new m1 = Some ?m'"
    using a1 i array(2) by (simp add: writeArray_def readArray_def)
  have sts': "readSlice unpackState ?m' (Slice a n) = Some (take n (xs[i := ?new]))"
    using a1(2) array(2) by (simp add: readArray_def)
  have same: "?m' ! b = m ! b" if "b < length m" "b \<noteq> a" "b \<notin> footSlice (ValuesAt (xs ! i))" for b
    using that new(3) by simp
  have own': "footSlice (ValuesAt (xs ! j)) \<inter> footSlice (ValuesAt (xs ! l)) = {}" if "j < n" "l < n" "j \<noteq> l" for j l
    using own that array(2) by (auto simp: ownValues_simp [OF sts])
  have "loadState ?m' (xs[i := ?new] ! j) = Some (states[i := f\<lparr>Values := Values (states ! i) @ vs\<rparr>] ! j)" if j: "j < n" for j
  proof (cases "j = i")
    case True
    have "a \<notin> footSlice values" using new(4) apart [OF i] a(1) by auto
    then have "agreeOn (footSlice values) m1 ?m'"
      using float64s.flat.foot_old [OF new(1)] by (auto simp: agreeOn_def) (metis nth_list_update_neq)
    with float64s.flat.load_agree [OF new(1)] True i n array(2) show ?thesis by (simp add: loadState_eq_Some)
  next
    case False
    have "b < length ?m' \<and> ?m' ! b = m ! b" if b: "b \<in> footSlice (ValuesAt (xs ! j))" for b
    proof -
      have "b < length m" "b \<noteq> a" "b \<notin> footSlice (ValuesAt (xs ! i))"
        using b old [OF j] apart [OF j] own' [OF j i False] by auto
      with same new(2) show ?thesis by simp
    qed
    then have "agreeOn (footState m (xs ! j)) m ?m'" by (simp add: agreeOn_def footState_simp)
    with measurementStates.load_agree [OF st [OF j]] False show ?thesis by simp
  qed
  then have "loadStates ?m' (Slice a n) = Some (states[i := f\<lparr>Values := Values (states ! i) @ vs\<rparr>])"
    using sts' n array(2) by (auto simp: loadStates_eq_Some)
  moreover have "ownValues ?m' (Slice a n)"
  proof -
    have "footSlice values \<inter> footSlice (ValuesAt (xs ! l)) = {}" if "l < n" "l \<noteq> i" for l
      using new(4) own' [OF i that(1)] that(2) old [OF that(1)] by fastforce
    then have "footSlice (ValuesAt (xs[i := ?new] ! j)) \<inter> footSlice (ValuesAt (xs[i := ?new] ! l)) = {}"
      if "j < n" "l < n" "j \<noteq> l" for j l
      using that own' [OF that] i array(2) by (auto simp: nth_list_update)
    then show ?thesis by (simp add: ownValues_simp [OF sts'])
  qed
  moreover have "footStates ?m' (Slice a n) \<subseteq> footStates m (Slice a n) \<union> {length m..<length ?m'}"
  proof -
    have x: "xs ! i \<in> set (take n xs)" using i array(2) by (auto simp: in_set_conv_nth)
    have "footSlice (ValuesAt x) \<subseteq> footStates m (Slice a n) \<union> {length m..<length m1}" if "x \<in> set (take n (xs[i := ?new]))" for x
    proof -
      have "x \<in> insert ?new (set (take n xs))"
        using that set_update_subset_insert [of "take n xs" i ?new] by (auto simp: take_update_swap)
      then show ?thesis using new(4) x by (auto simp: footStates_simp [OF sts])
    qed
    then show ?thesis by (auto simp: footStates_simp [OF sts'] footStates_simp [OF sts])
  qed
  moreover have "?m' ! b = m ! b" if "b < length m" "b \<notin> footStates m (Slice a n)" for b
  proof -
    have "xs ! i \<in> set (take n xs)" using i array(2) by (auto simp: in_set_conv_nth)
    with that have "b \<noteq> a" "b \<notin> footSlice (ValuesAt (xs ! i))" by (auto simp: footStates_simp [OF sts])
    with same that(1) show ?thesis by simp
  qed
  ultimately show ?thesis using w new(2) by (simp add: updates_def)
qed

lemma recordMeasurementAt_updates:
  assumes l: "loadStates m s = Some states" and o: "ownValues m s"
  shows "case recordMeasurementAt spare s i v slo elapsed iv m of
      None \<Rightarrow> length states \<le> i \<or> recordMeasurement (states ! i) v slo elapsed iv = None
    | Some m' \<Rightarrow> i < length states \<and>
        (\<exists>st. recordMeasurement (states ! i) v slo elapsed iv = Some st \<and> updates s m (states[i := st]) m')"
proof (cases s)
  case NilSlice
  with l show ?thesis by (simp add: loadEach_def)
next
  case (Slice a n)
  with l obtain xs where xs: "readArray unpackState m a = Some xs" "n \<le> length xs"
    by (auto simp: loadStates_eq_Some bind_eq_Some_conv split: if_splits)
  then have sts: "readSlice unpackState m (Slice a n) = Some (take n xs)" by simp
  with l Slice have n: "length states = n" using xs(2) by (auto simp: loadStates_eq_Some)
  consider "n \<le> i \<or> iv = 0" | "i < n" "iv \<noteq> 0" "i32_rem elapsed iv \<noteq> 0" | "i < n" "iv \<noteq> 0" "i32_rem elapsed iv = 0"
    by fastforce
  then show ?thesis
  proof cases
    case 1
    with sts n Slice show ?thesis by (auto simp: recordMeasurement_def)
  next
    case 2
    with sts n Slice updates_refl [OF l o] show ?thesis by (simp add: recordMeasurement_def)
  next
    case 3
    have st: "loadState m (xs ! i) = Some (states ! i)" using l Slice sts n 3(1) by (auto simp: loadStates_eq_Some)
    then have vs: "readSlice unpackFloat64 m (ValuesAt (xs ! i)) = Some (Values (states ! i))"
      and f: "states ! i = (StateFields (xs ! i))\<lparr>Values := Values (states ! i)\<rparr>" by (auto simp: loadState_eq_Some)
    obtain vals m1 where ap: "appendSlice ArrFloat64 unpackFloat64 spare (ValuesAt (xs ! i)) [v] m = Some (vals, m1)"
      and new: "readSlice unpackFloat64 m1 vals = Some (Values (states ! i) @ [v])" "length m \<le> length m1"
        "\<And>b. b < length m \<Longrightarrow> b \<notin> footSlice (ValuesAt (xs ! i)) \<Longrightarrow> m1 ! b = m ! b"
        "footSlice vals \<subseteq> footSlice (ValuesAt (xs ! i)) \<union> {length m..<length m1}"
      by (rule float64s.appendSlice_loads [OF vs, where xs = "[v]" and spare = spare]) (rule that)
    let ?f = "recordMeasurementAggregate (StateFields (xs ! i)) v slo"
    obtain m' where m': "writeArray ArrState unpackState a i \<lparr>StateFields = ?f, ValuesAt = vals\<rparr> m1 = Some m'"
      "updates (Slice a n) m (states[i := ?f\<lparr>Values := Values (states ! i) @ [v]\<rparr>]) m'"
      using rewrite_state [OF xs l [unfolded Slice] o [unfolded Slice] 3(1) new] by blast
    have "recordMeasurement (states ! i) v slo elapsed iv = Some (?f\<lparr>Values := Values (states ! i) @ [v]\<rparr>)"
    proof -
      have "recordMeasurementAggregate (states ! i) v slo = ?f\<lparr>Values := Values (states ! i)\<rparr>"
        by (subst f) simp
      with 3 show ?thesis by (simp add: recordMeasurement_def Let_def)
    qed
    with 3 sts n Slice ap m' show ?thesis by simp
  qed
qed

section \<open>All of them\<close>

lemma measureSLOsAt_updates:
  assumes "loadStates m s = Some states" "ownValues m s" "run (measureSLOsAt k spare prom el iv i cfgs s m) t = (r, t')"
  shows "\<exists>r'. run (measureSLOs k prom el iv i cfgs states) t = (r', t') \<and>
    (case r of None \<Rightarrow> r' = None | Some m' \<Rightarrow> \<exists>states'. r' = Some states' \<and> updates s m states' m')"
  using assms
proof (induction cfgs arbitrary: i states m t)
  case Nil
  then show ?case using updates_refl by (auto simp: run_simps)
next
  case (Cons cfg cfgs)
  obtain v found err t1 where q: "run (query k prom (Query cfg)) t = ((v, found, err), t1)" by (metis prod.collapse)
  show ?case
  proof (cases "err \<noteq> None \<or> \<not> found")
    case True
    with q Cons.prems(3) have "run (measureSLOsAt k spare prom el iv (Suc i) cfgs s m) t1 = (r, t')" by (simp add: run_simps)
    from Cons.IH [OF Cons.prems(1,2) this] True q show ?thesis by (simp add: run_simps)
  next
    case False
    note rec = recordMeasurementAt_updates [OF Cons.prems(1,2), where spare = spare and i = i and v = v and slo = cfg and elapsed = el and iv = iv]
    show ?thesis
    proof (cases "recordMeasurementAt spare s i v cfg el iv m")
      case None
      with rec Cons.prems(3) False q show ?thesis by (auto simp: run_simps split: option.splits)
    next
      case (Some m1)
      with rec obtain st where st: "i < length states" "recordMeasurement (states ! i) v cfg el iv = Some st"
        "updates s m (states[i := st]) m1" by auto
      then have m1: "loadStates m1 s = Some (states[i := st])" "ownValues m1 s" by (simp_all add: updates_def)
      from Some False q Cons.prems(3) have "run (measureSLOsAt k spare prom el iv (Suc i) cfgs s m1) t1 = (r, t')"
        by (simp add: run_simps)
      from Cons.IH [OF m1 this] obtain r' where "run (measureSLOs k prom el iv (Suc i) cfgs (states[i := st])) t1 = (r', t')"
        "case r of None \<Rightarrow> r' = None | Some m' \<Rightarrow> \<exists>states'. r' = Some states' \<and> updates s m1 states' m'" by blast
      with st False q updates_trans [OF st(3)] show ?thesis
        by (intro exI [of _ r']) (auto simp: run_simps split: option.splits)
    qed
  qed
qed

section \<open>The handler\<close>

lemma initialStatesAt_loads:
  assumes "loadStates m s = Some states" "ownValues m s" "initialStatesAt spec s m = (s', m')"
  shows "loadStates m' s' = Some (initialStates spec states)" "ownValues m' s'" "\<exists>cs. m' = m @ cs"
    "footStates m' s' \<subseteq> footStates m s \<union> {length m..<length m'}"
proof -
  have n: "sliceLength s = 0 \<longleftrightarrow> states = []"
    using assms(1) by (cases s) (auto simp: loadStates_eq_Some bind_eq_Some_conv split: if_splits)
  have "loadStates m' s' = Some (initialStates spec states) \<and> ownValues m' s' \<and> (\<exists>cs. m' = m @ cs) \<and>
    footStates m' s' \<subseteq> footStates m s \<union> {length m..<length m'}"
  proof (cases "states = []")
    case True
    let ?new = "map (\<lambda>slo. \<lparr>StateFields = freshState (SloName slo), ValuesAt = NilSlice\<rparr>) (SLOs spec)"
    from True n assms(3) have s': "s' = Slice (length m) (length ?new)" "m' = m @ [ArrState ?new]"
      by (auto simp: initialStatesAt_def makeSlice_def)
    then have r: "readSlice unpackState m' s' = Some ?new" by simp
    have "loadStates m' s' = Some (initialStates spec states)"
      unfolding loadStates_eq_Some
      by (intro exI [of _ ?new] conjI r) (simp_all add: True initialStates_def loadState_eq_Some freshState_def)
    moreover have "ownValues m' s'" by (simp add: ownValues_simp [OF r])
    moreover have "footStates m' s' = {length m}" unfolding footStates_simp [OF r] by (auto simp: s')
    ultimately show ?thesis using s' by simp
  next
    case False
    with n assms show ?thesis by (auto simp: initialStatesAt_def initialStates_def)
  qed
  then show "loadStates m' s' = Some (initialStates spec states)" "ownValues m' s'" "\<exists>cs. m' = m @ cs"
    "footStates m' s' \<subseteq> footStates m s \<union> {length m..<length m'}" by blast+
qed

lemma ownValues_append: "loadStates m s = Some states \<Longrightarrow> ownValues m s \<Longrightarrow> ownValues (m @ cs) s"
proof -
  assume l: "loadStates m s = Some states" and o: "ownValues m s"
  from l obtain sts where r: "readSlice unpackState m s = Some sts" by (auto simp: loadStates_eq_Some)
  with states.flat.load_append [OF r, of cs] o show ?thesis by (simp add: ownValues_simp)
qed

text \<open>An experiment without its measurement states.\<close>

definition withStates :: "slice \<Rightarrow> int32 \<Rightarrow> MemExperiment \<Rightarrow> MemExperiment" where
  "withStates s elapsed x = x\<lparr>StatusIn := (StatusIn x)\<lparr>MeasurementStateAt := s,
     StatusFields := (StatusFields (StatusIn x))\<lparr>SubPhaseElapsed := elapsed\<rparr>\<rparr>\<rparr>"

lemma loadExperiment_states:
  "loadExperiment m x = Some e \<Longrightarrow> loadStates m (MeasurementStateAt (StatusIn x)) = Some (MeasurementState (Status e)) \<and>
     loadExperiment m (withStates NilSlice elapsed x) = Some (withStatus e (\<lambda>st. st\<lparr>MeasurementState := [], SubPhaseElapsed := elapsed\<rparr>))"
  by (auto simp: loadExperiment_def loadStatus_def withStates_def withStatus_def loadEach_def [of _ _ _ NilSlice] bind_eq_Some_conv)

lemma loadExperiment_withStates:
  "loadExperiment m (withStates NilSlice elapsed x) = Some e \<Longrightarrow> loadStates m s = Some states \<Longrightarrow>
   loadExperiment m (withStates s elapsed x) = Some (withStatus e (\<lambda>st. st\<lparr>MeasurementState := states\<rparr>))"
  by (auto simp: loadExperiment_def loadStatus_def withStates_def withStatus_def bind_eq_Some_conv)

text \<open>
  The measurement states of an experiment share no memory with each other and with the rest of it, which holds for what
  a decoder has built.
\<close>

definition unshared :: "cell mem \<Rightarrow> MemExperiment \<Rightarrow> bool" where
  "unshared m x \<longleftrightarrow> ownValues m (MeasurementStateAt (StatusIn x)) \<and>
     footStates m (MeasurementStateAt (StatusIn x)) \<inter> footExperiment m (withStates NilSlice 0 x) = {}"

lemma footExperiment_elapsed: "footExperiment m (withStates s elapsed x) = footExperiment m (withStates s 0 x)"
  by (simp add: footExperiment_def footStatus_def withStates_def)

lemma measureAt_measures:
  assumes l: "loadExperiment m x = Some e" and u: "unshared m x"
    and r: "run (measureAt k spare (Spec e) elapsed x m) t = (r, t')"
  shows "\<exists>r'. run (measureSLOs k
      (newPrometheusClient (URL (Prometheus (Spec e))) (derefOr (QueryTimeoutSeconds (Prometheus (Spec e))) 10))
      elapsed (sampleIntervalOf (Spec e)) 0 (SLOs (Spec e)) (initialStates (Spec e) (MeasurementState (Status e)))) t = (r', t') \<and>
    (case r of None \<Rightarrow> r' = None | Some (base, current, m') \<Rightarrow> \<exists>states. r' = Some states \<and>
       loadExperiment m' base = Some e \<and>
       loadExperiment m' current = Some (withStatus e (\<lambda>st. st\<lparr>MeasurementState := states, SubPhaseElapsed := elapsed\<rparr>)))"
proof -
  let ?s = "MeasurementStateAt (StatusIn x)" and ?rest = "withStates NilSlice elapsed x"
  note parts = loadExperiment_states [OF l, of elapsed]
  obtain base m1 where dup: "Experiment_DeepCopyInto x m = Some (base, m1)"
    using experiments.dup_loads [OF l] by blast
  note copy = experiments.dup_disjoint [OF l dup]
  have ext: "\<exists>cs. m1 = m @ cs" using experiments.dup_loads [OF l] dup by auto
  then obtain cs where m1: "m1 = m @ cs" by blast
  have s1: "loadStates m1 ?s = Some (MeasurementState (Status e))" "footStates m1 ?s = footStates m ?s"
    "loadExperiment m1 ?rest = Some (withStatus e (\<lambda>st. st\<lparr>MeasurementState := [], SubPhaseElapsed := elapsed\<rparr>))"
    "footExperiment m1 ?rest = footExperiment m ?rest"
    unfolding m1 using statesEach.each.load_append experiments.load_append parts by blast+
  have own1: "ownValues m1 ?s"
    using ownValues_append parts u m1 by (simp add: unshared_def)
  obtain s2 m2 where i: "initialStatesAt (Spec e) ?s m1 = (s2, m2)" by fastforce
  note init = initialStatesAt_loads [OF s1(1) own1 i]
  then obtain ds where m2: "m2 = m1 @ ds" by blast
  have base: "loadExperiment m2 base = Some e" "footExperiment m2 base = footExperiment m1 base"
    and rest: "loadExperiment m2 ?rest = Some (withStatus e (\<lambda>st. st\<lparr>MeasurementState := [], SubPhaseElapsed := elapsed\<rparr>))"
      "footExperiment m2 ?rest = footExperiment m ?rest"
    unfolding m2 using experiments.load_append [OF copy(2)] experiments.load_append [OF s1(3)] s1(4) by simp_all
  have old: "footStates m ?s \<subseteq> {..<length m}" "footExperiment m ?rest \<subseteq> {..<length m}"
    using statesEach.each.foot_old experiments.foot_old parts by blast+
  have states2: "footStates m2 s2 \<subseteq> footStates m ?s \<union> {length m1..<length m2}" using init(4) s1(2) by simp
  have "footExperiment m ?rest \<inter> footStates m ?s = {}"
    using u by (auto simp: unshared_def footExperiment_elapsed [of _ _ elapsed])
  then have apart: "footExperiment m2 base \<inter> footStates m2 s2 = {}" "footExperiment m2 ?rest \<inter> footStates m2 s2 = {}"
  proof -
    have "footExperiment m2 base \<inter> {..<length m} = {}" "footExperiment m2 base \<inter> {length m1..<length m2} = {}"
    proof -
      have "{length m..<length m1} \<inter> {..<length m} = {}" "{length m..<length m1} \<inter> {length m1..<length m2} = {}" by auto
      with copy(6) base(2) show "footExperiment m2 base \<inter> {..<length m} = {}" "footExperiment m2 base \<inter> {length m1..<length m2} = {}"
        by blast+
    qed
    with states2 old(1) show "footExperiment m2 base \<inter> footStates m2 s2 = {}" by blast
    have "{..<length m} \<inter> {length m1..<length m2} = {}" using copy(5) by auto
    with old(2) have "footExperiment m2 ?rest \<inter> {length m1..<length m2} = {}" unfolding rest(2) by blast
    moreover assume "footExperiment m ?rest \<inter> footStates m ?s = {}"
    ultimately show "footExperiment m2 ?rest \<inter> footStates m2 s2 = {}" using states2 rest(2) by blast
  qed
  let ?p = "newPrometheusClient (URL (Prometheus (Spec e))) (derefOr (QueryTimeoutSeconds (Prometheus (Spec e))) 10)"
  obtain q where q: "run (measureSLOsAt k spare ?p elapsed (sampleIntervalOf (Spec e)) 0 (SLOs (Spec e)) s2 m2) t = (q, t')"
    and rq: "r = map_option (\<lambda>m. (base, withStates s2 elapsed x, m)) q"
    using r dup i by (auto simp: measureAt_def Let_def withStates_def run_simps split: prod.splits)
  obtain r' where r': "run (measureSLOs k ?p elapsed (sampleIntervalOf (Spec e)) 0 (SLOs (Spec e))
      (initialStates (Spec e) (MeasurementState (Status e)))) t = (r', t')"
    and up: "case q of None \<Rightarrow> r' = None | Some m' \<Rightarrow> \<exists>states'. r' = Some states' \<and> updates s2 m2 states' m'"
    using measureSLOsAt_updates [OF init(1,2) q] by blast
  show ?thesis
  proof (cases q)
    case None
    with r' up rq show ?thesis by simp
  next
    case (Some m3)
    with up obtain states where st: "r' = Some states" "updates s2 m2 states m3" by auto
    note agree = updates_agree [OF st(2)]
    have "loadExperiment m3 base = Some e"
      using experiments.load_agree [OF base(1) agree [OF experiments.foot_old [OF base(1)] apart(1)]] by (rule conjunct1)
    moreover have "loadExperiment m3 ?rest = Some (withStatus e (\<lambda>st. st\<lparr>MeasurementState := [], SubPhaseElapsed := elapsed\<rparr>))"
      using experiments.load_agree [OF rest(1) agree [OF experiments.foot_old [OF rest(1)] apart(2)]] by (rule conjunct1)
    moreover have "loadStates m3 s2 = Some states" using st(2) by (simp add: updates_def)
    ultimately show ?thesis
      using r' st(1) Some rq loadExperiment_withStates [of m3 elapsed x _ s2 states] by (simp add: withStatus_def)
  qed
qed

section \<open>An experiment in memory\<close>

text \<open>A running measurement of two objectives, one with a value and room for another, one without.\<close>

definition sampleMemory :: "cell mem" where
  "sampleMemory =
     [ArrTime [0],
      ArrState [\<lparr>StateFields = recordMeasurementAggregate (freshState ''lag'') fone sampleSLO, ValuesAt = Slice 2 1\<rparr>,
        \<lparr>StateFields = freshState ''load'', ValuesAt = NilSlice\<rparr>],
      ArrFloat64 [fone, fzero],
      ArrSLOConfig [sampleSLO, sampleSLO\<lparr>SloName := ''load''\<rparr>]]"

definition samplePlace :: MemExperiment where
  "samplePlace = \<lparr>ExperimentFields = sampleExperiment measuringStatus,
     SpecIn = \<lparr>SpecFields = sampleSpec,
       DurationIn = \<lparr>DurationFields = Duration sampleSpec, LoadDelayAt = None, EvalDelayAt = None, TopologyDelayAt = None,
         ChaosDelayAt = None, MeasurementDurationAt = None, MeasurementSampleIntervalAt = None\<rparr>,
       ManifestsIn = \<lparr>ManifestsFields = Manifests sampleSpec, SutAt = None, LoadAt = None, InfraAt = None, MonitorAt = None\<rparr>,
       TopologyRefAt = None, ChaosPhaseRefAt = None,
       PrometheusIn = \<lparr>PrometheusFields = Prometheus sampleSpec, QueryTimeoutSecondsAt = None\<rparr>,
       SLOsAt = Slice 3 2\<rparr>,
     StatusIn = \<lparr>StatusFields = measuringStatus, SubPhaseStartTimeAt = Some 0, MeasurementStateAt = Slice 1 2,
       StartTimeAt = Some 0, CompletionTimeAt = None, ManifestConfigMapsAt = NilSlice, SloResultsAt = NilSlice,
       AggregateScoreAt = None, ConditionsAt = NilSlice\<rparr>\<rparr>"

definition sampleLoaded :: Experiment where
  "sampleLoaded = the (loadExperiment sampleMemory samplePlace)"

lemma sample_loads: "loadExperiment sampleMemory samplePlace = Some sampleLoaded"
  by (simp add: sampleLoaded_def loadExperiment_def loadSpec_def loadDuration_def loadManifests_def loadPrometheus_def
      loadStatus_def loadEach_def loadState_def samplePlace_def sampleMemory_def readArray_def unpackTime_def
      unpackState_def unpackFloat64_def unpackSLOConfig_def)

lemma sample_unshared: "unshared sampleMemory samplePlace"
  by (simp add: unshared_def ownValues_def withStates_def footExperiment_def footSpec_def footDuration_def footManifests_def
      footPrometheus_def footStatus_def footEach_def footState_def samplePlace_def sampleMemory_def readArray_def
      unpackState_def less_Suc_eq)

section \<open>Properties\<close>

text \<open>
  C22. Updating the measurement states where they are computes what the handler on values computes, whatever spare
  capacity the run-time system gives to slices: the base of the patch keeps the experiment that was read, since
  the deep copy shares no memory with it, and the updates of one state leave the other states and the rest of the
  experiment alone.
\<close>

theorem measurement_in_place:
  assumes "loadExperiment m x = Some e" "unshared m x"
  shows "run (handleMeasurementAt k spare m x next) s = run (handleMeasurement k e next) s"
proof -
  obtain elapsed s1 where el: "run (elapsedSeconds k e) s = (elapsed, s1)" by fastforce
  obtain r s2 where r: "run (measureAt k spare (Spec e) elapsed x m) s1 = (r, s2)" by fastforce
  from measureAt_measures [OF assms r] obtain r' where r': "run (measureSLOs k
      (newPrometheusClient (URL (Prometheus (Spec e))) (derefOr (QueryTimeoutSeconds (Prometheus (Spec e))) 10))
      elapsed (sampleIntervalOf (Spec e)) 0 (SLOs (Spec e)) (initialStates (Spec e) (MeasurementState (Status e)))) s1 = (r', s2)"
    "case r of None \<Rightarrow> r' = None | Some (base, current, m') \<Rightarrow> \<exists>states. r' = Some states \<and>
       loadExperiment m' base = Some e \<and>
       loadExperiment m' current = Some (withStatus e (\<lambda>st. st\<lparr>MeasurementState := states, SubPhaseElapsed := elapsed\<rparr>))"
    by blast
  show ?thesis
    using assms(1) el r r' by (auto simp: handleMeasurementAt_def handleMeasurement_def Let_def run_simps simp del: not_i32_le split: option.splits)
qed

theorem measurement_in_place_witness:
  "run (handleMeasurementAt (controlWorld idleStatus 0) (\<lambda>_. [fzero]) sampleMemory samplePlace SubPhaseCleanup) start =
   run (handleMeasurement (controlWorld idleStatus 0) sampleLoaded SubPhaseCleanup) start"
  by (rule measurement_in_place [OF sample_loads sample_unshared])

end
