(* ===== verification/Topology_Ctl.thy ===== *)
theory Topology_Ctl
  imports Chaos Experiment_Base
begin

text \<open>
  The reconciler of topologies, \<open>internal/controller/topology_controller.go\<close>: zone namespaces and
  quotas, the network objects of the links, activation, deactivation and deletion. Log messages are left
  out. A function that changes the topology it is given returns it.
\<close>

section \<open>Names and labels\<close>

definition topologyFinalizer :: string where
  "topologyFinalizer = ''topology.ecoscape.cau-se.de/finalizer''"

definition labelEdgeZone :: string where
  "labelEdgeZone = ''ecoscape.cau-se.de/edge-zone''"

definition labelTopologyName :: string where
  "labelTopologyName = ''ecoscape.cau-se.de/topology''"

definition labelZoneName :: string where
  "labelZoneName = ''ecoscape.cau-se.de/zone''"

definition networkChaosKey :: "string \<Rightarrow> string \<Rightarrow> objkey" where
  "networkChaosKey ns name = ObjKey (chaosMeshGroup @ ''/v1alpha1'') ''NetworkChaos'' ns name"

section \<open>Zones\<close>

definition zoneLabels :: "string \<Rightarrow> string \<Rightarrow> (string \<times> string) list" where
  "zoneLabels topologyName zone = [(labelEdgeZone, ''true''), (labelTopologyName, topologyName), (labelZoneName, zone),
     (''topology.kubernetes.io/zone'', zone)]"

text \<open>Writing the desired labels over the existing ones; their keys differ, so the order does not matter.\<close>

definition setLabels :: "(string \<times> string) list \<Rightarrow> (string \<times> string) list \<Rightarrow> (string \<times> string) list" where
  "setLabels desired labels = foldl (\<lambda>ls (key, v). AList.update key v ls) labels desired"

definition ensureNamespace :: "'w env \<Rightarrow> string \<Rightarrow> string \<Rightarrow> string \<Rightarrow> ('w kst, goerr option) state" where
  "ensureNamespace k nsName topologyName zone = do {
     r \<leftarrow> getNamespace k nsName;
     case r of
       Inl e \<Rightarrow>
         if \<not> isNotFound e then ret (Some e)
         else perform k (Create (ONamespace \<lparr>NsName = nsName, NsLabels = zoneLabels topologyName zone\<rparr>))
     | Inr ns \<Rightarrow> perform k (Update (ONamespace (ns\<lparr>NsLabels := setLabels (zoneLabels topologyName zone) (NsLabels ns)\<rparr>)))
   }"

text \<open>One limit of a quota: nothing if the zone does not set it.\<close>

definition parseLimit :: "'w env \<Rightarrow> string \<Rightarrow> string \<Rightarrow> string option \<Rightarrow> goerr + (string \<times> string) list" where
  "parseLimit k what key limit =
     (case limit of
        None \<Rightarrow> Inr []
      | Some v \<Rightarrow>
          if v = '''' then Inr []
          else case eParseQuantity k v of
            Inl e \<Rightarrow> Inl (wrapf (''parse '' @ what @ '' '' @ quote v) e)
          | Inr qty \<Rightarrow> Inr [(key, qty)])"

definition hardLimits :: "'w env \<Rightarrow> ZoneSpec \<Rightarrow> goerr + (string \<times> string) list" where
  "hardLimits k zone =
     (case parseLimit k ''cpu limit'' ''limits.cpu'' (map_option CpuLimit (CPU zone)) of
        Inl e \<Rightarrow> Inl e
      | Inr cpu \<Rightarrow>
          (case parseLimit k ''memory limit'' ''limits.memory'' (map_option MemoryLimit (Memory zone)) of
             Inl e \<Rightarrow> Inl e
           | Inr memory \<Rightarrow>
               (case parseLimit k ''disk capacity'' ''limits.ephemeral-storage'' (map_option Capacity (Disk zone)) of
                  Inl e \<Rightarrow> Inl e
                | Inr disk \<Rightarrow> Inr (cpu @ memory @ disk))))"

definition quotaName :: string where
  "quotaName = ''ecoscape-edge-quota''"

text \<open>A \<open>(string, error)\<close>.\<close>

definition ensureResourceQuota ::
  "'w env \<Rightarrow> string \<Rightarrow> string \<Rightarrow> ZoneSpec \<Rightarrow> ('w kst, string \<times> goerr option) state" where
  "ensureResourceQuota k topologyName ns zone =
     (case hardLimits k zone of
        Inl e \<Rightarrow> ret ('''', Some e)
      | Inr hard \<Rightarrow>
          if hard = [] then ret ('''', None)
          else do {
            r \<leftarrow> getQuota k ns quotaName;
            case r of
              Inl e \<Rightarrow>
                if \<not> isNotFound e then ret ('''', Some e)
                else do {
                  err \<leftarrow> perform k (Create (OQuota \<lparr>RqNamespace = ns, RqName = quotaName,
                    RqLabels = [(labelTopologyName, topologyName), (labelZoneName, ZoneSpecName zone)], RqHard = hard\<rparr>));
                  ret (quotaName, err)
                }
            | Inr quota \<Rightarrow> do {
                err \<leftarrow> perform k (Update (OQuota (quota\<lparr>RqHard := hard\<rparr>)));
                ret (quotaName, err)
              }
          })"

fun reconcileZoneList ::
  "'w env \<Rightarrow> string \<Rightarrow> ZoneStatus list \<Rightarrow> ZoneSpec list \<Rightarrow> ('w kst, goerr + ZoneStatus list) state" where
  "reconcileZoneList k topologyName statuses [] = ret (Inr statuses)"
| "reconcileZoneList k topologyName statuses (zone # zones) = do {
     let ns = zoneName topologyName (ZoneSpecName zone);
     err \<leftarrow> ensureNamespace k ns topologyName (ZoneSpecName zone);
     case err of
       Some e \<Rightarrow> ret (Inl (wrapf (''namespace '' @ ns) e))
     | None \<Rightarrow> do {
         (quota, err) \<leftarrow> (if CPU zone \<noteq> None \<or> Memory zone \<noteq> None \<or> Disk zone \<noteq> None
                         then ensureResourceQuota k topologyName ns zone else ret ('''', None));
         case err of
           Some e \<Rightarrow> ret (Inl (wrapf (''resource quota for zone '' @ ZoneSpecName zone) e))
         | None \<Rightarrow> reconcileZoneList k topologyName
             (statuses @ [\<lparr>ZsName = ZoneSpecName zone, ZsNamespace = ns, ResourceQuotaRef = quota\<rparr>]) zones
       }
   }"

definition reconcileZones :: "'w env \<Rightarrow> Topology \<Rightarrow> ('w kst, goerr + ZoneStatus list) state" where
  "reconcileZones k topology = reconcileZoneList k (TopName topology) [] (Zones (TopSpec topology))"

section \<open>Links\<close>

definition buildDelay :: "string \<Rightarrow> string \<Rightarrow> json" where
  "buildDelay latency jitter =
     JObj ([(''latency'', JStr latency), (''correlation'', JStr ''50'')] @
       (if jitter \<noteq> '''' then [(''jitter'', JStr jitter)] else []))"

definition buildBandwidth :: "string \<Rightarrow> json" where
  "buildBandwidth bandwidth =
     JObj [(''rate'', JStr (toLower bandwidth)), (''limit'', JInt 100000), (''buffer'', JInt 10000)]"

definition linkSpec :: "string \<Rightarrow> string \<Rightarrow> string \<Rightarrow> json \<Rightarrow> json" where
  "linkSpec nsA nsB action actionSpec =
     JObj [(''action'', JStr action), (''mode'', JStr ''all''), (''direction'', JStr ''both''),
       (''selector'', selectorFor nsA),
       (''target'', JObj [(''mode'', JStr ''all''), (''selector'', selectorFor nsB)]),
       (action, actionSpec)]"

definition ensureNetworkChaos ::
  "'w env \<Rightarrow> string \<Rightarrow> string \<Rightarrow> string \<Rightarrow> json \<Rightarrow> ('w kst, goerr option) state" where
  "ensureNetworkChaos k ns name topologyName spec = do {
     r \<leftarrow> getUnstructured k (networkChaosKey ns name);
     case r of
       Inl e \<Rightarrow>
         if \<not> isNotFound e then ret (Some e)
         else perform k (Create (OUnstructured \<lparr>UsAPIVersion = chaosMeshGroup @ ''/v1alpha1'', UsKind = ''NetworkChaos'',
           UsNamespace = ns, UsName = name, UsLabels = [(labelTopologyName, topologyName)], UsResourceVersion = '''',
           UsSpec = spec\<rparr>))
     | Inr obj \<Rightarrow> perform k (Update (OUnstructured (obj\<lparr>UsSpec := spec\<rparr>)))
   }"

text \<open>The conditions a link sets, as action and content, in the order the code treats them.\<close>

definition linkActions :: "ZoneLinkSpec \<Rightarrow> (string \<times> json) list" where
  "linkActions link =
     (if Latency link \<noteq> '''' then [(''delay'', buildDelay (Latency link) (Jitter link))] else []) @
     (if Bandwidth link \<noteq> '''' then [(''bandwidth'', buildBandwidth (Bandwidth link))] else []) @
     (if PacketLoss link \<noteq> ''''
      then [(''loss'', JObj [(''loss'', JStr (PacketLoss link)), (''correlation'', JStr ''50'')])] else [])"

definition linkName :: "string \<Rightarrow> string \<Rightarrow> string \<Rightarrow> string \<Rightarrow> string" where
  "linkName topologyName zoneA zoneB action = linkBaseName topologyName zoneA zoneB @ ''-'' @ action"

fun ensureActions ::
  "'w env \<Rightarrow> string \<Rightarrow> string \<Rightarrow> string \<Rightarrow> string list \<Rightarrow> (string \<times> json) list \<Rightarrow> ('w kst, applied) state" where
  "ensureActions k topologyName zoneA zoneB refs [] = ret (refs, None)"
| "ensureActions k topologyName zoneA zoneB refs ((action, content) # actions) = do {
     let nsA = zoneName topologyName zoneA;
     let nsB = zoneName topologyName zoneB;
     let name = linkName topologyName zoneA zoneB action;
     err \<leftarrow> ensureNetworkChaos k nsA name topologyName (linkSpec nsA nsB action content);
     case err of
       Some e \<Rightarrow> ret (refs, Some (wrapf (action @ '' chaos'') e))
     | None \<Rightarrow> ensureActions k topologyName zoneA zoneB (refs @ [topologyRef (nsA, name)]) actions
   }"

definition ensureLinkChaos :: "'w env \<Rightarrow> string \<Rightarrow> string \<Rightarrow> string \<Rightarrow> ZoneLinkSpec \<Rightarrow> ('w kst, applied) state" where
  "ensureLinkChaos k topologyName zoneA zoneB link =
     (let (a, b) = sortedPair zoneA zoneB in ensureActions k topologyName a b [] (linkActions link))"

fun ensureLinks ::
  "'w env \<Rightarrow> string \<Rightarrow> string list \<Rightarrow> ZoneLinkSpec list \<Rightarrow> ('w kst, goerr + string list) state" where
  "ensureLinks k topologyName allChaosRefs [] = ret (Inr allChaosRefs)"
| "ensureLinks k topologyName allChaosRefs (link # links) =
     (case LinkZones link of
        [zoneA, zoneB] \<Rightarrow> do {
          (refs, err) \<leftarrow> ensureLinkChaos k topologyName zoneA zoneB link;
          case err of
            Some e \<Rightarrow> ret (Inl (wrapf (''link '' @ showStrings (LinkZones link)) e))
          | None \<Rightarrow> ensureLinks k topologyName (allChaosRefs @ refs) links
        }
      | _ \<Rightarrow> ensureLinks k topologyName allChaosRefs links)"

section \<open>Activation, deactivation, deletion\<close>

definition observed :: "Topology \<Rightarrow> ZoneStatus list \<Rightarrow> string list \<Rightarrow> TopologyPhase \<Rightarrow> Topology" where
  "observed topology zoneStatuses refs phase =
     topology\<lparr>TopStatus := (TopStatus topology)\<lparr>TopZones := zoneStatuses, NetworkChaosRefs := refs, TopPhase := phase,
       ObservedGeneration := Generation topology\<rparr>\<rparr>"

definition statusUpdate :: "'w env \<Rightarrow> Topology \<Rightarrow> ('w kst, goerr option) state" where
  "statusUpdate k topology = perform k (StatusUpdate (OTopology topology))"

definition reconcileApply :: "'w env \<Rightarrow> Topology \<Rightarrow> ('w kst, goerr option \<times> Topology) state" where
  "reconcileApply k topology = do {
     zones \<leftarrow> reconcileZones k topology;
     case zones of
       Inl e \<Rightarrow> ret (Some e, topology)
     | Inr zoneStatuses \<Rightarrow> do {
         links \<leftarrow> ensureLinks k (TopName topology) [] (Links (TopSpec topology));
         case links of
           Inl e \<Rightarrow> ret (Some e, topology)
         | Inr allChaosRefs \<Rightarrow> do {
             let next = observed topology zoneStatuses allChaosRefs TopologyPhaseActive;
             err \<leftarrow> statusUpdate k next;
             ret (map_option (wrapf ''status update'') err, next)
           }
       }
   }"

definition deleteChaosRef :: "'w env \<Rightarrow> string \<Rightarrow> ('w kst, unit) state" where
  "deleteChaosRef k ref =
     (case splitTopologyRef ref of
        None \<Rightarrow> ret ()
      | Some (ns, name) \<Rightarrow> do { _ \<leftarrow> perform k (Delete (networkChaosKey ns name)); ret () })"

definition reconcileDeactivate :: "'w env \<Rightarrow> Topology \<Rightarrow> ('w kst, goerr option \<times> Topology) state" where
  "reconcileDeactivate k topology = do {
     zones \<leftarrow> reconcileZones k topology;
     case zones of
       Inl e \<Rightarrow> ret (Some e, topology)
     | Inr zoneStatuses \<Rightarrow> do {
         _ \<leftarrow> forEach (deleteChaosRef k) (NetworkChaosRefs (TopStatus topology));
         let next = observed topology zoneStatuses [] TopologyPhaseInactive;
         err \<leftarrow> statusUpdate k next;
         ret (map_option (wrapf ''status update'') err, next)
       }
   }"

definition deleteZone :: "'w env \<Rightarrow> string \<Rightarrow> ZoneSpec \<Rightarrow> ('w kst, unit) state" where
  "deleteZone k topologyName zone = do {
     r \<leftarrow> getNamespace k (zoneName topologyName (ZoneSpecName zone));
     case r of
       Inl e \<Rightarrow> ret ()
     | Inr ns \<Rightarrow> do { _ \<leftarrow> perform k (Delete (nsKey (NsName ns))); ret () }
   }"

definition reconcileDelete :: "'w env \<Rightarrow> Topology \<Rightarrow> ('w kst, outcome) state" where
  "reconcileDelete k topology = do {
     _ \<leftarrow> forEach (deleteChaosRef k) (NetworkChaosRefs (TopStatus topology));
     _ \<leftarrow> forEach (deleteZone k (TopName topology)) (Zones (TopSpec topology));
     err \<leftarrow> perform k (Update (OTopology (topology\<lparr>Finalizers := filter (\<lambda>f. f \<noteq> topologyFinalizer) (Finalizers topology)\<rparr>)));
     ret (Returned NoRequeue (map_option (wrapf ''remove finalizer'') err))
   }"

section \<open>Phase and reconcile\<close>

text \<open>Replace the first \<open>Ready\<close> condition, or append one.\<close>

fun setReady :: "Condition \<Rightarrow> Condition list \<Rightarrow> Condition list" where
  "setReady cond [] = [cond]"
| "setReady cond (c # cs) = (if CondType c = ''Ready'' then cond # cs else c # setReady cond cs)"

definition setTopologyPhase :: "'w env \<Rightarrow> Topology \<Rightarrow> TopologyPhase \<Rightarrow> string \<Rightarrow> ('w kst, unit) state" where
  "setTopologyPhase k topology phase message = do {
     t \<leftarrow> now k;
     let cond = \<lparr>CondType = ''Ready'', CondStatus = (phase \<noteq> TopologyPhaseFailed), LastTransitionTime = t,
       CondReason = topologyPhaseString phase, CondMessage = message\<rparr>;
     _ \<leftarrow> statusUpdate k (topology\<lparr>TopStatus := (TopStatus topology)\<lparr>TopPhase := phase,
         TopConditions := setReady cond (TopConditions (TopStatus topology))\<rparr>\<rparr>);
     ret ()
   }"

definition settled :: "Topology \<Rightarrow> bool" where
  "settled topology \<longleftrightarrow> ObservedGeneration (TopStatus topology) = Generation topology \<and>
     (Active (TopSpec topology) \<and> TopPhase (TopStatus topology) = TopologyPhaseActive \<or>
      \<not> Active (TopSpec topology) \<and> TopPhase (TopStatus topology) = TopologyPhaseInactive)"

definition ReconcileTopology :: "'w env \<Rightarrow> string \<Rightarrow> string \<Rightarrow> ('w kst, outcome) state" where
  "ReconcileTopology k ns name = do {
     r \<leftarrow> getTopology k ns name;
     case r of
       Inl e \<Rightarrow> ret (Returned NoRequeue (if isNotFound e then None else Some e))
     | Inr topology \<Rightarrow>
         if DeletionTimestamp topology \<noteq> None then reconcileDelete k topology
         else if topologyFinalizer \<notin> set (Finalizers topology) then do {
           err \<leftarrow> perform k (Update (OTopology (topology\<lparr>Finalizers := Finalizers topology @ [topologyFinalizer]\<rparr>)));
           ret (case err of
                  Some e \<Rightarrow> Returned NoRequeue (Some (wrapf ''add finalizer'' e))
                | None \<Rightarrow> Returned Requeue None)
         }
         else if settled topology then ret (Returned NoRequeue None)
         else do {
           (err, next) \<leftarrow> (if Active (TopSpec topology) then reconcileApply k topology else reconcileDeactivate k topology);
           case err of
             Some e \<Rightarrow> do {
               _ \<leftarrow> setTopologyPhase k next TopologyPhaseFailed (err_msg e);
               ret (Returned NoRequeue (Some e))
             }
           | None \<Rightarrow> ret (Returned NoRequeue None)
         }
   }"

end
