(* ===== verification/Topology_Spec.thy ===== *)
theory Topology_Spec
  imports Topology_Ctl
begin

text \<open>
  What the reconciler of topologies guarantees: which objects an activation leaves, that deactivation
  and deletion find them again, that names of one topology do not clash, and when it does nothing.
\<close>

section \<open>What activation writes\<close>

text \<open>A read answers with the object that was asked for.\<close>

definition answersKey :: "'w env \<Rightarrow> bool" where
  "answersKey k \<longleftrightarrow> (\<forall>key w u. fst (eGetUnstructured k key w) = Inr u \<longrightarrow> usKey u = key)"

text \<open>The network objects a link stands for, as namespace and name.\<close>

definition linkObjects :: "string \<Rightarrow> ZoneLinkSpec \<Rightarrow> (string \<times> string) list" where
  "linkObjects t link =
     (case LinkZones link of
        [a, b] \<Rightarrow> (let (x, y) = sortedPair a b
                   in map (\<lambda>(action, _). (zoneName t x, linkName t x y action)) (linkActions link))
      | _ \<Rightarrow> [])"

definition allObjects :: "Topology \<Rightarrow> (string \<times> string) list" where
  "allObjects topology = concat (map (linkObjects (TopName topology)) (Links (TopSpec topology)))"

definition objectKey :: "string \<times> string \<Rightarrow> objkey" where
  "objectKey o' = networkChaosKey (fst o') (snd o')"

text \<open>All these objects were written by the calls.\<close>

definition allWritten :: "(string \<times> string) list \<Rightarrow> (call \<times> bool) list \<Rightarrow> bool" where
  "allWritten os cs \<longleftrightarrow> (\<forall>o' \<in> set os. \<exists>c \<in> set cs. written (objectKey o') c)"

lemma allWritten_simps [simp]:
  "allWritten [] cs" "allWritten (os @ ps) cs \<longleftrightarrow> allWritten os cs \<and> allWritten ps cs"
  by (auto simp: allWritten_def)

lemma allWritten_mono: "allWritten os cs \<Longrightarrow> set cs \<subseteq> set ds \<Longrightarrow> allWritten os ds"
  unfolding allWritten_def by blast

lemma getUnstructured_does:
  assumes "answersKey k"
  shows "does (getUnstructured k key) (\<lambda>cs r. \<forall>u. r = Inr u \<longrightarrow> usKey u = key)"
  using assms unfolding does_def getUnstructured_def answersKey_def
  by (auto elim!: run_requestE intro: extendsI)

lemma ensureNetworkChaos_does:
  assumes "answersKey k"
  shows "does (ensureNetworkChaos k ns name t spec) (\<lambda>cs err. err = None \<longrightarrow> allWritten [(ns, name)] cs)"
  unfolding ensureNetworkChaos_def
  by (intro does_bind does_mono [OF getUnstructured_does [OF assms]] does_sum does_if does_ret does_perform)
    (auto simp: allWritten_def written_def objectKey_def networkChaosKey_def usKey_def)

lemma ensureActions_does:
  assumes "answersKey k"
  shows "does (ensureActions k t a b refs actions) (\<lambda>cs (refs', err). err = None \<longrightarrow>
     (let os = map (\<lambda>(action, _). (zoneName t a, linkName t a b action)) actions
      in refs' = refs @ map topologyRef os \<and> allWritten os cs))"
proof (induction actions arbitrary: refs)
  case (Cons act actions)
  obtain action content where act: "act = (action, content)" by fastforce
  show ?case
    unfolding act ensureActions.simps Let_def
    by (intro does_bind does_mono [OF ensureNetworkChaos_does [OF assms]] does_option does_ret does_mono [OF Cons.IH])
      (auto simp: Let_def allWritten_def)
qed (simp add: does_ret)

lemma ensureLinkChaos_does:
  assumes "answersKey k" "LinkZones link = [a, b]"
  shows "does (ensureLinkChaos k t a b link) (\<lambda>cs (refs, err). err = None \<longrightarrow>
     refs = map topologyRef (linkObjects t link) \<and> allWritten (linkObjects t link) cs)"
  unfolding ensureLinkChaos_def
  by (cases "sortedPair a b")
    (auto simp: assms(2) linkObjects_def Let_def intro!: does_mono [OF ensureActions_does [OF assms(1)]])

lemma ensureLinks_does:
  assumes "answersKey k"
  shows "does (ensureLinks k t refs links) (\<lambda>cs r. \<forall>refs'. r = Inr refs' \<longrightarrow>
     (let os = concat (map (linkObjects t) links) in refs' = refs @ map topologyRef os \<and> allWritten os cs))"
proof (induction links arbitrary: refs)
  case (Cons link links)
  consider a b where "LinkZones link = [a, b]" | "linkObjects t link = []" "\<And>refs. ensureLinks k t refs (link # links) = ensureLinks k t refs links"
    by (cases "LinkZones link"; cases "tl (LinkZones link)"; cases "tl (tl (LinkZones link))")
      (simp_all add: linkObjects_def)
  then show ?case
  proof cases
    case (1 a b)
    show ?thesis
      unfolding ensureLinks.simps 1 list.case
      by (intro does_bind does_mono [OF ensureLinkChaos_does [OF assms 1]] does_prod does_option does_ret does_mono [OF Cons.IH])
        (auto simp: Let_def intro: allWritten_mono)
  next
    case 2
    then show ?thesis using Cons.IH by simp
  qed
qed (simp add: does_ret)

lemma reconcileZoneList_extends: "emits (\<lambda>_. True) (reconcileZoneList k t sts zs)"
  by (induction zs arbitrary: sts)
    (auto simp: ensureNamespace_def ensureResourceQuota_def get_defs Let_def
      intro!: trace_intro emits_request emits_perform)

lemma reconcileZones_any: "does (reconcileZones k t) (\<lambda>_ _. True)"
  unfolding reconcileZones_def
  by (rule does_mono [OF reconcileZoneList_extends [unfolded emits_does]]) simp

lemma statusUpdate_does:
  "does (statusUpdate k t) (\<lambda>cs err. cs = [(StatusUpdate (OTopology t), err = None)])"
  unfolding statusUpdate_def by (rule does_perform) simp

lemma reconcileApply_does:
  assumes "answersKey k"
  shows "does (reconcileApply k topology) (\<lambda>cs (err, next). err = None \<longrightarrow>
     NetworkChaosRefs (TopStatus next) = map topologyRef (allObjects topology) \<and>
     allWritten (allObjects topology) cs \<and> (StatusUpdate (OTopology next), True) \<in> set cs \<and>
     TopPhase (TopStatus next) = TopologyPhaseActive)"
  unfolding reconcileApply_def Let_def
  by (intro does_bind does_mono [OF reconcileZones_any] does_sum does_ret does_mono [OF ensureLinks_does [OF assms]]
      does_mono [OF statusUpdate_does])
    (auto simp: observed_def allObjects_def Let_def intro: allWritten_mono)

section \<open>Deletion\<close>

definition topRefDeletion :: "string \<Rightarrow> call list" where
  "topRefDeletion ref =
     (case splitTopologyRef ref of None \<Rightarrow> [] | Some (ns, name) \<Rightarrow> [Delete (networkChaosKey ns name)])"

interpretation linkCleanup: fixed_calls "deleteChaosRef k" topRefDeletion for k :: "'w env"
  by unfold_locales (auto simp: deleteChaosRef_def topRefDeletion_def split: option.split)

lemma topRefDeletion_object:
  "slashFree ns \<Longrightarrow> topRefDeletion (topologyRef (ns, name)) = [Delete (objectKey (ns, name))]"
  using topRef.apart_make [of "(ns, name)"]
  by (simp add: topRefDeletion_def validTopologyRef_def objectKey_def)

text \<open>All network objects of a topology live in namespaces named after it.\<close>

lemma allObjects_slashFree:
  assumes "slashFree (TopName topology)"
    and "\<forall>link \<in> set (Links (TopSpec topology)). list_all slashFree (LinkZones link)" "o' \<in> set (allObjects topology)"
  shows "slashFree (fst o')"
proof -
  from assms(3) obtain link where l: "link \<in> set (Links (TopSpec topology))" "o' \<in> set (linkObjects (TopName topology) link)"
    by (auto simp: allObjects_def)
  from l(2) obtain a b where ab: "LinkZones link = [a, b]"
    by (cases "LinkZones link"; cases "tl (LinkZones link)"; cases "tl (tl (LinkZones link))") (auto simp: linkObjects_def)
  with l assms(1,2) show ?thesis
    by (auto simp: linkObjects_def sortedPair_def zoneName_def split: if_splits dest!: bspec)
qed

lemma deletions_of_objects:
  assumes "\<forall>o' \<in> set os. slashFree (fst o')"
  shows "concat (map topRefDeletion (map topologyRef os)) = map (\<lambda>o'. Delete (objectKey o')) os"
  using assms by (induction os) (auto simp: topRefDeletion_object)

lemma deleteRefs_does:
  "does (forEach (deleteChaosRef k) refs) (\<lambda>cs _. map fst cs = concat (map topRefDeletion refs))"
  unfolding does_def
proof (intro allI impI conjI)
  fix s r s'
  assume r: "run (forEach (deleteChaosRef k) refs) s = (r, s')"
  have "emits (\<lambda>_. True) (forEach (deleteChaosRef k) refs)"
    unfolding deleteChaosRef_def by (intro trace_intro emits_perform TrueI)
  from emits_extends [OF this r] show e: "extends s s'" .
  show "map fst (newCalls s s') = concat (map topRefDeletion refs)"
    using linkCleanup.loop_issues [of k refs s] r issued_newCalls [OF e] by simp
qed

lemma reconcileDeactivate_does:
  "does (reconcileDeactivate k topology) (\<lambda>cs (err, next). err = None \<longrightarrow>
     set (concat (map topRefDeletion (NetworkChaosRefs (TopStatus topology)))) \<subseteq> set (map fst cs) \<and>
     (StatusUpdate (OTopology next), True) \<in> set cs \<and> NetworkChaosRefs (TopStatus next) = [] \<and>
     TopPhase (TopStatus next) = TopologyPhaseInactive)"
  unfolding reconcileDeactivate_def Let_def
  by (intro does_bind does_mono [OF reconcileZones_any] does_sum does_ret does_mono [OF deleteRefs_does]
      does_mono [OF statusUpdate_does])
    (auto simp: observed_def simp flip: map_map set_map)

section \<open>Names within one topology\<close>

lemma linkActions_names: "(action, content) \<in> set (linkActions link) \<Longrightarrow> action \<in> {''delay'', ''bandwidth'', ''loss''}"
  by (auto simp: linkActions_def split: if_splits)

lemma linkActions_distinct: "distinct (map fst (linkActions link))"
  by (simp add: linkActions_def)

lemma action_suffix:
  assumes "y @ ''-'' @ a = y' @ ''-'' @ a'" "a \<in> {''delay'', ''bandwidth'', ''loss''}" "a' \<in> {''delay'', ''bandwidth'', ''loss''}"
  shows "y = y' \<and> a = a'"
proof -
  have "last a = last a'" using assms(2,3) arg_cong [OF assms(1), of last] by (auto simp: last_append)
  with assms(2,3) have "a = a'" by auto
  with assms(1) show ?thesis by simp
qed

lemma linkObject_inject:
  assumes "(zoneName t x, linkName t x y a) = (zoneName t x', linkName t x' y' a')"
    and "a \<in> {''delay'', ''bandwidth'', ''loss''}" "a' \<in> {''delay'', ''bandwidth'', ''loss''}"
  shows "x = x' \<and> y = y' \<and> a = a'"
proof -
  have x: "x = x'" using assms(1) by (simp add: zoneName_def)
  then have "y @ ''-'' @ a = y' @ ''-'' @ a'" using assms(1) by (simp add: linkName_def linkBaseName_def)
  from action_suffix [OF this assms(2,3)] x show ?thesis by simp
qed

lemma linkObjects_elem:
  assumes "o' \<in> set (linkObjects t link)"
  obtains a b x y action where "LinkZones link = [a, b]" "sortedPair a b = (x, y)"
    "o' = (zoneName t x, linkName t x y action)" "action \<in> {''delay'', ''bandwidth'', ''loss''}"
proof -
  from assms obtain a b where ab: "LinkZones link = [a, b]"
    by (cases "LinkZones link"; cases "tl (LinkZones link)"; cases "tl (tl (LinkZones link))") (auto simp: linkObjects_def)
  obtain x y where xy: "sortedPair a b = (x, y)" by fastforce
  from assms ab xy obtain action content where "(action, content) \<in> set (linkActions link)"
    "o' = (zoneName t x, linkName t x y action)"
    by (auto simp: linkObjects_def)
  with ab xy linkActions_names show thesis by (intro that) auto
qed

lemma sortedPair_set: "sortedPair a b = (x, y) \<Longrightarrow> {a, b} = {x, y}"
  by (auto simp: sortedPair_def split: if_splits)

section \<open>Which calls a reconcile makes\<close>

fun soundStatus :: "call \<times> bool \<Rightarrow> bool" where
  "soundStatus (StatusUpdate (OTopology t), b) = (TopPhase (TopStatus t) = TopologyPhaseFailed \<or> settled t)"
| "soundStatus (c, b) = True"

lemma quiet_sound: "quiet c \<Longrightarrow> soundStatus c"
  by (cases c rule: soundStatus.cases) simp_all

lemma zones_quiet: "emits quiet (reconcileZones k t)"
proof -
  have "emits quiet (reconcileZoneList k n sts zs)" for n sts zs
    by (induction zs arbitrary: sts)
      (auto simp: ensureNamespace_def ensureResourceQuota_def get_defs Let_def
        intro!: trace_intro emits_request emits_perform)
  then show ?thesis by (simp add: reconcileZones_def)
qed

lemma links_quiet: "emits quiet (ensureLinks k t refs links)"
proof -
  have actions: "emits quiet (ensureActions k t a b refs acts)" for a b refs acts
    by (induction acts arbitrary: refs)
      (auto simp: ensureNetworkChaos_def get_defs Let_def intro!: trace_intro emits_request emits_perform)
  show ?thesis
    by (induction links arbitrary: refs)
      (auto simp: ensureLinkChaos_def actions split: list.split prod.split intro!: trace_intro)
qed

fun createsResource :: "call \<Rightarrow> bool" where
  "createsResource (Create obj) = True"
| "createsResource (Update (OTopology t)) = False"
| "createsResource (Update obj) = True"
| "createsResource c = False"

text \<open>What a reconcile does after it has read the topology.\<close>

definition reconcileTopology1 :: "'w env \<Rightarrow> Topology \<Rightarrow> ('w kst, outcome) state" where
  "reconcileTopology1 k topology =
     (if DeletionTimestamp topology \<noteq> None then reconcileDelete k topology
      else if topologyFinalizer \<notin> set (Finalizers topology) then do {
        err \<leftarrow> perform k (Update (OTopology (topology\<lparr>Finalizers := Finalizers topology @ [topologyFinalizer]\<rparr>)));
        ret (case err of
               Some e \<Rightarrow> Returned NoRequeue (Some (wrapf ''add finalizer'' e))
             | None \<Rightarrow> Returned Requeue None)
      }
      else if settled topology then ret (Returned NoRequeue None)
      else do {
        (err, next) \<leftarrow> (if Active (TopSpec topology) then reconcileApply k topology else reconcileDeactivate k topology);
        case err of
          Some e \<Rightarrow> do {
            _ \<leftarrow> setTopologyPhase k next TopologyPhaseFailed (err_msg e);
            ret (Returned NoRequeue (Some e))
          }
        | None \<Rightarrow> ret (Returned NoRequeue None)
      })"

lemma ReconcileTopology_reads:
  assumes "fst (eGetTopology k ns name (world s)) = Inr topology" "run (ReconcileTopology k ns name) s = (out, s')"
  obtains s1 where "run (reconcileTopology1 k topology) s1 = (out, s')"
    "calls s1 = calls s @ [(Get (ObjKey ecoscapeAPIVersion ''Topology'' ns name), True)]"
  using assms unfolding ReconcileTopology_def get_defs
  by (auto elim!: run_bindE run_requestE simp: reconcileTopology1_def)

definition answersNamespace :: "'w env \<Rightarrow> bool" where
  "answersNamespace k \<longleftrightarrow> (\<forall>n w ns. fst (eGetNamespace k n w) = Inr ns \<longrightarrow> NsName ns = n)"

definition zoneGone :: "string \<Rightarrow> (call \<times> bool) list \<Rightarrow> ZoneSpec \<Rightarrow> bool" where
  "zoneGone t cs zone \<longleftrightarrow> (Get (nsKey (zoneName t (ZoneSpecName zone))), False) \<in> set cs \<or>
     (Get (nsKey (zoneName t (ZoneSpecName zone))), True) \<in> set cs \<and> Delete (nsKey (zoneName t (ZoneSpecName zone))) \<in> set (map fst cs)"

lemma zoneGone_append: "zoneGone t cs zone \<or> zoneGone t ds zone \<Longrightarrow> zoneGone t (cs @ ds) zone"
  by (auto simp: zoneGone_def)

lemma deleteZone_does:
  assumes "answersNamespace k"
  shows "does (deleteZone k t zone) (\<lambda>cs _. zoneGone t cs zone)"
proof -
  let ?n = "zoneName t (ZoneSpecName zone)"
  have get: "does (getNamespace k ?n) (\<lambda>cs r. cs = [(Get (nsKey ?n), isInr r)] \<and> (\<forall>ns. r = Inr ns \<longrightarrow> NsName ns = ?n))"
    using assms unfolding does_def getNamespace_def answersNamespace_def
    by (auto elim!: run_requestE intro: extendsI simp: newCalls_append)
  show ?thesis
    unfolding deleteZone_def
    by (intro does_bind does_mono [OF get] does_sum does_ret does_perform) (auto simp: zoneGone_def)
qed

lemma deleteZones_does:
  assumes "answersNamespace k"
  shows "does (forEach (deleteZone k t) zones) (\<lambda>cs _. \<forall>zone \<in> set zones. zoneGone t cs zone)"
proof (induction zones)
  case (Cons zone zones)
  show ?case
    unfolding forEach.simps
    by (intro does_bind does_mono [OF deleteZone_does [OF assms]] does_mono [OF Cons.IH]) (auto intro: zoneGone_append)
qed (simp add: does_ret)

lemma reconcileDelete_does:
  assumes "answersNamespace k"
  shows "does (reconcileDelete k topology) (\<lambda>css out. \<exists>cs b. css = cs @ [(Update (OTopology (topology\<lparr>Finalizers :=
      filter (\<lambda>f. f \<noteq> topologyFinalizer) (Finalizers topology)\<rparr>)), b)] \<and>
    (out = Returned NoRequeue None \<longleftrightarrow> b) \<and>
    set (concat (map topRefDeletion (NetworkChaosRefs (TopStatus topology)))) \<subseteq> set (map fst cs) \<and>
    (\<forall>zone \<in> set (Zones (TopSpec topology)). zoneGone (TopName topology) cs zone))"
proof -
  let ?dels = "concat (map topRefDeletion (NetworkChaosRefs (TopStatus topology)))"
  have refs: "does (forEach (deleteChaosRef k) (NetworkChaosRefs (TopStatus topology))) (\<lambda>cs _. set ?dels \<subseteq> set (map fst cs))"
    by (rule does_mono [OF deleteRefs_does]) (simp only: subset_refl)
  show ?thesis
    unfolding reconcileDelete_def
    by (intro does_bind does_mono [OF refs] does_mono [OF deleteZones_does [OF assms]] does_perform does_ret)
      (auto simp del: set_concat intro: zoneGone_append)
qed

lemma reconcileApply_failed:
  "does (reconcileApply k topology) (\<lambda>cs (err, next). next = topology \<or> (\<exists>t b. (StatusUpdate t, b) \<in> set cs))"
proof -
  have any: "does (ensureLinks k t refs links) (\<lambda>_ _. True)" for t refs links
    by (rule does_mono [OF links_quiet [unfolded emits_does]]) simp
  show ?thesis
    unfolding reconcileApply_def Let_def
    by (intro does_bind does_mono [OF reconcileZones_any] does_sum does_ret does_mono [OF any] does_mono [OF statusUpdate_does]) auto
qed

fun noDeletion :: "call \<times> bool \<Rightarrow> bool" where
  "noDeletion (Delete key, b) = False"
| "noDeletion (c, b) = True"

lemma reconcileZones_noDeletion: "emits noDeletion (reconcileZones k t)"
proof -
  have "emits noDeletion (reconcileZoneList k n sts zs)" for n sts zs
    by (induction zs arbitrary: sts)
      (auto simp: ensureNamespace_def ensureResourceQuota_def get_defs Let_def
        intro!: trace_intro emits_request emits_perform)
  then show ?thesis by (simp add: reconcileZones_def)
qed

lemma topRefDeletion_mem:
  "splitTopologyRef x = Some (ns, name) \<Longrightarrow> Delete (networkChaosKey ns name) \<in> set (topRefDeletion x)"
  by (simp add: topRefDeletion_def)

lemma reconcileDeactivate_deletes:
  "emits (\<lambda>c. \<forall>key. fst c = Delete key \<longrightarrow> Delete key \<in> set (concat (map topRefDeletion (NetworkChaosRefs (TopStatus topology)))))
     (reconcileDeactivate k topology)"
proof -
  have "noDeletion c \<Longrightarrow> fst c \<noteq> Delete key" for c key
    by (cases c rule: noDeletion.cases) simp_all
  note zones = emits_mono [OF reconcileZones_noDeletion, where Q = "\<lambda>c. \<forall>key. fst c = Delete key \<longrightarrow> R key" for R]
  show ?thesis
    unfolding reconcileDeactivate_def deleteChaosRef_def statusUpdate_def Let_def
    by (intro trace_intro emits_perform zones)
      (use \<open>\<And>c key. noDeletion c \<Longrightarrow> fst c \<noteq> Delete key\<close> in \<open>auto dest: topRefDeletion_mem\<close>)
qed

lemma map_of_setLabels:
  "distinct (map fst desired) \<Longrightarrow> map_of (setLabels desired labels) = map_of labels ++ map_of desired"
proof (induction desired arbitrary: labels)
  case (Cons d ds)
  obtain key v where d: "d = (key, v)" by fastforce
  from Cons.prems have key: "key \<notin> dom (map_of ds)" by (simp add: d dom_map_of_conv_image_fst)
  have "map_of (setLabels (d # ds) labels) = map_of (AList.update key v labels) ++ map_of ds"
    using Cons.IH [of "AList.update key v labels"] Cons.prems by (simp add: setLabels_def d)
  also have "\<dots> = (map_of labels)(key \<mapsto> v) ++ map_of ds" by (simp only: update_conv')
  also have "\<dots> = (map_of labels ++ map_of ds)(key \<mapsto> v)" using key by (rule map_add_upd_left)
  finally show ?case by (simp only: d map_of.simps fst_conv snd_conv map_add_upd)
qed (simp add: setLabels_def)

lemma zoneLabels_distinct: "distinct (map fst (zoneLabels t z))"
  by (simp add: zoneLabels_def labelEdgeZone_def labelTopologyName_def labelZoneName_def)

section \<open>Runs to evaluate\<close>

definition sampleLink :: "string list \<Rightarrow> ZoneLinkSpec" where
  "sampleLink zones = \<lparr>LinkZones = zones, Latency = ''10ms'', Jitter = '''', Bandwidth = '''', PacketLoss = ''''\<rparr>"

definition linkedTopology :: "bool \<Rightarrow> Topology" where
  "linkedTopology active = (sampleTopology active)\<lparr>Finalizers := [topologyFinalizer],
     TopSpec := (TopSpec (sampleTopology active))\<lparr>Links := [sampleLink [''b'', ''a'']]\<rparr>\<rparr>"

definition linkWorld :: "Topology \<Rightarrow> unit env" where
  "linkWorld t = sampleWorld\<lparr>eGetTopology := (\<lambda>ns n w. (Inr t, w))\<rparr>"

lemma linkWorld_sel [simp]:
  "eGetTopology (linkWorld t) ns n w = (Inr t, w)" "eWrite (linkWorld t) c w = (None, w)" "eNow (linkWorld t) w = (0, w)"
  "eGetNamespace (linkWorld t) n w = (Inl (GoErr NotFound ''not found''), w)"
  "eGetUnstructured (linkWorld t) key w = (Inl (GoErr NotFound ''not found''), w)"
  by (simp_all add: linkWorld_def sampleWorld_def emptyWorld_def Let_def)

lemma linkWorld_answers [simp]: "answersKey (linkWorld t)" "answersNamespace (linkWorld t)"
  by (simp_all add: answersKey_def answersNamespace_def)

lemma linkedTopology_sel [simp]:
  "TopName (linkedTopology active) = ''t''" "Active (TopSpec (linkedTopology active)) = active"
  "Links (TopSpec (linkedTopology active)) = [sampleLink [''b'', ''a'']]" "DeletionTimestamp (linkedTopology active) = None"
  "Finalizers (linkedTopology active) = [topologyFinalizer]" "Generation (linkedTopology active) = 1"
  "TopStatus (linkedTopology active) = TopStatus (sampleTopology active)"
  "Zones (TopSpec (linkedTopology active)) = Zones (TopSpec (sampleTopology active))"
  by (simp_all add: linkedTopology_def sampleTopology_def)

lemma sample_objects: "allObjects (linkedTopology active) = [(''t-a'', ''top-t-a-b-delay'')]"
  by (simp add: allObjects_def sampleLink_def linkObjects_def sortedPair_def linkActions_def zoneName_def linkName_def linkBaseName_def)

definition applyRun :: "(goerr option \<times> Topology) \<times> unit kst" where
  "applyRun = run (reconcileApply (linkWorld (linkedTopology True)) (linkedTopology True)) start"

lemmas topology_defs = reconcileApply_def reconcileDeactivate_def reconcileZones_def ensureNamespace_def ensureLinkChaos_def
  ensureNetworkChaos_def statusUpdate_def deleteChaosRef_def

lemma applyRun_succeeds: "fst (fst applyRun) = None"
  by (simp add: applyRun_def topology_defs get_defs request_def perform_def run_simps Let_def sampleTopology_def isNotFound_def
      sampleLink_def sortedPair_def linkActions_def)

lemma applyRun_runs:
  "run (reconcileApply (linkWorld (linkedTopology True)) (linkedTopology True)) start = ((None, snd (fst applyRun)), snd applyRun)"
  using applyRun_succeeds by (metis applyRun_def prod.collapse)

section \<open>Properties\<close>

text \<open>
  The network objects of one topology do not overwrite each other: one link has one object per
  condition it sets, two links share an object only if they join the same two zones, and no object has the
  name of a chaos object of an experiment.
\<close>

theorem link_objects_distinct:
  "distinct (linkObjects t link) \<and>
   (set (linkObjects t link) \<inter> set (linkObjects t link') \<noteq> {} \<longrightarrow> set (LinkZones link) = set (LinkZones link')) \<and>
   linkName t x y action \<noteq> networkFaultName i p q action' \<and> linkName t x y action \<noteq> stressFaultName i p variant"
proof -
  have "distinct (linkObjects t link)"
  proof (cases "\<exists>a b. LinkZones link = [a, b]")
    case True
    then obtain a b where ab: "LinkZones link = [a, b]" by blast
    obtain x y where xy: "sortedPair a b = (x, y)" by fastforce
    have "linkObjects t link = map (\<lambda>action. (zoneName t x, linkName t x y action)) (map fst (linkActions link))"
      by (simp add: linkObjects_def ab xy split_beta)
    moreover have "inj_on (\<lambda>action. (zoneName t x, linkName t x y action)) A" for A
      by (auto simp: inj_on_def linkName_def)
    ultimately show ?thesis using linkActions_distinct [of link] by (simp only: distinct_map)
  next
    case False
    then have "linkObjects t link = []"
      by (cases "LinkZones link"; cases "tl (LinkZones link)"; cases "tl (tl (LinkZones link))") (auto simp: linkObjects_def)
    then show ?thesis by simp
  qed
  moreover have "set (LinkZones link) = set (LinkZones link')"
    if o': "o' \<in> set (linkObjects t link)" "o' \<in> set (linkObjects t link')" for o'
  proof -
    from o'(1) obtain a b x1 y1 act where 1: "LinkZones link = [a, b]" "sortedPair a b = (x1, y1)"
      "o' = (zoneName t x1, linkName t x1 y1 act)" "act \<in> {''delay'', ''bandwidth'', ''loss''}" by (rule linkObjects_elem)
    from o'(2) obtain c d x2 y2 act' where 2: "LinkZones link' = [c, d]" "sortedPair c d = (x2, y2)"
      "o' = (zoneName t x2, linkName t x2 y2 act')" "act' \<in> {''delay'', ''bandwidth'', ''loss''}" by (rule linkObjects_elem)
    have "x1 = x2 \<and> y1 = y2 \<and> act = act'" using 1(3,4) 2(3,4) by (intro linkObject_inject [of t]) simp_all
    then show ?thesis using sortedPair_set [OF 1(2)] sortedPair_set [OF 2(2)] 1(1) 2(1) by simp
  qed
  ultimately show ?thesis
    by (auto simp: linkName_def linkBaseName_def networkFaultName_def stressFaultName_def)
qed

theorem link_objects_distinct_witness:
  "set (linkObjects ''t'' (sampleLink [''a'', ''b''])) \<inter> set (linkObjects ''t'' (sampleLink [''b'', ''a''])) \<noteq> {} \<and>
   set (LinkZones (sampleLink [''a'', ''b''])) = set (LinkZones (sampleLink [''b'', ''a'']))"
proof -
  have "set (linkObjects ''t'' (sampleLink [''a'', ''b''])) \<inter> set (linkObjects ''t'' (sampleLink [''b'', ''a''])) \<noteq> {}"
    by (simp add: linkObjects_def sampleLink_def sortedPair_def linkActions_def)
  with link_objects_distinct [of "''t''" "sampleLink [''a'', ''b'']" "sampleLink [''b'', ''a'']"] show ?thesis by simp
qed

text \<open>
  C11. Activation is complete: when \<open>reconcileApply\<close> succeeds, every network object that the links of the
  topology stand for has been created or updated, the status written lists exactly these objects, and its
  phase is \<open>Active\<close>.
\<close>

theorem activation_complete:
  assumes "answersKey k" "run (reconcileApply k topology) s = ((None, next), s')"
  shows "NetworkChaosRefs (TopStatus next) = map topologyRef (allObjects topology) \<and>
    (\<forall>o' \<in> set (allObjects topology). \<exists>c \<in> set (newCalls s s'). written (objectKey o') c) \<and>
    (StatusUpdate (OTopology next), True) \<in> set (newCalls s s') \<and> TopPhase (TopStatus next) = TopologyPhaseActive"
  using doesD [OF reconcileApply_does [OF assms(1)] assms(2)] by (simp add: allWritten_def)

theorem activation_complete_witness:
  "NetworkChaosRefs (TopStatus (snd (fst applyRun))) = [topologyRef (''t-a'', ''top-t-a-b-delay'')]"
  using activation_complete [OF linkWorld_answers(1) applyRun_runs] by (simp add: sample_objects)

text \<open>
  The network objects of a topology, said without the functions of the code: for each link between two zones one object
  per condition that is set, in the namespace of the zone that comes first in the alphabet.
\<close>

definition networkObject :: "Topology \<Rightarrow> objkey \<Rightarrow> bool" where
  "networkObject topology key \<longleftrightarrow> (\<exists>link \<in> set (Links (TopSpec topology)). \<exists>a b wanted action.
     LinkZones link = [a, b] \<and> wanted \<noteq> '''' \<and>
     (wanted, action) \<in> {(Latency link, ''delay''), (Bandwidth link, ''bandwidth''), (PacketLoss link, ''loss'')} \<and>
     key = ObjKey ''chaos-mesh.org/v1alpha1'' ''NetworkChaos'' (TopName topology @ ''-'' @ min a b)
       (''top-'' @ TopName topology @ ''-'' @ min a b @ ''-'' @ max a b @ ''-'' @ action))"

lemma chosen_actions:
  "chosen \<in> fst ` set ((if p \<noteq> '''' then [(x, f)] else []) @ (if q \<noteq> '''' then [(y, g)] else []) @ (if r \<noteq> '''' then [(z, h)] else [])) \<longleftrightarrow>
   (\<exists>wanted. wanted \<noteq> '''' \<and> (wanted, chosen) \<in> {(p, x), (q, y), (r, z)})"
  by (cases p; cases q; cases r) (auto simp del: not_Cons_self)

lemma image_Collect_ex: "f ` {x. \<exists>w. P w x} = {f x | w x. P w x}"
  by blast

lemma linkObjects_keys:
  assumes "LinkZones link = [a, b]"
  shows "objectKey ` set (linkObjects t link) =
    {ObjKey ''chaos-mesh.org/v1alpha1'' ''NetworkChaos'' (t @ ''-'' @ min a b)
       (''top-'' @ t @ ''-'' @ min a b @ ''-'' @ max a b @ ''-'' @ action) | wanted action. wanted \<noteq> '''' \<and>
     (wanted, action) \<in> {(Latency link, ''delay''), (Bandwidth link, ''bandwidth''), (PacketLoss link, ''loss'')}}"
proof -
  have actions: "action \<in> fst ` set (linkActions link) \<longleftrightarrow> (\<exists>wanted. wanted \<noteq> '''' \<and>
      (wanted, action) \<in> {(Latency link, ''delay''), (Bandwidth link, ''bandwidth''), (PacketLoss link, ''loss'')})" for action
    unfolding linkActions_def by (rule chosen_actions)
  have "objectKey ` set (linkObjects t link) = (\<lambda>action. ObjKey ''chaos-mesh.org/v1alpha1'' ''NetworkChaos'' (t @ ''-'' @ min a b)
      (''top-'' @ t @ ''-'' @ min a b @ ''-'' @ max a b @ ''-'' @ action)) ` fst ` set (linkActions link)"
    using assms by (simp add: linkObjects_def sortedPair_def min_def max_def objectKey_def networkChaosKey_def zoneName_def
      linkName_def linkBaseName_def chaosMeshGroup_def image_image case_prod_unfold)
  also have "fst ` set (linkActions link) = {action. \<exists>wanted. wanted \<noteq> '''' \<and>
      (wanted, action) \<in> {(Latency link, ''delay''), (Bandwidth link, ''bandwidth''), (PacketLoss link, ''loss'')}}"
    using actions by (intro set_eqI) simp
  finally show ?thesis by (simp only: image_Collect_ex)
qed

lemma networkObject_iff: "networkObject topology key \<longleftrightarrow> key \<in> objectKey ` set (allObjects topology)"
proof -
  have "key \<in> objectKey ` set (linkObjects (TopName topology) link) \<longleftrightarrow> (\<exists>a b wanted action.
      LinkZones link = [a, b] \<and> wanted \<noteq> '''' \<and>
      (wanted, action) \<in> {(Latency link, ''delay''), (Bandwidth link, ''bandwidth''), (PacketLoss link, ''loss'')} \<and>
      key = ObjKey ''chaos-mesh.org/v1alpha1'' ''NetworkChaos'' (TopName topology @ ''-'' @ min a b)
        (''top-'' @ TopName topology @ ''-'' @ min a b @ ''-'' @ max a b @ ''-'' @ action))" for link
  proof (cases "\<exists>a b. LinkZones link = [a, b]")
    case True
    then obtain a b where ab: "LinkZones link = [a, b]" by blast
    show ?thesis unfolding linkObjects_keys [OF ab] ab by blast
  next
    case False
    then have "linkObjects (TopName topology) link = []"
      by (cases "LinkZones link"; cases "tl (LinkZones link)"; cases "tl (tl (LinkZones link))") (auto simp: linkObjects_def)
    with False show ?thesis by simp
  qed
  then have "networkObject topology key \<longleftrightarrow>
      (\<exists>link \<in> set (Links (TopSpec topology)). key \<in> objectKey ` set (linkObjects (TopName topology) link))"
    by (simp only: networkObject_def)
  then show ?thesis by (auto simp: allObjects_def)
qed

text \<open>
  C12. Deactivation undoes activation: from the status a successful \<open>reconcileApply\<close> left, a successful
  \<open>reconcileDeactivate\<close> asks for the deletion of every network object of the topology and of nothing else, and then stores a
  status that is inactive and lists none, provided no name has a slash. The code does not look at what the deletions answer.
\<close>

theorem deactivation_undoes_activation:
  assumes "answersKey k" "run (reconcileApply k topology) s = ((None, applied), s')"
    and "slashFree (TopName topology)" "\<forall>link \<in> set (Links (TopSpec topology)). list_all slashFree (LinkZones link)"
    and "run (reconcileDeactivate k applied) t = ((None, next), t')"
  shows "(\<forall>key. Delete key \<in> set (map fst (newCalls t t')) \<longleftrightarrow> networkObject topology key) \<and>
    (StatusUpdate (OTopology next), True) \<in> set (newCalls t t') \<and> NetworkChaosRefs (TopStatus next) = [] \<and>
    TopPhase (TopStatus next) = TopologyPhaseInactive"
proof -
  let ?dels = "concat (map topRefDeletion (NetworkChaosRefs (TopStatus applied)))"
  have "NetworkChaosRefs (TopStatus applied) = map topologyRef (allObjects topology)"
    using doesD [OF reconcileApply_does [OF assms(1)] assms(2)] by simp
  then have "?dels = map (\<lambda>o'. Delete (objectKey o')) (allObjects topology)"
    using allObjects_slashFree [OF assms(3,4)] deletions_of_objects by metis
  then have dels: "Delete key \<in> set ?dels \<longleftrightarrow> networkObject topology key" for key
    by (auto simp: networkObject_iff)
  from doesD [OF reconcileDeactivate_does assms(5)] have all: "set ?dels \<subseteq> set (map fst (newCalls t t'))"
    and status: "(StatusUpdate (OTopology next), True) \<in> set (newCalls t t')" "NetworkChaosRefs (TopStatus next) = []"
      "TopPhase (TopStatus next) = TopologyPhaseInactive" by auto
  moreover have "Delete key \<in> set ?dels" if "Delete key \<in> set (map fst (newCalls t t'))" for key
    using emits_newCalls [OF reconcileDeactivate_deletes assms(5)] that by (auto simp: list_all_iff)
  ultimately show ?thesis using dels by blast
qed

theorem deactivation_undoes_activation_witness:
  "Delete (ObjKey ''chaos-mesh.org/v1alpha1'' ''NetworkChaos'' ''t-a'' ''top-t-a-b-delay'') \<in> set (map fst (newCalls start (snd (run
     (reconcileDeactivate (linkWorld (linkedTopology True)) (snd (fst applyRun))) start))))"
proof -
  let ?m = "run (reconcileDeactivate (linkWorld (linkedTopology True)) (snd (fst applyRun))) start"
  have "fst (fst ?m) = None"
    by (simp add: topology_defs get_defs request_def perform_def run_simps Let_def isNotFound_def applyRun_def sampleTopology_def
        sampleLink_def sortedPair_def linkActions_def observed_def split: option.splits prod.splits)
  then have "?m = ((None, snd (fst ?m)), snd ?m)" by (metis prod.collapse)
  from deactivation_undoes_activation [OF linkWorld_answers(1) applyRun_runs _ _ this] show ?thesis
    by (simp add: networkObject_iff sample_objects sampleLink_def objectKey_def networkChaosKey_def chaosMeshGroup_def)
qed

text \<open>
  A topology whose observed state matches its specification is left alone: with the finalizer in place,
  no deletion under way, the generation observed and the phase that of the \<open>active\<close> flag, a reconcile
  reads the topology and does nothing else. This ends the loop that status updates would otherwise feed.
\<close>

theorem settled_topology_untouched:
  assumes "fst (eGetTopology k ns name (world s)) = Inr topology" "DeletionTimestamp topology = None"
    and "topologyFinalizer \<in> set (Finalizers topology)" "settled topology"
  shows "fst (run (ReconcileTopology k ns name) s) = Returned NoRequeue None \<and>
    issued (snd (run (ReconcileTopology k ns name) s)) = issued s @ [Get (ObjKey ecoscapeAPIVersion ''Topology'' ns name)]"
  using assms
  by (cases "eGetTopology k ns name (world s)")
    (simp add: ReconcileTopology_def get_defs request_def run_simps issued_def)

definition settledTopology :: Topology where
  "settledTopology = (linkedTopology True)\<lparr>TopStatus := (TopStatus (linkedTopology True))\<lparr>ObservedGeneration := 1\<rparr>\<rparr>"

theorem settled_topology_untouched_witness:
  "fst (run (ReconcileTopology (linkWorld settledTopology) ''x'' ''t'') start) = Returned NoRequeue None"
  using settled_topology_untouched [of "linkWorld settledTopology" "''x''" "''t''" start settledTopology]
  by (simp add: settledTopology_def settled_def sampleTopology_def linkedTopology_def)

text \<open>
  C13. The reported phase is true: every status a reconcile writes either reports \<open>Failed\<close>, or is settled,
  with the phase of the \<open>active\<close> flag of the specification and the generation that was read.
\<close>

theorem topology_status_sound:
  "emits soundStatus (ReconcileTopology k ns name)"
proof -
  have ends: "emits soundStatus (reconcileApply k topology)" if "Active (TopSpec topology)" for topology
    unfolding reconcileApply_def statusUpdate_def Let_def
    by (intro trace_intro emits_perform emits_mono [OF zones_quiet quiet_sound] emits_mono [OF links_quiet quiet_sound])
      (simp_all add: observed_def settled_def that)
  have ends': "emits soundStatus (reconcileDeactivate k topology)" if "\<not> Active (TopSpec topology)" for topology
    unfolding reconcileDeactivate_def statusUpdate_def deleteChaosRef_def Let_def
    by (intro trace_intro emits_perform emits_mono [OF zones_quiet quiet_sound])
      (simp_all add: observed_def settled_def that)
  show ?thesis
    unfolding ReconcileTopology_def reconcileDelete_def deleteChaosRef_def deleteZone_def setTopologyPhase_def statusUpdate_def
      Let_def get_defs
    by (intro trace_intro emits_request emits_perform ends ends') simp_all
qed

text \<open>
  C14. Nothing is created that could not be cleaned up: a reconcile creates or updates zones, quotas and network
  objects only for a topology that is not being deleted and already carries the finalizer.
\<close>

theorem finalizer_before_resources:
  assumes "fst (eGetTopology k ns name (world s)) = Inr topology" "run (ReconcileTopology k ns name) s = (out, s')"
    and "(c, b) \<in> set (newCalls s s')" "createsResource c"
  shows "topologyFinalizer \<in> set (Finalizers topology) \<and> DeletionTimestamp topology = None"
proof (rule ccontr)
  assume no: "\<not> ?thesis"
  obtain s1 where 1: "run (reconcileTopology1 k topology) s1 = (out, s')"
    "calls s1 = calls s @ [(Get (ObjKey ecoscapeAPIVersion ''Topology'' ns name), True)]"
    using ReconcileTopology_reads [OF assms(1,2)] .
  have em: "emits (\<lambda>c. \<not> createsResource (fst c)) (reconcileTopology1 k topology)"
    using no unfolding reconcileTopology1_def reconcileDelete_def deleteChaosRef_def deleteZone_def get_defs
    by (auto intro!: trace_intro emits_request emits_perform)
  have "newCalls s s' = (Get (ObjKey ecoscapeAPIVersion ''Topology'' ns name), True) # newCalls s1 s'"
    using newCalls_trans [OF extendsI [OF 1(2)] emits_extends [OF em 1(1)]] newCalls_append [OF 1(2)] by simp
  with emits_newCalls [OF em 1(1)] show False using assms(3,4) by (auto simp: list_all_iff)
qed

theorem finalizer_before_resources_witness:
  "\<exists>c b. (c, b) \<in> set (newCalls start (snd (run (ReconcileTopology (linkWorld (linkedTopology True)) ''x'' ''t'') start))) \<and>
     createsResource c \<and> topologyFinalizer \<in> set (Finalizers (linkedTopology True))"
proof -
  let ?m = "run (ReconcileTopology (linkWorld (linkedTopology True)) ''x'' ''t'') start"
  have "\<exists>c b. (c, b) \<in> set (newCalls start (snd ?m)) \<and> createsResource c"
    by (intro exI [of _ "Create (ONamespace \<lparr>NsName = ''t-a'', NsLabels = zoneLabels ''t'' ''a''\<rparr>)"] exI [of _ True])
      (simp add: ReconcileTopology_def topology_defs get_defs request_def perform_def run_simps Let_def isNotFound_def
        sampleTopology_def settled_def newCalls_def zoneName_def sampleLink_def sortedPair_def linkActions_def)
  then obtain c b where c: "(c, b) \<in> set (newCalls start (snd ?m))" "createsResource c" by blast
  with finalizer_before_resources [OF _ prod.collapse [symmetric] c] show ?thesis by auto
qed

lemma topRefDeletion_text:
  "slashFree ns \<Longrightarrow> Delete (ObjKey ''chaos-mesh.org/v1alpha1'' ''NetworkChaos'' ns name) \<in> set (topRefDeletion (ns @ ''/'' @ name))"
  using topRefDeletion_object [of ns name] by (simp add: topologyRef_def objectKey_def networkChaosKey_def chaosMeshGroup_def)

text \<open>
  C15. Deletion: \<open>reconcileDelete\<close> asks for the deletion of every network object its status lists, and for the namespace
  of every zone whose read succeeds; where that read fails, for whatever reason, the namespace is left. As its last call it
  then removes the finalizer, whatever the deletions answered, and it reports an error exactly if this call fails.
\<close>

theorem deletion_complete:
  assumes "answersNamespace k" "run (reconcileDelete k topology) s = (out, s')"
  shows "\<exists>cs b. newCalls s s' = cs @ [(Update (OTopology (topology\<lparr>Finalizers :=
      filter (\<lambda>f. f \<noteq> topologyFinalizer) (Finalizers topology)\<rparr>)), b)] \<and>
    (out = Returned NoRequeue None \<longleftrightarrow> b) \<and>
    (\<forall>ns name. slashFree ns \<and> ns @ ''/'' @ name \<in> set (NetworkChaosRefs (TopStatus topology)) \<longrightarrow>
       Delete (ObjKey ''chaos-mesh.org/v1alpha1'' ''NetworkChaos'' ns name) \<in> set (map fst cs)) \<and>
    (\<forall>zone \<in> set (Zones (TopSpec topology)). let namespace = nsKey (TopName topology @ ''-'' @ ZoneSpecName zone) in
       (Get namespace, False) \<in> set cs \<or> (Get namespace, True) \<in> set cs \<and> Delete namespace \<in> set (map fst cs))"
proof -
  from doesD [OF reconcileDelete_does [OF assms(1)] assms(2)] obtain cs b where
    c: "newCalls s s' = cs @ [(Update (OTopology (topology\<lparr>Finalizers := filter (\<lambda>f. f \<noteq> topologyFinalizer) (Finalizers topology)\<rparr>)), b)]"
    and b: "out = Returned NoRequeue None \<longleftrightarrow> b"
    and refs: "set (concat (map topRefDeletion (NetworkChaosRefs (TopStatus topology)))) \<subseteq> set (map fst cs)"
    and zones: "\<forall>zone \<in> set (Zones (TopSpec topology)). zoneGone (TopName topology) cs zone" by blast
  have "Delete (ObjKey ''chaos-mesh.org/v1alpha1'' ''NetworkChaos'' ns name) \<in> set (map fst cs)"
    if "slashFree ns" "ns @ ''/'' @ name \<in> set (NetworkChaosRefs (TopStatus topology))" for ns name
  proof -
    from topRefDeletion_text [OF that(1), of name] that(2)
    have "Delete (ObjKey ''chaos-mesh.org/v1alpha1'' ''NetworkChaos'' ns name) \<in>
        set (concat (map topRefDeletion (NetworkChaosRefs (TopStatus topology))))" by auto
    then show ?thesis using refs by blast
  qed
  with b zones show ?thesis
    unfolding c by (intro exI [of _ cs] exI [of _ b]) (simp add: zoneGone_def zoneName_def Let_def)
qed

theorem deletion_complete_witness:
  "\<exists>cs c. newCalls start (snd (run (reconcileDelete (linkWorld (linkedTopology True)) (linkedTopology True)) start)) = cs @ [c] \<and>
     ((Get (nsKey ''t-a''), False) \<in> set cs \<or> (Get (nsKey ''t-a''), True) \<in> set cs \<and> Delete (nsKey ''t-a'') \<in> set (map fst cs))"
proof -
  let ?m = "run (reconcileDelete (linkWorld (linkedTopology True)) (linkedTopology True)) start"
  from deletion_complete [OF linkWorld_answers(2) prod.collapse [symmetric]] show ?thesis
    by (force simp: sampleTopology_def Let_def)
qed

text \<open>
  A failed activation forgets what it created: if \<open>reconcileApply\<close> fails before its status update, the
  topology keeps the list of network objects it had, so a later deactivation deletes only those, and none of the
  objects the failed attempt created for links that were not yet listed.
\<close>

theorem failed_activation_forgets:
  assumes "run (reconcileApply k topology) s = ((Some e, next), s')" "\<forall>t b. (StatusUpdate t, b) \<notin> set (newCalls s s')"
    and "run (reconcileDeactivate k next) t = (out, t')" "Delete key \<in> set (map fst (newCalls t t'))"
  shows "Delete key \<in> set (concat (map topRefDeletion (NetworkChaosRefs (TopStatus topology))))"
proof -
  have "next = topology" using doesD [OF reconcileApply_failed assms(1)] assms(2) by auto
  with emits_newCalls [OF reconcileDeactivate_deletes assms(3)] assms(4) show ?thesis
    by (auto simp: list_all_iff)
qed

text \<open>A world in which no network object can be created, and a topology that lists an old one.\<close>

definition refusingLinkWorld :: "unit env" where
  "refusingLinkWorld = (linkWorld (linkedTopology True))\<lparr>eWrite := (\<lambda>c w.
     (case c of Create (OUnstructured u) \<Rightarrow> Some (errorf ''quota'') | _ \<Rightarrow> None, w))\<rparr>"

definition staleTopology :: Topology where
  "staleTopology = (linkedTopology True)\<lparr>TopStatus := (TopStatus (linkedTopology True))\<lparr>NetworkChaosRefs := [''t-a/old'']\<rparr>\<rparr>"

lemma stale_run:
  "\<exists>e. fst (run (reconcileApply refusingLinkWorld staleTopology) start) = (Some e, staleTopology)"
  "(StatusUpdate t, b) \<notin> set (newCalls start (snd (run (reconcileApply refusingLinkWorld staleTopology) start)))"
  "Delete (networkChaosKey ''t-a'' ''old'') \<in> set (map fst (newCalls start (snd (run (reconcileDeactivate refusingLinkWorld staleTopology) start))))"
  by (simp_all add: refusingLinkWorld_def staleTopology_def topology_defs get_defs request_def perform_def run_simps Let_def isNotFound_def
      sampleTopology_def sampleLink_def sortedPair_def linkActions_def newCalls_def splitTopologyRef_def numeral_2_eq_2)

theorem failed_activation_forgets_witness:
  "Delete (networkChaosKey ''t-a'' ''old'') \<in> set (concat (map topRefDeletion (NetworkChaosRefs (TopStatus staleTopology))))"
proof -
  obtain e where "fst (run (reconcileApply refusingLinkWorld staleTopology) start) = (Some e, staleTopology)"
    using stale_run(1) by blast
  then have r: "run (reconcileApply refusingLinkWorld staleTopology) start =
      ((Some e, staleTopology), snd (run (reconcileApply refusingLinkWorld staleTopology) start))"
    by (metis prod.collapse)
  show ?thesis
    by (rule failed_activation_forgets [OF r _ prod.collapse [symmetric] stale_run(3)]) (simp add: stale_run(2))
qed

text \<open>
  An existing zone namespace keeps its other labels: \<open>ensureNamespace\<close> updates it once, with the four
  labels of the zone set and every other label as it was.
\<close>

theorem namespace_labels_merged:
  assumes "fst (eGetNamespace k n (world s)) = Inr ns" "run (ensureNamespace k n topologyName zone) s = (err, s')"
  shows "\<exists>ns' b. newCalls s s' = [(Get (nsKey n), True), (Update (ONamespace ns'), b)] \<and> NsName ns' = NsName ns \<and>
    map_of (NsLabels ns') = map_of (NsLabels ns) ++ map_of (zoneLabels topologyName zone)"
  using assms
  by (auto simp: ensureNamespace_def get_defs newCalls_def map_of_setLabels [OF zoneLabels_distinct]
      elim!: run_elims intro!: exI [of _ "ns\<lparr>NsLabels := setLabels (zoneLabels topologyName zone) (NsLabels ns)\<rparr>"])

definition labelledWorld :: "unit env" where
  "labelledWorld = (linkWorld (linkedTopology True))\<lparr>eGetNamespace := (\<lambda>n w. (Inr \<lparr>NsName = n, NsLabels = [(''team'', ''a'')]\<rparr>, w))\<rparr>"

theorem namespace_labels_merged_witness:
  "\<exists>ns' b. (Update (ONamespace ns'), b) \<in> set (newCalls start (snd (run (ensureNamespace labelledWorld ''t-a'' ''t'' ''a'') start))) \<and>
     map_of (NsLabels ns') ''team'' = Some ''a''"
proof -
  have get: "fst (eGetNamespace labelledWorld ''t-a'' (world start)) = Inr \<lparr>NsName = ''t-a'', NsLabels = [(''team'', ''a'')]\<rparr>"
    by (simp add: labelledWorld_def)
  have "map_of (zoneLabels ''t'' ''a'') ''team'' = None"
    by (simp add: zoneLabels_def labelEdgeZone_def labelTopologyName_def labelZoneName_def)
  with namespace_labels_merged [OF get prod.collapse [symmetric], of "''t''" "''a''"] show ?thesis
    by (auto simp: map_add_def)
qed

end
