(* ===== verification/Topology_Handshake.thy ===== *)
theory Topology_Handshake
  imports Experiment_Spec Topology_Spec
begin

text \<open>
  How the two reconcilers work together. The experiment reconciler asks for a topology by its \<open>active\<close> flag and waits
  for the phase in its status, which the topology reconciler writes.
\<close>

section \<open>What the topology reconciler reports\<close>

text \<open>A successful status update tells how the reconcile that made it ends.\<close>

definition reportsOutcome :: "(call \<times> bool) list \<Rightarrow> outcome \<Rightarrow> bool" where
  "reportsOutcome cs out \<longleftrightarrow> (\<forall>sent. (StatusUpdate (OTopology sent), True) \<in> set cs \<longrightarrow>
     TopPhase (TopStatus sent) =
       (if out = Returned NoRequeue None
        then if Active (TopSpec sent) then TopologyPhaseActive else TopologyPhaseInactive
        else TopologyPhaseFailed))"

lemma quiet_no_update: "list_all quiet cs \<Longrightarrow> (StatusUpdate obj, b) \<notin> set cs"
  by (auto simp: list_all_iff)

lemma quiet_reports: "list_all quiet cs \<Longrightarrow> reportsOutcome cs out"
  by (simp add: reportsOutcome_def quiet_no_update)

lemma reconcileApply_reports:
  "does (reconcileApply k t) (\<lambda>cs (err, next). TopSpec next = TopSpec t \<and>
     (\<forall>sent. (StatusUpdate (OTopology sent), True) \<in> set cs \<longrightarrow> err = None \<and> sent = next \<and> TopPhase (TopStatus sent) = TopologyPhaseActive))"
  unfolding reconcileApply_def statusUpdate_def Let_def
  by (intro does_bind does_mono [OF zones_quiet [unfolded emits_does]] does_mono [OF links_quiet [unfolded emits_does]]
      does_sum does_ret does_perform)
    (auto simp: observed_def quiet_no_update)

lemma reconcileDeactivate_reports:
  "does (reconcileDeactivate k t) (\<lambda>cs (err, next). TopSpec next = TopSpec t \<and>
     (\<forall>sent. (StatusUpdate (OTopology sent), True) \<in> set cs \<longrightarrow> err = None \<and> sent = next \<and> TopPhase (TopStatus sent) = TopologyPhaseInactive))"
proof -
  have d: "does (forEach (deleteChaosRef k) refs) (\<lambda>cs _. list_all quiet cs)" for refs
    unfolding deleteChaosRef_def emits_does [symmetric] by (intro trace_intro emits_perform) simp
  show ?thesis
    unfolding reconcileDeactivate_def statusUpdate_def Let_def
    by (intro does_bind does_mono [OF zones_quiet [unfolded emits_does]] does_mono [OF d] does_sum does_ret does_perform)
      (auto simp: observed_def quiet_no_update)
qed

lemma setTopologyPhase_reports:
  "does (setTopologyPhase k t phase message) (\<lambda>cs _. \<forall>sent b. (StatusUpdate (OTopology sent), b) \<in> set cs \<longrightarrow> TopPhase (TopStatus sent) = phase)"
  unfolding setTopologyPhase_def statusUpdate_def Let_def
  by (intro does_rules) simp

lemma reconcileDelete_quiet: "emits quiet (reconcileDelete k t)"
  unfolding reconcileDelete_def deleteChaosRef_def deleteZone_def get_defs
  by (intro trace_intro emits_request emits_perform) simp_all

lemma ReconcileTopology_reports: "does (ReconcileTopology k ns name) (\<lambda>cs out. reportsOutcome cs out)"
proof -
  have ends: "does (if Active (TopSpec t) then reconcileApply k t else reconcileDeactivate k t) (\<lambda>cs (err, next).
      \<forall>sent. (StatusUpdate (OTopology sent), True) \<in> set cs \<longrightarrow> err = None \<and>
        TopPhase (TopStatus sent) = (if Active (TopSpec sent) then TopologyPhaseActive else TopologyPhaseInactive))" for t
    by (auto intro!: does_if does_mono [OF reconcileApply_reports] does_mono [OF reconcileDeactivate_reports])
  show ?thesis
    unfolding ReconcileTopology_def get_defs
    by (intro does_bind does_request does_sum does_if does_perform does_ret
        does_mono [OF reconcileDelete_quiet [unfolded emits_does]] does_mono [OF ends] does_prod does_option
        does_mono [OF setTopologyPhase_reports])
      (auto simp: reportsOutcome_def quiet_no_update split: option.splits)
qed

section \<open>What the experiment reconciler makes of it\<close>

text \<open>The last call of a run is the status patch of an experiment that satisfies \<open>P\<close>.\<close>

definition endsWith :: "(Experiment \<Rightarrow> bool) \<Rightarrow> (call \<times> bool) list \<Rightarrow> bool" where
  "endsWith P cs \<longleftrightarrow> (\<exists>qs base new b. cs = qs @ [(StatusPatch (OExperiment new) (OExperiment base), b)] \<and> P new)"

lemma endsWith_append: "endsWith P ds \<Longrightarrow> endsWith P (cs @ ds)"
  unfolding endsWith_def by (metis append_assoc)

definition failedWith :: "string \<Rightarrow> Experiment \<Rightarrow> bool" where
  "failedWith msg e \<longleftrightarrow> Phase (Status e) = PhaseFailed \<and> Conditions (Status e) \<noteq> [] \<and>
     CondMessage (last (Conditions (Status e))) = msg"

lemma failExperiment_ends: "does (failExperiment k e err) (\<lambda>cs _. endsWith (failedWith (err_msg err)) cs)"
  unfolding failExperiment_def setPhase_def patchStatus_def Let_def
  by (intro does_rules) (auto simp: endsWith_def failedWith_def)

lemma giveUpTopology_ends: "does (giveUpTopology k e name err) (\<lambda>cs _. endsWith (failedWith (err_msg err)) cs)"
proof -
  have q: "does (deactivateTopology k ns name) (\<lambda>cs _. list_all quiet cs)" "does (cleanup k ns owned) (\<lambda>cs _. list_all quiet cs)" for ns owned
    unfolding emits_does [symmetric] by (intro trace_intro)+
  show ?thesis
    unfolding giveUpTopology_def
    by (intro does_bind does_mono [OF q(1)] does_mono [OF q(2)] does_mono [OF failExperiment_ends]) (auto intro: endsWith_append)
qed

text \<open>What \<open>handleWaitingForTopology\<close> does once it knows the phase and the elapsed time.\<close>

definition decideOn :: "'w env \<Rightarrow> Experiment \<Rightarrow> string \<Rightarrow> TopologyPhase \<Rightarrow> int32 \<Rightarrow> ('w kst, outcome) state" where
  "decideOn k e name phase elapsed =
     (if phase = TopologyPhaseActive then do {
        next \<leftarrow> setSubPhase k (withElapsed e elapsed) SubPhaseLoadDelay (derefOr (LoadDelay (Duration (Spec e))) 0);
        patchAndReturn k ''topology active'' next e Requeue
      }
      else if phase = TopologyPhaseFailed
      then giveUpTopology k (withElapsed e elapsed) name
        (errorf (''topology '' @ nsSlashName (ExpNamespace e) name @ '' reached Failed phase''))
      else if i32_lt 300 elapsed
      then giveUpTopology k (withElapsed e elapsed) name
        (errorf (''timeout waiting for topology '' @ nsSlashName (ExpNamespace e) name @ '' to become Active''))
      else patchAndReturn k ''waiting for topology'' (withElapsed e elapsed) e (RequeueAfter 2))"

definition waitOn :: "'w env \<Rightarrow> Experiment \<Rightarrow> string \<Rightarrow> TopologyPhase \<Rightarrow> ('w kst, outcome) state" where
  "waitOn k e name phase = do { elapsed \<leftarrow> elapsedSeconds k e; decideOn k e name phase elapsed }"

lemma handleWaitingForTopology_reads:
  assumes "ExpTopologyRef (Spec e) = Some name" "fst (eGetTopology k (ExpNamespace e) name (world u)) = Inr seen"
    and "run (handleWaitingForTopology k e) u = (out, u')"
  obtains u1 where "run (waitOn k e name (TopPhase (TopStatus seen))) u1 = (out, u')"
    "calls u1 = calls u @ [(Get (ObjKey ecoscapeAPIVersion ''Topology'' (ExpNamespace e) name), True)]"
  using assms unfolding handleWaitingForTopology_def get_defs waitOn_def decideOn_def Let_def
  by (auto elim!: run_bindE run_requestE cong: if_cong)

lemma quiet_elapsed: "does (elapsedSeconds k e) (\<lambda>cs _. list_all quiet cs)"
  unfolding emits_does [symmetric] by (intro trace_intro)

lemma patchAndReturn_ends: "P new \<Longrightarrow> does (patchAndReturn k what new base rq) (\<lambda>cs _. endsWith P cs)"
  unfolding patchAndReturn_def patchStatus_def by (intro does_rules) (auto simp: endsWith_def)

text \<open>What the waiting experiment has become, by the phase it has seen.\<close>

fun follows :: "Experiment \<Rightarrow> string \<Rightarrow> TopologyPhase \<Rightarrow> Experiment \<Rightarrow> bool" where
  "follows e name TopologyPhaseActive new = (SubPhase (Status new) = SubPhaseLoadDelay \<and> Phase (Status new) = Phase (Status e))"
| "follows e name TopologyPhaseFailed new =
     failedWith (''topology '' @ nsSlashName (ExpNamespace e) name @ '' reached Failed phase'') new"
| "follows e name _ new = (SubPhase (Status new) = SubPhase (Status e) \<and> Phase (Status new) = Phase (Status e) \<or>
     failedWith (''timeout waiting for topology '' @ nsSlashName (ExpNamespace e) name @ '' to become Active'') new)"

lemma decideOn_ends: "does (decideOn k e name phase elapsed) (\<lambda>cs _. endsWith (follows e name phase) cs)"
proof -
  have give: "does (giveUpTopology k e' name err) (\<lambda>cs _. endsWith (follows e name phase) cs)"
    if "\<And>new. failedWith (err_msg err) new \<Longrightarrow> follows e name phase new" for e' err
    by (rule does_mono [OF giveUpTopology_ends]) (use that in \<open>auto simp: endsWith_def\<close>)
  have active: "does (do {
      next \<leftarrow> setSubPhase k (withElapsed e elapsed) SubPhaseLoadDelay d;
      patchAndReturn k what next e rq }) (\<lambda>cs _. endsWith (follows e name TopologyPhaseActive) cs)" for d what rq
    unfolding setSubPhase_def patchAndReturn_def patchStatus_def
    by (intro does_rules) (auto simp: endsWith_def withElapsed_def)
  have waits: "does (patchAndReturn k what (withElapsed e elapsed) e rq) (\<lambda>cs _. endsWith (follows e name phase) cs)"
    if "phase \<noteq> TopologyPhaseActive" "phase \<noteq> TopologyPhaseFailed" for what rq
    by (rule patchAndReturn_ends) (use that in \<open>cases phase; simp add: withElapsed_def\<close>)
  show ?thesis
    unfolding decideOn_def
    by (intro does_if give waits) (use active in \<open>cases phase; simp add: errorf_def\<close>)+
qed

lemma waitOn_ends: "does (waitOn k e name phase) (\<lambda>cs _. endsWith (follows e name phase) cs)"
  unfolding waitOn_def
  by (intro does_bind does_mono [OF quiet_elapsed] does_mono [OF decideOn_ends]) (rule endsWith_append)

lemma waiting_follows:
  assumes "ExpTopologyRef (Spec e) = Some name" "fst (eGetTopology k (ExpNamespace e) name (world u)) = Inr seen"
    and "run (handleWaitingForTopology k e) u = (out, u')"
  shows "endsWith (follows e name (TopPhase (TopStatus seen))) (newCalls u u')"
proof -
  obtain u1 where 1: "run (waitOn k e name (TopPhase (TopStatus seen))) u1 = (out, u')"
    "calls u1 = calls u @ [(Get (ObjKey ecoscapeAPIVersion ''Topology'' (ExpNamespace e) name), True)]"
    using handleWaitingForTopology_reads [OF assms] .
  from doesD [OF waitOn_ends 1(1)] have x: "extends u1 u'" "endsWith (follows e name (TopPhase (TopStatus seen))) (newCalls u1 u')"
    by simp_all
  show ?thesis
    unfolding newCalls_trans [OF extendsI [OF 1(2)] x(1)] using x(2) by (rule endsWith_append)
qed

section \<open>Properties\<close>

text \<open>
  C10. The handshake of the two reconcilers: when an experiment that waits for its topology sees the status the topology
  reconciler has sent for the activated topology, it goes on to the load delay if that reconcile succeeded, and
  otherwise fails with the reason that the topology has failed. In both cases the status patch is its last call.
\<close>

theorem topology_handshake:
  assumes "run (ReconcileTopology k ns name) s = (out, s')"
    and "(StatusUpdate (OTopology sent), True) \<in> set (newCalls s s')" "Active (TopSpec sent)"
    and "fst (eGetTopology k' (ExpNamespace e) name (world u)) = Inr seen" "TopStatus seen = TopStatus sent"
    and "ExpTopologyRef (Spec e) = Some name" "run (handleWaitingForTopology k' e) u = (out', u')"
  shows "endsWith (\<lambda>new. if out = Returned NoRequeue None
      then SubPhase (Status new) = SubPhaseLoadDelay \<and> Phase (Status new) = Phase (Status e)
      else failedWith (''topology '' @ nsSlashName (ExpNamespace e) name @ '' reached Failed phase'') new) (newCalls u u')"
proof -
  have phase: "TopPhase (TopStatus seen) = (if out = Returned NoRequeue None then TopologyPhaseActive else TopologyPhaseFailed)"
    using doesD [OF ReconcileTopology_reports assms(1)] assms(2,3,5) by (simp add: reportsOutcome_def)
  have "endsWith (follows e name (TopPhase (TopStatus seen))) (newCalls u u')"
    by (rule waiting_follows [OF assms(6,4,7)])
  then show ?thesis by (cases "out = Returned NoRequeue None") (simp_all add: phase endsWith_def)
qed

definition handshakeRun :: "outcome \<times> unit kst" where
  "handshakeRun = run (ReconcileTopology (linkWorld (linkedTopology True)) ''x'' ''t'') start"

lemma handshake_runs:
  "fst handshakeRun = Returned NoRequeue None"
  "(StatusUpdate (OTopology (snd (fst applyRun))), True) \<in> set (newCalls start (snd handshakeRun))"
  by (simp_all add: handshakeRun_def applyRun_def ReconcileTopology_def topology_defs get_defs request_def perform_def run_simps
      Let_def isNotFound_def sampleTopology_def linkedTopology_def settled_def newCalls_def sampleLink_def sortedPair_def linkActions_def start_def)

theorem topology_handshake_witness:
  "endsWith (\<lambda>new. SubPhase (Status new) = SubPhaseLoadDelay)
    (newCalls start (snd (run (handleWaitingForTopology (linkWorld (snd (fst applyRun))) (sampleExperiment idleStatus)) start)))"
proof -
  let ?w = "run (handleWaitingForTopology (linkWorld (snd (fst applyRun))) (sampleExperiment idleStatus)) start"
  have r: "run (ReconcileTopology (linkWorld (linkedTopology True)) ''x'' ''t'') start = (fst handshakeRun, snd handshakeRun)"
    by (simp add: handshakeRun_def)
  have active: "Active (TopSpec (snd (fst applyRun)))"
    by (simp add: applyRun_def topology_defs get_defs request_def perform_def run_simps Let_def sampleTopology_def isNotFound_def
        sampleLink_def sortedPair_def linkActions_def observed_def linkedTopology_def)
  have "endsWith (\<lambda>new. if fst handshakeRun = Returned NoRequeue None
      then SubPhase (Status new) = SubPhaseLoadDelay \<and> Phase (Status new) = Phase (Status (sampleExperiment idleStatus))
      else failedWith (''topology '' @ nsSlashName (ExpNamespace (sampleExperiment idleStatus)) ''t'' @ '' reached Failed phase'') new)
    (newCalls start (snd ?w))"
    by (rule topology_handshake [OF r handshake_runs(2) active _ refl _ prod.collapse [symmetric]]) simp_all
  then show ?thesis by (auto simp: endsWith_def handshake_runs(1))
qed

text \<open>
  The waiting experiment looks at the phase alone. A phase that the topology reconciler reported for an earlier
  generation decides, too: here a failure from before the topology was activated ends the experiment, although the
  topology reconciler, run on the same object, activates it.
\<close>

definition staleTopology :: Topology where
  "staleTopology = (linkedTopology True)\<lparr>TopStatus := (TopStatus (linkedTopology True))\<lparr>TopPhase := TopologyPhaseFailed\<rparr>\<rparr>"

theorem stale_phase_decides:
  "\<not> settled staleTopology \<and> Active (TopSpec staleTopology) \<and>
   fst (run (ReconcileTopology (linkWorld staleTopology) ''x'' ''t'') start) = Returned NoRequeue None \<and>
   endsWith (\<lambda>new. Phase (Status new) = PhaseFailed)
    (newCalls start (snd (run (handleWaitingForTopology (linkWorld staleTopology) (sampleExperiment idleStatus)) start)))"
proof -
  have "endsWith (follows (sampleExperiment idleStatus) ''t'' (TopPhase (TopStatus staleTopology)))
    (newCalls start (snd (run (handleWaitingForTopology (linkWorld staleTopology) (sampleExperiment idleStatus)) start)))"
    by (rule waiting_follows [OF _ _ prod.collapse [symmetric]]) simp_all
  then have "endsWith (\<lambda>new. Phase (Status new) = PhaseFailed)
    (newCalls start (snd (run (handleWaitingForTopology (linkWorld staleTopology) (sampleExperiment idleStatus)) start)))"
    by (auto simp: staleTopology_def endsWith_def failedWith_def)
  then show ?thesis
    by (simp add: staleTopology_def ReconcileTopology_def topology_defs get_defs request_def perform_def run_simps Let_def
        isNotFound_def sampleTopology_def linkedTopology_def settled_def sampleLink_def sortedPair_def linkActions_def)
qed

end
