(* ===== verification/Cli_Text.thy ===== *)
theory Cli_Text
  imports Experiment_Base
begin

text \<open>
  The text side of the command-line tool under \<open>cmd/kubectl-ecoscape\<close>: what it uses of the standard library to
  turn values into output. Floats with a fixed number of decimals, durations, paths, records of
  \<open>encoding/csv\<close> and the tables of \<open>text/tabwriter\<close>. Strings are bytes, taken to be valid UTF-8.
\<close>

section \<open>Numbers and durations\<close>

text \<open>\<open>fmt.Sprintf("%.<n>f", x)\<close>: the exact value rounded to the nearest, ties to even.\<close>

definition zeroPad :: "nat \<Rightarrow> string \<Rightarrow> string" where
  "zeroPad n s = replicate (n - length s) (CHR ''0'') @ s"

fun formatFixed :: "nat \<Rightarrow> float64 \<Rightarrow> string" where
  "formatFixed n FNaN = ''NaN''"
| "formatFixed n (FInf s) = (if s then ''-Inf'' else ''+Inf'')"
| "formatFixed n (FFin s m) =
     (let scaled = nat (rne (m * 10 ^ n))
      in (if s then ''-'' else '''') @ natDigits (scaled div 10 ^ n) @
         (if n = 0 then '''' else ''.'' @ zeroPad n (natDigits (scaled mod 10 ^ n))))"

text \<open>\<open>Duration.Round(time.Second)\<close>: half a second away from zero, saturating.\<close>

definition roundToSecond :: "int \<Rightarrow> int" where
  "roundToSecond d =
     (let r = \<bar>d\<bar> mod nanosPerSecond;
          away = \<bar>d\<bar> + nanosPerSecond - r
      in if 2 * r < nanosPerSecond then sgn d * (\<bar>d\<bar> - r)
         else if d < 0 then max (- (2 ^ 63)) (- away) else min (2 ^ 63 - 1) away)"

text \<open>A value of \<open>prec\<close> decimal places without trailing zeros, as \<open>fmtFrac\<close> prints it.\<close>

definition trimmedFraction :: "nat \<Rightarrow> nat \<Rightarrow> string" where
  "trimmedFraction prec v =
     (let digits = trimRight (zeroPad prec (natDigits (v mod 10 ^ prec))) (CHR ''0'')
      in natDigits (v div 10 ^ prec) @ (if digits = '''' then '''' else ''.'' @ digits))"

text \<open>\<open>Duration.String\<close>, which \<open>%v\<close> prints.\<close>

definition durationString :: "int \<Rightarrow> string" where
  "durationString d =
     (let u = nat \<bar>d\<bar>; secs = u div 10 ^ 9; mins = secs div 60; hours = mins div 60
      in if u = 0 then ''0s''
         else (if d < 0 then ''-'' else '''') @
           (if u < 10 ^ 3 then trimmedFraction 0 u @ ''ns''
            else if u < 10 ^ 6 then trimmedFraction 3 u @ [CHR 0xC2, CHR 0xB5, CHR ''s'']
            else if u < 10 ^ 9 then trimmedFraction 6 u @ ''ms''
            else (if mins > 0 then (if hours > 0 then natDigits hours @ ''h'' else '''') @ natDigits (mins mod 60) @ ''m''
                  else '''') @ trimmedFraction 9 (u mod (60 * 10 ^ 9)) @ ''s''))"

section \<open>Paths\<close>

fun splitBy :: "(char \<Rightarrow> bool) \<Rightarrow> string \<Rightarrow> string list" where
  "splitBy sep [] = [[]]"
| "splitBy sep (c # cs) =
     (if sep c then [] # splitBy sep cs
      else (case splitBy sep cs of [] \<Rightarrow> [[c]] | x # xs \<Rightarrow> (c # x) # xs))"

text \<open>\<open>filepath.Clean\<close> on Unix: the elements that remain, last first.\<close>

fun cleanElements :: "bool \<Rightarrow> string list \<Rightarrow> string list \<Rightarrow> string list" where
  "cleanElements rooted acc [] = acc"
| "cleanElements rooted acc (e # es) =
     (if e = '''' \<or> e = ''.'' then cleanElements rooted acc es
      else if e = ''..''
      then (case acc of
              [] \<Rightarrow> cleanElements rooted (if rooted then [] else [''..'']) es
            | a # rest \<Rightarrow> cleanElements rooted (if a = ''..'' then ''..'' # acc else rest) es)
      else cleanElements rooted (e # acc) es)"

definition cleanPath :: "string \<Rightarrow> string" where
  "cleanPath p =
     (let rooted = (p \<noteq> '''' \<and> hd p = CHR ''/'');
          body = joinWith ''/'' (rev (cleanElements rooted [] (splitBy (\<lambda>c. c = CHR ''/'') p)))
      in if rooted then ''/'' @ body else if body = '''' then ''.'' else body)"

definition joinPath :: "string \<Rightarrow> string \<Rightarrow> string" where
  "joinPath a b = (case filter (\<lambda>e. e \<noteq> '''') [a, b] of [] \<Rightarrow> '''' | es \<Rightarrow> cleanPath (joinWith ''/'' es))"

definition basePath :: "string \<Rightarrow> string" where
  "basePath p =
     (if p = '''' then ''.''
      else let stripped = trimRight p (CHR ''/'')
           in if stripped = '''' then ''/'' else last (splitBy (\<lambda>c. c = CHR ''/'') stripped))"

section \<open>Tables\<close>

text \<open>\<open>utf8.RuneCount\<close> on valid UTF-8: the bytes that do not continue a character.\<close>

definition runeCount :: "string \<Rightarrow> nat" where
  "runeCount s = length (filter (\<lambda>c. (of_char c :: nat) div 64 \<noteq> 2) s)"

text \<open>
  \<open>tabwriter.NewWriter(w, 0, 0, 3, ' ', 0)\<close>. A column is a run of adjacent lines that have a tab-terminated
  cell there; it is as wide as its widest cell plus three. The cell after the last tab of a line is not padded.
\<close>

definition columnWidth :: "string list list \<Rightarrow> nat \<Rightarrow> nat \<Rightarrow> nat" where
  "columnWidth rows i j =
     (let wide = (\<lambda>cells. Suc j < length cells);
          column = takeWhile wide (rev (take i rows)) @ takeWhile wide (drop i rows)
      in foldr max (map (\<lambda>cells. runeCount (cells ! j)) column) 0 + 3)"

definition tabRow :: "string list list \<Rightarrow> nat \<Rightarrow> string" where
  "tabRow rows i =
     (let cells = rows ! i
      in concat (map (\<lambda>j. cells ! j @
           (if Suc j < length cells then replicate (columnWidth rows i j - runeCount (cells ! j)) (CHR '' '') else ''''))
         [0..<length cells]))"

definition tabLines :: "string \<Rightarrow> string" where
  "tabLines s =
     (let rows = map (splitBy (\<lambda>c. c = CHR 9 \<or> c = CHR 11)) (splitBy (\<lambda>c. c = CHR 10) s)
      in joinWith newline (map (tabRow rows) [0..<length rows]))"

definition tabText :: "string \<Rightarrow> string" where
  "tabText s = joinWith newline (map tabLines (splitBy (\<lambda>c. c = CHR 12) s))"

text \<open>One line for the table writer: cells separated by tabs.\<close>

definition tabbed :: "string list \<Rightarrow> string" where
  "tabbed cells = joinWith [CHR 9] cells @ newline"

section \<open>CSV records\<close>

text \<open>The first character is a Unicode space: \<open>unicode.IsSpace\<close> on its UTF-8 bytes.\<close>

definition startsWithSpace :: "string \<Rightarrow> bool" where
  "startsWithSpace s \<longleftrightarrow>
     (case map of_char s :: nat list of
        [] \<Rightarrow> False
      | a # rest \<Rightarrow> a \<in> {9, 10, 11, 12, 13, 32} \<or>
          (case rest of
             [] \<Rightarrow> False
           | b # rest \<Rightarrow> a = 0xC2 \<and> b \<in> {0x85, 0xA0} \<or>
               (case rest of
                  [] \<Rightarrow> False
                | c # _ \<Rightarrow> (a, b, c) \<in> {(0xE1, 0x9A, 0x80), (0xE2, 0x81, 0x9F), (0xE3, 0x80, 0x80)} \<or>
                    a = 0xE2 \<and> b = 0x80 \<and> (0x80 \<le> c \<and> c \<le> 0x8A \<or> c \<in> {0xA8, 0xA9, 0xAF}))))"

definition csvNeedsQuotes :: "string \<Rightarrow> bool" where
  "csvNeedsQuotes field \<longleftrightarrow> field \<noteq> '''' \<and>
     (field = [CHR 0x5C, CHR ''.''] \<or> list_ex (\<lambda>c. c \<in> {CHR 10, CHR 13, CHR 0x22, CHR '','' }) field \<or> startsWithSpace field)"

definition csvField :: "string \<Rightarrow> string" where
  "csvField field =
     (if \<not> csvNeedsQuotes field then field
      else CHR 0x22 # concat (map (\<lambda>c. if c = CHR 0x22 then [CHR 0x22, CHR 0x22] else [c]) field) @ [CHR 0x22])"

text \<open>\<open>Writer.Write\<close> of one record.\<close>

definition csvRecord :: "string list \<Rightarrow> string" where
  "csvRecord cells = joinWith '','' (map csvField cells) @ newline"

section \<open>Paths of directory entries\<close>

lemma splitBy_ne [simp]: "splitBy sep s \<noteq> []"
  by (induction s) (auto split: list.splits)

lemma splitBy_append_sep: "sep x \<Longrightarrow> splitBy sep (s @ x # t) = splitBy sep s @ splitBy sep t"
  by (induction s) (auto split: list.splits)

lemma splitBy_none: "\<forall>x \<in> set s. \<not> sep x \<Longrightarrow> splitBy sep s = [s]"
  by (induction s) auto

lemma cleanElements_snoc:
  assumes "name \<notin> {'''', ''.'', ''..''}"
  shows "cleanElements rooted acc (es @ [name]) = name # cleanElements rooted acc es"
  using assms by (induction es arbitrary: acc) (auto split: list.splits)

lemma joinWith_snoc: "joinWith sep (xs @ [x]) = (if xs = [] then x else joinWith sep xs @ sep @ x)"
  by (induction sep xs rule: joinWith.induct) auto

lemma trimRight_none: "s = [] \<or> last s \<noteq> x \<Longrightarrow> trimRight s x = s"
  by (cases s rule: rev_cases) (auto simp: trimRight_def)

text \<open>A plain file name.\<close>

definition plainName :: "string \<Rightarrow> bool" where
  "plainName name \<longleftrightarrow> CHR ''/'' \<notin> set name \<and> name \<notin> {'''', ''.'', ''..''}"

lemma basePath_ends:
  assumes "plainName name"
  shows "basePath (p @ CHR ''/'' # name) = name" "basePath name = name"
proof -
  have n: "name \<noteq> []" "CHR ''/'' \<notin> set name" using assms by (auto simp: plainName_def)
  then have l: "last name \<noteq> CHR ''/''" by (metis last_in_set)
  have s: "splitBy (\<lambda>c. c = CHR ''/'') name = [name]" using n by (intro splitBy_none) auto
  have "trimRight (p @ CHR ''/'' # name) (CHR ''/'') = p @ CHR ''/'' # name"
    using l n by (intro trimRight_none) simp
  then show "basePath (p @ CHR ''/'' # name) = name" by (simp add: basePath_def splitBy_append_sep s)
  show "basePath name = name" using l n by (simp add: basePath_def trimRight_none s)
qed

lemma basePath_joinPath:
  assumes "plainName name"
  shows "basePath (joinPath dir name) = name"
proof (cases "dir = ''''")
  case False
  let ?es = "splitBy (\<lambda>c. c = CHR ''/'') dir"
  define body where "body r = joinWith ''/'' (rev (cleanElements r [] (?es @ [name])))" for r
  have n: "name \<noteq> []" "name \<notin> {'''', ''.'', ''..''}" "CHR ''/'' \<notin> set name" using assms by (auto simp: plainName_def)
  have s: "splitBy (\<lambda>c. c = CHR ''/'') (dir @ CHR ''/'' # name) = ?es @ [name]"
    using n by (subst splitBy_append_sep) (auto intro: splitBy_none)
  have b: "body r = name \<or> (\<exists>q. body r = q @ CHR ''/'' # name)" for r
    by (simp add: body_def cleanElements_snoc [OF n(2)] joinWith_snoc)
  then have ne: "body r \<noteq> []" for r using n(1) by (metis append_is_Nil_conv list.distinct(1))
  have "joinPath dir name = cleanPath (dir @ CHR ''/'' # name)" using False n by (simp add: joinPath_def)
  then have "\<exists>r. joinPath dir name = ''/'' @ body r \<or> joinPath dir name = body r"
    using ne by (auto simp: cleanPath_def s Let_def body_def)
  with b have "joinPath dir name = name \<or> (\<exists>q. joinPath dir name = q @ CHR ''/'' # name)"
    by (metis append_Cons append_Nil)
  then show ?thesis using basePath_ends [OF assms] by auto
next
  case True
  have n: "name \<noteq> []" "name \<notin> {'''', ''.'', ''..''}" "CHR ''/'' \<notin> set name" using assms by (auto simp: plainName_def)
  have s: "splitBy (\<lambda>c. c = CHR ''/'') name = [name]" using n by (intro splitBy_none) auto
  have "hd name \<noteq> CHR ''/''" using n by (cases name) auto
  then have "joinPath dir name = name" using True n cleanElements_snoc [OF n(2), of False "[]" "[]"]
    by (simp add: joinPath_def cleanPath_def s)
  then show ?thesis using basePath_ends [OF assms] by simp
qed

lemma manifest_plain: "isManifestFile name \<Longrightarrow> CHR ''/'' \<notin> set name \<Longrightarrow> plainName name"
  by (auto simp: plainName_def isManifestFile_def fileExt_def)

section \<open>Reading CSV back\<close>

text \<open>
  A reader of CSV records, as RFC 4180 describes them: what a program that gets the exported files does. A field that
  starts with a quote goes on to the next quote that is not doubled, any other to the next comma or newline.
\<close>

fun quotedCell :: "string \<Rightarrow> (string \<times> string) option" where
  "quotedCell [] = None"
| "quotedCell (x # xs) =
     (if x \<noteq> CHR 0x22 then map_option (\<lambda>(cell, rest). (x # cell, rest)) (quotedCell xs)
      else (case xs of
              y # ys \<Rightarrow> if y = CHR 0x22 then map_option (\<lambda>(cell, rest). (x # cell, rest)) (quotedCell ys) else Some ([], xs)
            | [] \<Rightarrow> Some ([], [])))"

definition endsCell :: "char \<Rightarrow> bool" where
  "endsCell x \<longleftrightarrow> x = CHR '','' \<or> x = CHR 10"

definition readCell :: "string \<Rightarrow> (string \<times> string) option" where
  "readCell s = (case s of
     x # xs \<Rightarrow> if x = CHR 0x22 then quotedCell xs else Some (takeWhile (Not \<circ> endsCell) s, dropWhile (Not \<circ> endsCell) s)
   | [] \<Rightarrow> Some ([], []))"

lemma quotedCell_shorter: "quotedCell s = Some (cell, rest) \<Longrightarrow> length rest < length s"
  by (induction s arbitrary: cell rule: quotedCell.induct) (fastforce split: if_splits list.splits)+

lemma readCell_shorter: "readCell s = Some (cell, rest) \<Longrightarrow> length rest \<le> length s"
  using quotedCell_shorter [of "tl s" cell rest] length_dropWhile_le [of "Not \<circ> endsCell" "tl s"]
  by (auto simp: readCell_def split: list.splits if_splits)

function readRecord :: "string \<Rightarrow> (string list \<times> string) option" where
  "readRecord s = (case readCell s of
     None \<Rightarrow> None
   | Some (cell, []) \<Rightarrow> Some ([cell], [])
   | Some (cell, x # rest) \<Rightarrow>
       if x = CHR 10 then Some ([cell], rest)
       else if x = CHR '','' then map_option (\<lambda>(cells, rest'). (cell # cells, rest')) (readRecord rest)
       else None)"
  by pat_completeness auto
termination
  by (relation "measure length") (auto dest: readCell_shorter)

declare readRecord.simps [simp del]

lemma quotedCell_escaped:
  assumes "rest = [] \<or> hd rest \<noteq> CHR 0x22"
  shows "quotedCell (concat (map (\<lambda>c. if c = CHR 0x22 then [CHR 0x22, CHR 0x22] else [c]) cell) @ CHR 0x22 # rest) = Some (cell, rest)"
  using assms by (induction cell) (auto split: list.splits)

lemma readCell_csvField:
  assumes "endsCell x"
  shows "readCell (csvField cell @ x # rest) = Some (cell, x # rest)"
proof (cases "csvNeedsQuotes cell")
  case True
  let ?q = "concat (map (\<lambda>c. if c = CHR 0x22 then [CHR 0x22, CHR 0x22] else [c]) cell)"
  have "csvField cell @ x # rest = CHR 0x22 # (?q @ CHR 0x22 # x # rest)" using True by (simp only: csvField_def if_False not_True_eq_False append_Cons append_Nil append_assoc)
  then have "readCell (csvField cell @ x # rest) = quotedCell (?q @ CHR 0x22 # x # rest)"
    by (simp only: readCell_def list.case refl if_True)
  moreover have "x \<noteq> CHR 0x22" using assms by (auto simp: endsCell_def)
  ultimately show ?thesis using quotedCell_escaped [of "x # rest" cell] by (simp only: list.sel simp_thms)
next
  case False
  then have plain: "\<not> (\<exists>y \<in> set cell. y \<in> {CHR 10, CHR 13, CHR 0x22, CHR '',''})"
    unfolding csvNeedsQuotes_def list_ex_iff by (cases "cell = []") simp_all
  then have n: "\<forall>y \<in> set cell. \<not> endsCell y" unfolding endsCell_def by blast
  from plain have n': "cell = [] \<or> hd cell \<noteq> CHR 0x22" by (cases cell) simp_all
  have "takeWhile (Not \<circ> endsCell) (cell @ x # rest) = cell @ takeWhile (Not \<circ> endsCell) (x # rest)"
    "dropWhile (Not \<circ> endsCell) (cell @ x # rest) = dropWhile (Not \<circ> endsCell) (x # rest)"
    using n by (auto intro: takeWhile_append2 dropWhile_append2)
  with assms have t: "takeWhile (Not \<circ> endsCell) (cell @ x # rest) = cell" "dropWhile (Not \<circ> endsCell) (cell @ x # rest) = x # rest"
    by simp_all
  have q: "x \<noteq> CHR 0x22" using assms by (auto simp: endsCell_def)
  have "readCell (cell @ x # rest) = Some (takeWhile (Not \<circ> endsCell) (cell @ x # rest), dropWhile (Not \<circ> endsCell) (cell @ x # rest))"
    using n' q by (cases cell) (simp_all add: readCell_def)
  with t False show ?thesis by (simp add: csvField_def)
qed

text \<open>
  What the CSV export writes can be read back: a record of fields, whatever commas, quotes, line breaks or
  spaces they hold, is read as the same fields, up to the end of its line.
\<close>

lemma readRecord_csvRecord:
  assumes "cells \<noteq> []"
  shows "readRecord (csvRecord cells @ rest) = Some (cells, rest)"
  using assms unfolding csvRecord_def newline_def
proof (induction cells)
  case (Cons cell cells)
  show ?case
  proof (cases cells)
    case Nil
    then show ?thesis using readCell_csvField [of "CHR 10" cell rest]
      by (simp add: readRecord.simps [of "csvField cell @ _"] endsCell_def)
  next
    case (Cons cell' cells')
    then show ?thesis
      using Cons.IH readCell_csvField [of "CHR '',''" cell "joinWith '','' (map csvField cells) @ CHR 10 # rest"]
      by (simp add: readRecord.simps [of "csvField cell @ _"] endsCell_def)
  qed
qed simp

text \<open>All records of a file.\<close>

lemma readRecord_shorter: "readRecord s = Some (cells, rest) \<Longrightarrow> s \<noteq> [] \<Longrightarrow> length rest < length s"
proof (induction s arbitrary: cells rest rule: readRecord.induct)
  case (1 s)
  obtain cell r where r: "readCell s = Some (cell, r)" using 1(2) by (auto simp: readRecord.simps [of s] split: option.splits)
  note l = readCell_shorter [OF r]
  show ?case
  proof (cases r)
    case Nil
    then show ?thesis using 1(2,3) r by (simp add: readRecord.simps [of s])
  next
    case (Cons x xs)
    then have "rest = xs \<or> (\<exists>cells'. x \<noteq> CHR 10 \<and> x = CHR '','' \<and> readRecord xs = Some (cells', rest))"
      using 1(2) r by (auto simp: readRecord.simps [of s] split: if_splits)
    then show ?thesis
    proof
      assume "\<exists>cells'. x \<noteq> CHR 10 \<and> x = CHR '','' \<and> readRecord xs = Some (cells', rest)"
      then obtain cells' where c: "x \<noteq> CHR 10" "x = CHR '',''" "readRecord xs = Some (cells', rest)" by blast
      show ?thesis
      proof (cases "xs = []")
        case True
        then have "rest = []" using c(3) by (simp add: readRecord.simps [of "[]"] readCell_def)
        then show ?thesis using 1(3) by simp
      next
        case False
        have "length rest < length xs" by (rule 1(1) [OF r refl Cons c(1,2,3) False])
        then show ?thesis using l Cons by simp
      qed
    qed (use l Cons in simp)
  qed
qed

function readRecords :: "string \<Rightarrow> string list list option" where
  "readRecords s =
     (if s = [] then Some []
      else case readRecord s of
        None \<Rightarrow> None
      | Some (cells, rest) \<Rightarrow> map_option (Cons cells) (readRecords rest))"
  by pat_completeness auto
termination
  by (relation "measure length") (auto dest: readRecord_shorter)

declare readRecords.simps [simp del]

definition csvText :: "string list list \<Rightarrow> string" where
  "csvText records = concat (map csvRecord records)"

lemma csvRecord_not_Nil: "csvRecord cells \<noteq> []"
  by (simp add: csvRecord_def newline_def)

lemma readRecords_csvText: "list_all (\<lambda>cells. cells \<noteq> []) records \<Longrightarrow> readRecords (csvText records) = Some records"
proof (induction records)
  case (Cons cells records)
  then show ?case
    using readRecord_csvRecord [of cells "csvText records"] csvRecord_not_Nil [of cells]
    by (simp add: csvText_def readRecords.simps [of "csvRecord cells @ _"])
qed (simp add: csvText_def readRecords.simps)

section \<open>Aligned tables\<close>

text \<open>A cell without the characters that end a cell or a line.\<close>

definition plainCell :: "string \<Rightarrow> bool" where
  "plainCell s \<longleftrightarrow> list_all (\<lambda>x. x \<notin> {CHR 9, CHR 10, CHR 11, CHR 12}) s"

definition widest :: "string list list \<Rightarrow> nat \<Rightarrow> nat" where
  "widest rows j = foldr max (map (\<lambda>r. runeCount (r ! j)) rows) 0"

definition padTo :: "nat \<Rightarrow> string \<Rightarrow> string" where
  "padTo n s = s @ replicate (n - runeCount s) (CHR '' '')"

definition alignedRow :: "string list list \<Rightarrow> nat \<Rightarrow> string list \<Rightarrow> string" where
  "alignedRow rows n r = concat (map (\<lambda>j. padTo (widest rows j + 3) (r ! j)) [0..<n]) @ r ! n @ newline"

lemma splitBy_joinWith:
  assumes "list_all (\<lambda>cell. list_all (\<lambda>x. \<not> sep x) cell) cells" "cells \<noteq> []" "sep x"
  shows "splitBy sep (joinWith [x] cells) = cells"
  using assms(1,2)
proof (induction "[x]" cells rule: joinWith.induct)
  case (3 cell y ys)
  then show ?case using assms(3) splitBy_none [of cell sep]
    by (simp add: splitBy_append_sep list_all_iff)
qed (auto intro: splitBy_none simp: list_all_iff)

lemma splitBy_lines:
  assumes "list_all (\<lambda>l. list_all (\<lambda>x. \<not> sep x) l) ls" "sep x"
  shows "splitBy sep (concat (map (\<lambda>l. l @ [x]) ls)) = ls @ [[]]"
  using assms(1) splitBy_none [of _ sep]
  by (induction ls) (auto simp: splitBy_append_sep [of sep x, OF assms(2)] list_all_iff)

lemma foldr_max_set: "foldr max xs (0 :: nat) = Max (insert 0 (set xs))"
proof (induction xs)
  case (Cons x xs)
  have "Max (insert x (insert 0 (set xs))) = max x (Max (insert 0 (set xs)))" by (intro Max_insert) simp_all
  with Cons show ?case by (simp only: foldr.simps o_apply list.set insert_commute)
qed simp

lemma columnWidth_uniform:
  assumes "\<forall>r \<in> set rows. length r = Suc n" "i < length rows" "j < n"
  shows "columnWidth (rows @ [[[]]]) i j = widest rows j + 3"
proof -
  let ?w = "\<lambda>cells. Suc j < length cells"
  have "takeWhile ?w (rev (take i (rows @ [[[]]]))) = rev (take i rows)"
    using assms by (auto simp: takeWhile_eq_all_conv dest!: in_set_takeD)
  moreover have "takeWhile ?w (drop i (rows @ [[[]]])) = drop i rows"
    using assms by (auto simp: takeWhile_append takeWhile_eq_all_conv dest!: in_set_dropD)
  moreover have "set (rev (take i rows) @ drop i rows) = set rows"
    by (metis append_take_drop_id set_append set_rev)
  then have "foldr max (map g (rev (take i rows) @ drop i rows)) 0 = foldr max (map g rows) 0" for g :: "string list \<Rightarrow> nat"
    by (simp only: foldr_max_set set_map)
  ultimately show ?thesis by (simp add: columnWidth_def widest_def Let_def)
qed

lemma tabRow_uniform:
  assumes "\<forall>r \<in> set rows. length r = Suc n" "i < length rows"
  shows "tabRow (rows @ [[[]]]) i @ newline = alignedRow rows n (rows ! i)"
proof -
  have r: "(rows @ [[[]]]) ! i = rows ! i" "length (rows ! i) = Suc n" using assms by (simp_all add: nth_append)
  have w: "map (\<lambda>j. (rows ! i) ! j @ (if Suc j < Suc n then replicate (columnWidth (rows @ [[[]]]) i j - runeCount ((rows ! i) ! j)) (CHR '' '') else ''''))
      [0..<n] = map (\<lambda>j. padTo (widest rows j + 3) ((rows ! i) ! j)) [0..<n]"
    using columnWidth_uniform [OF assms] by (intro map_cong) (simp_all add: padTo_def)
  show ?thesis
    unfolding tabRow_def alignedRow_def Let_def r w [symmetric] by simp
qed

lemma joinWith_last_empty: "joinWith sep (xs @ [[]]) = concat (map (\<lambda>x. x @ sep) xs)"
proof (induction xs rule: rev_induct)
  case (snoc x xs)
  then show ?case using joinWith_snoc [of sep "xs @ [x]" "[]"] by (simp add: joinWith_snoc split: if_splits)
qed simp

text \<open>A table of rows of the same length comes out aligned.\<close>


lemma table_layout:
  assumes "list_all (\<lambda>r. length r = Suc n \<and> list_all plainCell r) rows"
  shows "tabText (concat (map tabbed rows)) = concat (map (alignedRow rows n) rows)"
proof -
  let ?ls = "map (joinWith [CHR 9]) rows"
  have in_join: "x \<in> set (joinWith sep cells) \<Longrightarrow> x \<in> set sep \<or> (\<exists>cell \<in> set cells. x \<in> set cell)" for x sep cells
    by (induction sep cells rule: joinWith.induct) auto
  have plain: "x \<notin> {CHR 10, CHR 11, CHR 12}" if "l \<in> set ?ls" "x \<in> set l" for l x
    using that assms by (auto simp: list_all_iff plainCell_def dest!: in_join)
  have t: "concat (map tabbed rows) = concat (map (\<lambda>l. l @ [CHR 10]) ?ls)"
    by (induction rows) (simp_all add: tabbed_def newline_def)
  have "splitBy (\<lambda>x. x = CHR 12) (concat (map tabbed rows)) = [concat (map tabbed rows)]"
  proof (intro splitBy_none ballI)
    fix x
    assume "x \<in> set (concat (map tabbed rows))"
    then consider l where "l \<in> set ?ls" "x \<in> set l" | "x = CHR 10"
      unfolding t by (auto split: if_splits)
    then show "x \<noteq> CHR 12" using plain by cases auto
  qed
  moreover have "splitBy (\<lambda>x. x = CHR 10) (concat (map tabbed rows)) = ?ls @ [[]]"
    unfolding t by (rule splitBy_lines) (use plain in \<open>auto simp: list_all_iff\<close>)
  moreover have "splitBy (\<lambda>x. x = CHR 9 \<or> x = CHR 11) (joinWith [CHR 9] r) = r" if "r \<in> set rows" for r
    using that assms by (intro splitBy_joinWith) (auto simp: list_all_iff plainCell_def)
  ultimately have "tabText (concat (map tabbed rows)) = tabLines (concat (map tabbed rows))"
    "map (splitBy (\<lambda>c. c = CHR 9 \<or> c = CHR 11)) (splitBy (\<lambda>c. c = CHR 10) (concat (map tabbed rows))) = rows @ [[[]]]"
    by (simp_all add: tabText_def comp_def map_idI)
  then have "tabText (concat (map tabbed rows)) = joinWith newline (map (tabRow (rows @ [[[]]])) [0..<Suc (length rows)])"
    by (simp add: tabLines_def Let_def)
  also have "tabRow (rows @ [[[]]]) (length rows) = []" by (simp add: tabRow_def nth_append)
  then have "joinWith newline (map (tabRow (rows @ [[[]]])) [0..<Suc (length rows)]) =
      concat (map (\<lambda>i. tabRow (rows @ [[[]]]) i @ newline) [0..<length rows])"
    using joinWith_last_empty by (simp add: comp_def)
  also have "\<dots> = concat (map (alignedRow rows n) (map ((!) rows) [0..<length rows]))"
    using tabRow_uniform [of rows n] assms by (auto simp: list_all_iff comp_def intro!: arg_cong [where f = concat])
  finally show ?thesis by (simp add: map_nth)
qed

end
