(* ===== verification/Api_Scheme.thy ===== *)
theory Api_Scheme
  imports Kube_Client
begin

text \<open>
  The API group and the registration of its kinds: \<open>groupversion_info.go\<close> and the \<open>init\<close> functions of the files
  of \<open>api/v1alpha1\<close>.
\<close>

record GroupVersion =
  Group :: string
  Version :: string

definition groupVersion :: GroupVersion where
  "groupVersion = \<lparr>Group = ''ecoscape.cau-se.de'', Version = ''v1alpha1''\<rparr>"

text \<open>How an \<open>apiVersion\<close> is written.\<close>

definition gvString :: "GroupVersion \<Rightarrow> string" where
  "gvString gv = (if Group gv = '''' then Version gv else Group gv @ ''/'' @ Version gv)"

text \<open>
  The \<open>Builder\<close> of controller-runtime, as far as it is used: it collects the types that \<open>AddToScheme\<close> makes known.
  A type is known by its name, which is its kind.
\<close>

record SchemeBuilder =
  SbGroupVersion :: GroupVersion
  SbTypes :: "string list"

definition register :: "string list \<Rightarrow> SchemeBuilder \<Rightarrow> SchemeBuilder" where
  "register types b = b\<lparr>SbTypes := SbTypes b @ types\<rparr>"

definition initChaosPhaseTypes :: "SchemeBuilder \<Rightarrow> SchemeBuilder" where
  "initChaosPhaseTypes = register [''ChaosPhase'', ''ChaosPhaseList'']"

definition initExperimentTypes :: "SchemeBuilder \<Rightarrow> SchemeBuilder" where
  "initExperimentTypes = register [''Experiment'', ''ExperimentList'']"

definition initTopologyTypes :: "SchemeBuilder \<Rightarrow> SchemeBuilder" where
  "initTopologyTypes = register [''Topology'', ''TopologyList'']"

text \<open>The package when it is initialised: its variables, then the \<open>init\<close> functions in the order of the files.\<close>

definition schemeBuilder :: SchemeBuilder where
  "schemeBuilder = (initTopologyTypes \<circ> initExperimentTypes \<circ> initChaosPhaseTypes) \<lparr>SbGroupVersion = groupVersion, SbTypes = []\<rparr>"

definition registeredKinds :: "string list" where
  "registeredKinds = SbTypes schemeBuilder"

lemmas scheme_defs = registeredKinds_def schemeBuilder_def initTopologyTypes_def initExperimentTypes_def
  initChaosPhaseTypes_def register_def

lemma registeredKinds_list:
  "registeredKinds = [''ChaosPhase'', ''ChaosPhaseList'', ''Experiment'', ''ExperimentList'', ''Topology'', ''TopologyList'']"
  by (simp add: scheme_defs)

text \<open>The version the requests of the development name is the one of the group, and their kinds are registered.\<close>

lemma apiVersion_of_group: "ecoscapeAPIVersion = gvString groupVersion"
  by (simp add: ecoscapeAPIVersion_def gvString_def groupVersion_def)

lemma kinds_registered:
  "kobjKey obj = ObjKey ecoscapeAPIVersion kind ns name \<Longrightarrow>
    (\<exists>e. obj = OExperiment e) \<or> (\<exists>t. obj = OTopology t) \<Longrightarrow> kind \<in> set registeredKinds"
  by (auto simp: registeredKinds_list)

end
