(* ===== verification/Cli_Base.thy ===== *)
theory Cli_Base
  imports Cli_Text Api_Scheme
begin

text \<open>
  The surroundings of the kubectl plugin, \<open>cmd/kubectl-ecoscape\<close>, and its \<open>client.go\<close>. Files, the clock, the random
  source, client-go and the YAML decoder are the record \<open>cli\<close> of functions over the state of the world. Reading a
  file or a directory leaves no call; printing, writing files and requests to the API server do.
\<close>

section \<open>The outside\<close>

record restConfig =
  Host :: string

text \<open>The kinds a \<open>client.Client\<close> was told about are its scheme.\<close>

record runtimeClient =
  RcConfig :: restConfig
  RcScheme :: "string list"

record 'w cli =
  cAbs :: "string \<Rightarrow> 'w \<Rightarrow> (goerr + string) \<times> 'w"
  cStatIsDir :: "string \<Rightarrow> 'w \<Rightarrow> (goerr + bool) \<times> 'w"
  cReadDir :: "string \<Rightarrow> 'w \<Rightarrow> (goerr + (string \<times> bool) list) \<times> 'w"
  cReadFile :: "string \<Rightarrow> 'w \<Rightarrow> (goerr + string) \<times> 'w"
  cWriteFile :: "string \<Rightarrow> string \<Rightarrow> 'w \<Rightarrow> goerr option \<times> 'w"
  cCreateFile :: "string \<Rightarrow> 'w \<Rightarrow> goerr option \<times> 'w"
  cFlushFile :: "string \<Rightarrow> string \<Rightarrow> 'w \<Rightarrow> goerr option \<times> 'w"
  cMkdirAll :: "string \<Rightarrow> 'w \<Rightarrow> goerr option \<times> 'w"
  cRandRead :: "'w \<Rightarrow> (goerr + nat list) \<times> 'w"
  cNow :: "'w \<Rightarrow> Time \<times> 'w"
  \<comment> \<open>client-go and controller-runtime\<close>
  cClientConfig :: "string \<Rightarrow> 'w \<Rightarrow> (goerr + restConfig) \<times> 'w"
  cBuildScheme :: "string list \<Rightarrow> 'w \<Rightarrow> goerr option \<times> 'w"
  cNewClient :: "runtimeClient \<Rightarrow> 'w \<Rightarrow> goerr option \<times> 'w"
  cNewForConfig :: "restConfig \<Rightarrow> 'w \<Rightarrow> goerr option \<times> 'w"
  cCreateTyped :: "restConfig \<Rightarrow> string \<Rightarrow> kobj \<Rightarrow> 'w \<Rightarrow> goerr option \<times> 'w"
  cCreate :: "runtimeClient \<Rightarrow> kobj \<Rightarrow> 'w \<Rightarrow> (goerr + kobj) \<times> 'w"
  cGetConfigMap :: "runtimeClient \<Rightarrow> string \<Rightarrow> string \<Rightarrow> 'w \<Rightarrow> (goerr + ConfigMap) \<times> 'w"
  cGetExperiment :: "runtimeClient \<Rightarrow> string \<Rightarrow> string \<Rightarrow> 'w \<Rightarrow> (goerr + Experiment) \<times> 'w"
  cListExperiments :: "runtimeClient \<Rightarrow> string \<Rightarrow> 'w \<Rightarrow> (goerr + Experiment list) \<times> 'w"
  \<comment> \<open>\<open>sigs.k8s.io/yaml\<close>: into a struct, and with \<open>&experiment.Object\<close>, the map inside an unstructured object, as the
    target: what the object is afterwards\<close>
  cYamlExperiment :: "string \<Rightarrow> goerr + Experiment"
  cYamlIntoMap :: "string \<Rightarrow> Unstructured \<Rightarrow> goerr + Unstructured"
  \<comment> \<open>the wording of the error of \<open>json.Unmarshal\<close>\<close>
  cJsonError :: "string \<Rightarrow> goerr"

section \<open>Primitives\<close>

definition say :: "string \<Rightarrow> ('w kst, unit) state" where
  "say s = do { _ \<leftarrow> act (Print s) (\<lambda>w. (None, w)); ret () }"

definition sayln :: "string \<Rightarrow> ('w kst, unit) state" where
  "sayln s = say (s @ newline)"

definition writeFile :: "'w cli \<Rightarrow> string \<Rightarrow> string \<Rightarrow> ('w kst, goerr option) state" where
  "writeFile c path content = act (WriteFile path content) (cWriteFile c path content)"

text \<open>
  \<open>os.Create\<close> empties the file, or makes it; what is then written through a buffer reaches it with \<open>Flush\<close>. Both
  are the call that gives the file its content.
\<close>

definition createFile :: "'w cli \<Rightarrow> string \<Rightarrow> ('w kst, goerr option) state" where
  "createFile c path = act (WriteFile path '''') (cCreateFile c path)"

definition flushFile :: "'w cli \<Rightarrow> string \<Rightarrow> string \<Rightarrow> ('w kst, goerr option) state" where
  "flushFile c path content = act (WriteFile path content) (cFlushFile c path content)"

definition mkdirAll :: "'w cli \<Rightarrow> string \<Rightarrow> ('w kst, goerr option) state" where
  "mkdirAll c path = act (MakeDir path) (cMkdirAll c path)"

text \<open>\<open>rand.Read(b)\<close> fills the whole slice with bytes.\<close>

definition randRead :: "'w cli \<Rightarrow> nat \<Rightarrow> ('w kst, goerr + nat list) state" where
  "randRead c n = do {
     r \<leftarrow> silent (cRandRead c);
     ret (map_sum id (\<lambda>bs. map (\<lambda>i. (if i < length bs then bs ! i else 0) mod 256) [0..<n]) r)
   }"

definition createTyped :: "'w cli \<Rightarrow> restConfig \<Rightarrow> string \<Rightarrow> ConfigMap \<Rightarrow> ('w kst, goerr option) state" where
  "createTyped c config ns cm = act (Create (OConfigMap cm)) (cCreateTyped c config ns (OConfigMap cm))"

definition createObject :: "'w cli \<Rightarrow> runtimeClient \<Rightarrow> kobj \<Rightarrow> ('w kst, goerr + kobj) state" where
  "createObject c client obj = request (Create obj) (cCreate c client obj)"

definition readConfigMapCli :: "'w cli \<Rightarrow> runtimeClient \<Rightarrow> string \<Rightarrow> string \<Rightarrow> ('w kst, goerr + ConfigMap) state" where
  "readConfigMapCli c client ns n = request (Get (cmKey ns n)) (cGetConfigMap c client ns n)"

definition readExperiment :: "'w cli \<Rightarrow> runtimeClient \<Rightarrow> string \<Rightarrow> string \<Rightarrow> ('w kst, goerr + Experiment) state" where
  "readExperiment c client ns n =
     request (Get (ObjKey ecoscapeAPIVersion ''Experiment'' ns n)) (cGetExperiment c client ns n)"

definition listExperiments :: "'w cli \<Rightarrow> runtimeClient \<Rightarrow> string \<Rightarrow> ('w kst, goerr + Experiment list) state" where
  "listExperiments c client ns = request (ListAll ''ExperimentList'' ns) (cListExperiments c client ns)"

lemmas cli_defs = say_def sayln_def writeFile_def createFile_def flushFile_def mkdirAll_def randRead_def createTyped_def createObject_def
  readConfigMapCli_def readExperiment_def listExperiments_def

section \<open>How a command ends\<close>

text \<open>It does not yet, it panics, or it returns an error or nil.\<close>

datatype ending = Waiting | Crashed | Ended "goerr option"

text \<open>\<open>xs[i]\<close> of a slice: outside its range, which is \<open>None\<close>, Go panics.\<close>

definition goIndex :: "'a list \<Rightarrow> int \<Rightarrow> 'a option" where
  "goIndex xs i = (if 0 \<le> i \<and> i < int (length xs) then Some (xs ! nat i) else None)"

section \<open>Clients\<close>

record k8sClients =
  RuntimeClient :: runtimeClient
  TypedClient :: restConfig
  ClientNamespace :: string

definition newClients :: "'w cli \<Rightarrow> restConfig \<Rightarrow> string \<Rightarrow> ('w kst, goerr + k8sClients) state" where
  "newClients c config ns = do {
     err \<leftarrow> silent (cBuildScheme c registeredKinds);
     case err of
       Some e \<Rightarrow> ret (Inl e)
     | None \<Rightarrow> do {
         let client = \<lparr>RcConfig = config, RcScheme = registeredKinds\<rparr>;
         err \<leftarrow> silent (cNewClient c client);
         case err of
           Some e \<Rightarrow> ret (Inl e)
         | None \<Rightarrow> do {
             err \<leftarrow> silent (cNewForConfig c config);
             ret (case err of
                    Some e \<Rightarrow> Inl e
                  | None \<Rightarrow> Inr \<lparr>RuntimeClient = client, TypedClient = config, ClientNamespace = ns\<rparr>)
           }
       }
   }"

definition buildConfig :: "'w cli \<Rightarrow> string \<Rightarrow> ('w kst, goerr + restConfig) state" where
  "buildConfig c kubeconfig = silent (cClientConfig c kubeconfig)"

definition getConfigAndClients ::
  "'w cli \<Rightarrow> string \<Rightarrow> string \<Rightarrow> ('w kst, goerr + restConfig \<times> k8sClients) state" where
  "getConfigAndClients c kubeconfig ns = do {
     r \<leftarrow> buildConfig c kubeconfig;
     case r of
       Inl e \<Rightarrow> ret (Inl (wrapf ''build kubeconfig'' e))
     | Inr config \<Rightarrow> do {
         r \<leftarrow> newClients c config ns;
         ret (case r of
                Inl e \<Rightarrow> Inl (wrapf ''create k8s clients'' e)
              | Inr clients \<Rightarrow> Inr (config, clients))
       }
   }"

end
