(* ===== verification/Cli_Commands.thy ===== *)
theory Cli_Commands
  imports Cli_Base
begin

text \<open>
  The commands \<open>bundle\<close>, \<open>init\<close>, \<open>list\<close>, \<open>run\<close> and \<open>completion\<close> of the kubectl plugin, one definition per
  \<open>run...\<close> function of \<open>cmd/kubectl-ecoscape\<close>. Cobra parses the flags into the option records; their defaults are
  the \<open>new...Options\<close> below.
\<close>

section \<open>bundle\<close>

record bundleOptions =
  BuName :: string
  BuNamespace :: string
  BuKubeconfig :: string

definition newBundleOptions :: bundleOptions where
  "newBundleOptions = \<lparr>BuName = '''', BuNamespace = ''default'', BuKubeconfig = ''''\<rparr>"

definition hexEncode :: "nat list \<Rightarrow> string" where
  "hexEncode bs = concat (map (\<lambda>b. [hexDigit (b div 16), hexDigit (b mod 16)]) bs)"

definition shortID :: "'w cli \<Rightarrow> ('w kst, goerr + string) state" where
  "shortID c = do { r \<leftarrow> randRead c 3; ret (map_sum id hexEncode r) }"

text \<open>The loop over the directory entries: names and whether they are directories.\<close>

fun collectManifests ::
  "'w cli \<Rightarrow> string \<Rightarrow> (string \<times> string) list \<Rightarrow> (string \<times> bool) list \<Rightarrow> ('w kst, goerr + (string \<times> string) list) state" where
  "collectManifests c dir data [] = ret (Inr data)"
| "collectManifests c dir data ((name, isDir) # entries) =
     (if isDir \<or> \<not> isManifestFile name then collectManifests c dir data entries
      else do {
        r \<leftarrow> silent (cReadFile c (joinPath dir name));
        case r of
          Inl e \<Rightarrow> ret (Inl (wrapf (''read '' @ name) e))
        | Inr content \<Rightarrow> collectManifests c dir (AList.update name content data) entries
      })"

definition bundleName :: "'w cli \<Rightarrow> string \<Rightarrow> bundleOptions \<Rightarrow> ('w kst, goerr + string) state" where
  "bundleName c absDir opts =
     (if BuName opts \<noteq> '''' then ret (Inr (BuName opts))
      else do {
        r \<leftarrow> shortID c;
        ret (map_sum (wrapf ''generate id'') (\<lambda>i. basePath absDir @ ''-'' @ i) r)
      })"

definition storeBundle ::
  "'w cli \<Rightarrow> bundleOptions \<Rightarrow> string \<Rightarrow> (string \<times> string) list \<Rightarrow> ('w kst, goerr option) state" where
  "storeBundle c opts name data = do {
     r \<leftarrow> buildConfig c (BuKubeconfig opts);
     case r of
       Inl e \<Rightarrow> ret (Some e)
     | Inr config \<Rightarrow> do {
         r \<leftarrow> newClients c config (BuNamespace opts);
         case r of
           Inl e \<Rightarrow> ret (Some e)
         | Inr clients \<Rightarrow> do {
             err \<leftarrow> createTyped c (TypedClient clients) (BuNamespace opts)
               \<lparr>CmNamespace = BuNamespace opts, CmName = name, CmData = data, CmCreationTimestamp = None\<rparr>;
             case err of
               Some e \<Rightarrow> ret (Some (wrapf ''create ConfigMap'' e))
             | None \<Rightarrow> do {
                 _ \<leftarrow> sayln (''Created ConfigMap '' @ BuNamespace opts @ ''/'' @ name);
                 ret None
               }
           }
       }
   }"

definition runBundle :: "'w cli \<Rightarrow> string \<Rightarrow> bundleOptions \<Rightarrow> ('w kst, goerr option) state" where
  "runBundle c dir opts = do {
     r \<leftarrow> silent (cAbs c dir);
     case r of
       Inl e \<Rightarrow> ret (Some (wrapf (''resolve path '' @ dir) e))
     | Inr absDir \<Rightarrow> do {
         r \<leftarrow> silent (cStatIsDir c absDir);
         case r of
           Inl e \<Rightarrow> ret (Some (wrapf (''stat '' @ absDir) e))
         | Inr isDir \<Rightarrow>
             if \<not> isDir then ret (Some (errorf (absDir @ '' is not a directory'')))
             else do {
               r \<leftarrow> silent (cReadDir c absDir);
               case r of
                 Inl e \<Rightarrow> ret (Some (wrapf (''read directory '' @ absDir) e))
               | Inr entries \<Rightarrow> do {
                   r \<leftarrow> collectManifests c absDir [] entries;
                   case r of
                     Inl e \<Rightarrow> ret (Some e)
                   | Inr data \<Rightarrow>
                       if data = [] then ret (Some (errorf (''no .yaml/.yml files found in '' @ absDir)))
                       else do {
                         r \<leftarrow> bundleName c absDir opts;
                         case r of
                           Inl e \<Rightarrow> ret (Some e)
                         | Inr name \<Rightarrow> storeBundle c opts name data
                       }
                 }
             }
       }
   }"

section \<open>init\<close>

record initOptions =
  InName :: string
  InSourceDir :: string
  InNamespace :: string
  InKubeconfig :: string
  InOutputFile :: string
  InDryRun :: bool

definition newInitOptions :: "string \<Rightarrow> initOptions" where
  "newInitOptions name = \<lparr>InName = name, InSourceDir = ''.'', InNamespace = ''default'', InKubeconfig = '''',
     InOutputFile = '''', InDryRun = False\<rparr>"

record manifestRole =
  DirName :: string
  RoleKey :: string

definition manifestRoles :: "manifestRole list" where
  "manifestRoles = map (\<lambda>r. \<lparr>DirName = r, RoleKey = r\<rparr>) [''sut'', ''load'', ''infra'', ''monitor'']"

record foundRole =
  FrRole :: manifestRole
  FrFiles :: "string list"

definition checkMark :: string where
  "checkMark = [CHR 0xE2, CHR 0x9C, CHR 0x93]"

definition manifestFiles :: "string \<Rightarrow> (string \<times> bool) list \<Rightarrow> string list" where
  "manifestFiles dirPath entries =
     map (\<lambda>(name, isDir). joinPath dirPath name) (filter (\<lambda>(name, isDir). \<not> isDir \<and> isManifestFile name) entries)"

fun scanRoles ::
  "'w cli \<Rightarrow> string \<Rightarrow> foundRole list \<Rightarrow> manifestRole list \<Rightarrow> ('w kst, goerr + foundRole list) state" where
  "scanRoles c sourceDir found [] = ret (Inr found)"
| "scanRoles c sourceDir found (role # roles) = do {
     let dirPath = joinPath sourceDir (DirName role);
     r \<leftarrow> silent (cReadDir c dirPath);
     case r of
       Inl e \<Rightarrow>
         if isNotExist e then scanRoles c sourceDir found roles
         else ret (Inl (wrapf (''read '' @ dirPath) e))
     | Inr entries \<Rightarrow> do {
         let files = manifestFiles dirPath entries;
         if files = [] then scanRoles c sourceDir found roles
         else do {
           _ \<leftarrow> sayln (''  '' @ checkMark @ '' '' @ DirName role @ ''/  ('' @ showInt (int (length files)) @ '' manifest(s))'');
           scanRoles c sourceDir (found @ [\<lparr>FrRole = role, FrFiles = files\<rparr>]) roles
         }
       }
   }"

fun readFiles ::
  "'w cli \<Rightarrow> (string \<times> string) list \<Rightarrow> string list \<Rightarrow> ('w kst, goerr + (string \<times> string) list) state" where
  "readFiles c data [] = ret (Inr data)"
| "readFiles c data (path # paths) = do {
     r \<leftarrow> silent (cReadFile c path);
     case r of
       Inl e \<Rightarrow> ret (Inl (wrapf (''read '' @ path) e))
     | Inr content \<Rightarrow> readFiles c (AList.update (basePath path) content data) paths
   }"

definition roleConfigMapName :: "initOptions \<Rightarrow> manifestRole \<Rightarrow> string" where
  "roleConfigMapName opts role = InName opts @ ''-'' @ RoleKey role"

text \<open>The body of the loop that creates one ConfigMap per role found.\<close>

definition storeRole :: "'w cli \<Rightarrow> initOptions \<Rightarrow> restConfig \<Rightarrow> string \<Rightarrow> (string \<times> string) list \<Rightarrow> ('w kst, goerr option) state" where
  "storeRole c opts config cmName data = do {
     err \<leftarrow> createTyped c config (InNamespace opts)
       \<lparr>CmNamespace = InNamespace opts, CmName = cmName, CmData = data, CmCreationTimestamp = None\<rparr>;
     case err of
       Some e \<Rightarrow> ret (Some (wrapf (''create ConfigMap '' @ cmName) e))
     | None \<Rightarrow> do {
         _ \<leftarrow> sayln (''  Created ConfigMap '' @ InNamespace opts @ ''/'' @ cmName);
         ret None
       }
   }"

definition createRoleConfigMap :: "'w cli \<Rightarrow> initOptions \<Rightarrow> foundRole \<Rightarrow> ('w kst, goerr option) state" where
  "createRoleConfigMap c opts fr = do {
     r \<leftarrow> buildConfig c (InKubeconfig opts);
     case r of
       Inl e \<Rightarrow> ret (Some e)
     | Inr config \<Rightarrow> do {
         err \<leftarrow> silent (cNewForConfig c config);
         case err of
           Some e \<Rightarrow> ret (Some e)
         | None \<Rightarrow> do {
             r \<leftarrow> readFiles c [] (FrFiles fr);
             case r of
               Inl e \<Rightarrow> ret (Some e)
             | Inr data \<Rightarrow> storeRole c opts config (roleConfigMapName opts (FrRole fr)) data
           }
       }
   }"

fun createConfigMaps ::
  "'w cli \<Rightarrow> initOptions \<Rightarrow> (string \<times> string) list \<Rightarrow> foundRole list \<Rightarrow> ('w kst, goerr + (string \<times> string) list) state" where
  "createConfigMaps c opts names [] = ret (Inr names)"
| "createConfigMaps c opts names (fr # found) = do {
     let cmName = roleConfigMapName opts (FrRole fr);
     let names' = AList.update (RoleKey (FrRole fr)) cmName names;
     if InDryRun opts \<or> InOutputFile opts \<noteq> '''' then do {
       _ \<leftarrow> sayln (''  Would create ConfigMap '' @ cmName @ '' from '' @ DirName (FrRole fr) @ ''/'');
       createConfigMaps c opts names' found
     }
     else do {
       err \<leftarrow> createRoleConfigMap c opts fr;
       case err of
         Some e \<Rightarrow> ret (Inl e)
       | None \<Rightarrow> createConfigMaps c opts names' found
     }
   }"

definition manifestEntries :: "(string \<times> string) list \<Rightarrow> string" where
  "manifestEntries configMapNames =
     concat (map (\<lambda>role. case map_of configMapNames (RoleKey role) of
        None \<Rightarrow> ''''
      | Some cmName \<Rightarrow> ''    '' @ RoleKey role @ '':'' @ newline @ ''      configMapRef:'' @ newline @
          ''        name: '' @ cmName @ newline) manifestRoles)"

definition generateExperimentYAML :: "initOptions \<Rightarrow> (string \<times> string) list \<Rightarrow> string" where
  "generateExperimentYAML opts configMapNames = concat (map (\<lambda>line. line @ newline)
     [''apiVersion: ecoscape.cau-se.de/v1alpha1'',
      ''kind: Experiment'',
      ''metadata:'',
      ''  name: '' @ InName opts,
      ''  namespace: '' @ InNamespace opts,
      ''spec:'',
      ''  executionMode: FullExperimentRun'',
      ''  duration:'',
      ''    loadDelay: 20'',
      ''    chaosDelay: 20'',
      ''    measurementDuration: 60'',
      ''    repetitions: 1'',
      ''    pauseBetweenRepetitions: 60'',
      ''  manifests:'',
      manifestEntries configMapNames,
      ''  # chaosPhaseRef:'',
      ''  #   name: my-chaos-phase   # reference a ChaosPhase CR (kubectl ecoscape bundle is not used for chaos)'',
      ''  prometheus:'',
      ''    url: http://prometheus-k8s.monitoring:9090'',
      ''  slos:'',
      ''    - name: example-slo'',
      ''      query: '' @ [CHR 0x22] @ ''vector(1)'' @ [CHR 0x22],
      ''      threshold: 1.0'',
      ''      thresholdDirection: LessThanOrEqual'',
      ''      isBiggerBetter: true'',
      ''      weight: 1.0''])"

text \<open>The object before the YAML is decoded into its map.\<close>

definition bareExperiment :: "initOptions \<Rightarrow> Unstructured" where
  "bareExperiment opts = \<lparr>UsAPIVersion = ecoscapeAPIVersion, UsKind = ''Experiment'', UsNamespace = InNamespace opts,
     UsName = InName opts, UsLabels = [], UsResourceVersion = '''', UsSpec = JObj []\<rparr>"

definition createExperiment :: "'w cli \<Rightarrow> initOptions \<Rightarrow> string \<Rightarrow> ('w kst, goerr option) state" where
  "createExperiment c opts experimentYAML = do {
     r \<leftarrow> getConfigAndClients c (InKubeconfig opts) (InNamespace opts);
     case r of
       Inl e \<Rightarrow> ret (Some e)
     | Inr (config, clients) \<Rightarrow>
         (case cYamlIntoMap c experimentYAML (bareExperiment opts) of
            Inl e \<Rightarrow> ret (Some (wrapf ''parse experiment3 yaml'' e))
          | Inr experiment \<Rightarrow> do {
              r \<leftarrow> createObject c (RuntimeClient clients) (OUnstructured experiment);
              case r of
                Inl e \<Rightarrow> ret (Some (wrapf ''create Experiment CR'' e))
              | Inr _ \<Rightarrow> do {
                  _ \<leftarrow> sayln (''Created Experiment '' @ InNamespace opts @ ''/'' @ InName opts);
                  ret None
                }
            })
   }"

definition runInit :: "'w cli \<Rightarrow> initOptions \<Rightarrow> ('w kst, goerr option) state" where
  "runInit c opts = do {
     _ \<leftarrow> sayln (''Scanning '' @ InSourceDir opts @ '' for manifest directories...'');
     r \<leftarrow> scanRoles c (InSourceDir opts) [] manifestRoles;
     case r of
       Inl e \<Rightarrow> ret (Some e)
     | Inr found \<Rightarrow>
         if found = []
         then ret (Some (errorf (''no manifest directories found in '' @ InSourceDir opts @
           '' (expected: sut/, load/, infra/, chaos/, monitor/)'')))
         else do {
           r \<leftarrow> createConfigMaps c opts [] found;
           case r of
             Inl e \<Rightarrow> ret (Some e)
           | Inr configMapNames \<Rightarrow> do {
               let experimentYAML = generateExperimentYAML opts configMapNames;
               if InOutputFile opts \<noteq> '''' then writeFile c (InOutputFile opts) experimentYAML
               else if InDryRun opts then do {
                 _ \<leftarrow> sayln (newline @ ''Experiment CR (dry-run):'');
                 _ \<leftarrow> sayln experimentYAML;
                 ret None
               }
               else createExperiment c opts experimentYAML
             }
         }
   }"

section \<open>list\<close>

record listOptions =
  LiKubeconfig :: string
  LiNamespace :: string
  LiAllSpaces :: bool

definition newListOptions :: listOptions where
  "newListOptions = \<lparr>LiKubeconfig = '''', LiNamespace = ''default'', LiAllSpaces = False\<rparr>"

definition listCells :: "bool \<Rightarrow> Time \<Rightarrow> Experiment \<Rightarrow> string list" where
  "listCells withNamespace t item =
     (let score = (case AggregateScore (Status item) of None \<Rightarrow> ''-'' | Some x \<Rightarrow> formatFixed 4 x);
          age = durationString (roundToSecond (timeSub t (ExpCreationTimestamp item)));
          i = (if ExperimentID (Status item) = '''' then ''-'' else ExperimentID (Status item))
      in (if withNamespace then [ExpNamespace item] else []) @ [ExpName item, i, phaseString (Phase (Status item)), score, age])"

definition listHeader :: "bool \<Rightarrow> string list" where
  "listHeader withNamespace = (if withNamespace then [''NAMESPACE''] else []) @ [''NAME'', ''ID'', ''PHASE'', ''SCORE'', ''AGE'']"

fun listRows :: "'w cli \<Rightarrow> bool \<Rightarrow> string \<Rightarrow> Experiment list \<Rightarrow> ('w kst, string) state" where
  "listRows c withNamespace sb [] = ret sb"
| "listRows c withNamespace sb (item # items) = do {
     t \<leftarrow> silent (cNow c);
     listRows c withNamespace (sb @ tabbed (listCells withNamespace t item)) items
   }"

definition runList :: "'w cli \<Rightarrow> listOptions \<Rightarrow> ('w kst, goerr option) state" where
  "runList c opts = do {
     r \<leftarrow> getConfigAndClients c (LiKubeconfig opts) (LiNamespace opts);
     case r of
       Inl e \<Rightarrow> ret (Some e)
     | Inr (config, clients) \<Rightarrow> do {
         r \<leftarrow> listExperiments c (RuntimeClient clients) (LiNamespace opts);
         case r of
           Inl e \<Rightarrow> ret (Some (wrapf ''list experiments'' e))
         | Inr items \<Rightarrow>
             if items = [] then do {
               _ \<leftarrow> sayln ''No experiments found.'';
               ret None
             }
             else do {
               let withNamespace = (LiAllSpaces opts \<or> LiNamespace opts = '''');
               table \<leftarrow> listRows c withNamespace (tabbed (listHeader withNamespace)) items;
               _ \<leftarrow> say (tabText table);
               ret None
             }
       }
   }"

section \<open>run\<close>

record runOptions =
  RuFilename :: string
  RuNamespace :: string
  RuKubeconfig :: string
  RuWait :: bool
  RuTimeout :: int

definition newRunOptions :: runOptions where
  "newRunOptions = \<lparr>RuFilename = '''', RuNamespace = ''default'', RuKubeconfig = '''', RuWait = False,
     RuTimeout = 30 * 60 * nanosPerSecond\<rparr>"

text \<open>What one \<open>select\<close> of the waiting loop receives: the deadline of the context, or a tick.\<close>

datatype select = Done | Tick

definition rightArrow :: string where
  "rightArrow = [CHR 0xE2, CHR 0x86, CHR 0x92]"

definition sinceRounded :: "'w cli \<Rightarrow> Time \<Rightarrow> ('w kst, string) state" where
  "sinceRounded c begin = do {
     t \<leftarrow> silent (cNow c);
     ret (durationString (roundToSecond (timeSub t begin)))
   }"

text \<open>The message of the last condition, if there is one; \<open>None\<close> is an index out of range.\<close>

definition lastMessage :: "ExperimentStatus \<Rightarrow> string option" where
  "lastMessage st =
     (if 0 < length (Conditions st)
      then map_option CondMessage (goIndex (Conditions st) (int (length (Conditions st)) - 1))
      else Some '''')"

definition reportSucceeded :: "'w cli \<Rightarrow> string \<Rightarrow> string \<Rightarrow> Time \<Rightarrow> ExperimentStatus \<Rightarrow> ('w kst, goerr option) state" where
  "reportSucceeded c ns name begin st = do {
     let score = (case AggregateScore st of None \<Rightarrow> ''N/A'' | Some x \<Rightarrow> formatFixed 4 x);
     _ \<leftarrow> sayln (newline @ [CHR 0xE2, CHR 0x9C, CHR 0x85] @ '' Experiment '' @ ns @ ''/'' @ name @ '' succeeded!'');
     _ \<leftarrow> sayln (''   Aggregate Score: '' @ score);
     d \<leftarrow> sinceRounded c begin;
     _ \<leftarrow> sayln (''   Duration: '' @ d);
     _ \<leftarrow> sayln (''   Results ConfigMap: ecoscape-'' @ ExperimentID st @ ''-results'');
     ret None
   }"

definition reportFailed :: "string \<Rightarrow> string \<Rightarrow> ExperimentStatus \<Rightarrow> ('w kst, ending) state" where
  "reportFailed ns name st =
     (case lastMessage st of
        None \<Rightarrow> ret Crashed
      | Some message \<Rightarrow> do {
          _ \<leftarrow> sayln (newline @ [CHR 0xE2, CHR 0x9D, CHR 0x8C] @ '' Experiment '' @ ns @ ''/'' @ name @ '' failed!'');
          _ \<leftarrow> (if message \<noteq> '''' then sayln (''   Reason: '' @ message) else ret ());
          ret (Ended (Some (errorf (''experiment3 failed: '' @ message))))
        })"

text \<open>
  The loop \<open>for { select { ... } }\<close>, on the list of what its selects receive. When the list is used up, the tool is
  still waiting.
\<close>

fun waitLoop ::
  "'w cli \<Rightarrow> runtimeClient \<Rightarrow> runOptions \<Rightarrow> string \<Rightarrow> string \<Rightarrow> Time \<Rightarrow> ExperimentPhase \<Rightarrow> select list
    \<Rightarrow> ('w kst, ending) state" where
  "waitLoop c client opts ns name begin lastPhase [] = ret Waiting"
| "waitLoop c client opts ns name begin lastPhase (Done # rest) =
     ret (Ended (Some (errorf (''timeout after '' @ durationString (RuTimeout opts)))))"
| "waitLoop c client opts ns name begin lastPhase (Tick # rest) = do {
     r \<leftarrow> readExperiment c client ns name;
     case r of
       Inl e \<Rightarrow> ret (Ended (Some (wrapf ''get experiment3'' e)))
     | Inr current \<Rightarrow> do {
         let phase = Phase (Status current);
         _ \<leftarrow> (if phase \<noteq> lastPhase then do {
                 d \<leftarrow> sinceRounded c begin;
                 sayln (''  '' @ phaseString lastPhase @ '' '' @ rightArrow @ '' '' @ phaseString phase @ '' (after '' @ d @ '')'')
               }
               else ret ());
         if phase = PhaseSucceeded then do { err \<leftarrow> reportSucceeded c ns name begin (Status current); ret (Ended err) }
         else if phase = PhaseFailed then reportFailed ns name (Status current)
         else waitLoop c client opts ns name begin phase rest
       }
   }"

definition runRun :: "'w cli \<Rightarrow> runOptions \<Rightarrow> select list \<Rightarrow> ('w kst, ending) state" where
  "runRun c opts selects = do {
     r \<leftarrow> silent (cReadFile c (RuFilename opts));
     case r of
       Inl e \<Rightarrow> ret (Ended (Some (wrapf (''read '' @ RuFilename opts) e)))
     | Inr raw \<Rightarrow>
         (case cYamlExperiment c raw of
            Inl e \<Rightarrow> ret (Ended (Some (wrapf (''parse '' @ RuFilename opts) e)))
          | Inr parsed \<Rightarrow> do {
              let experiment = (if RuNamespace opts \<noteq> ''default'' then parsed\<lparr>ExpNamespace := RuNamespace opts\<rparr> else parsed);
              let ns = ExpNamespace experiment;
              let name = ExpName experiment;
              r \<leftarrow> getConfigAndClients c (RuKubeconfig opts) (RuNamespace opts);
              case r of
                Inl e \<Rightarrow> ret (Ended (Some e))
              | Inr (config, clients) \<Rightarrow> do {
                  r \<leftarrow> readExperiment c (RuntimeClient clients) ns name;
                  case r of
                    Inr existing \<Rightarrow> ret (Ended (Some (errorf (''experiment3 '' @ ns @ ''/'' @ name @
                      '' already exists (phase: '' @ phaseString (Phase (Status existing)) @ '')''))))
                  | Inl _ \<Rightarrow> do {
                      r \<leftarrow> createObject c (RuntimeClient clients) (OExperiment experiment);
                      case r of
                        Inl e \<Rightarrow> ret (Ended (Some (wrapf ''create experiment3'' e)))
                      | Inr created \<Rightarrow> do {
                          let i = (case created of OExperiment e \<Rightarrow> ExperimentID (Status e) | _ \<Rightarrow> ExperimentID (Status experiment));
                          _ \<leftarrow> sayln (''Created experiment3 '' @ ns @ ''/'' @ name @ '' (id: '' @ i @ '')'');
                          if \<not> RuWait opts then ret (Ended None)
                          else do {
                            _ \<leftarrow> sayln ''Waiting for experiment3 to complete...'';
                            begin \<leftarrow> silent (cNow c);
                            waitLoop c (RuntimeClient clients) opts ns name begin PhaseEmpty selects
                          }
                        }
                    }
                }
            })
   }"

definition runCommand :: "'w cli \<Rightarrow> runOptions \<Rightarrow> string list \<Rightarrow> select list \<Rightarrow> ('w kst, ending) state" where
  "runCommand c opts args selects =
     (case (if RuFilename opts = '''' \<and> 0 < length args
            then map_option (\<lambda>arg. opts\<lparr>RuFilename := arg\<rparr>) (goIndex args 0) else Some opts) of
        None \<Rightarrow> ret Crashed
      | Some opts' \<Rightarrow>
          if RuFilename opts' = '''' then ret (Ended (Some (errorf ''specify experiment3 file with -f <file>'')))
          else runRun c opts' selects)"

end
