(* ===== verification/Cli_Spec.thy ===== *)
theory Cli_Spec
  imports Cli_Commands
begin

text \<open>
  The properties of the commands of the kubectl plugin. Where a property speaks of the content of files, the file
  system is assumed not to change while the command runs (\<open>staticFiles\<close>).
\<close>

section \<open>A file system that does not change\<close>

record files =
  FsAbs :: "string \<Rightarrow> goerr + string"
  FsDirs :: "string \<Rightarrow> goerr + (string \<times> bool) list"
  FsContent :: "string \<Rightarrow> goerr + string"

definition staticFiles :: "'w cli \<Rightarrow> files \<Rightarrow> bool" where
  "staticFiles c fs \<longleftrightarrow> (\<forall>p w. cAbs c p w = (FsAbs fs p, w) \<and> cReadDir c p w = (FsDirs fs p, w) \<and>
     cReadFile c p w = (FsContent fs p, w))"

lemma run_silent_static: "(\<And>w. f w = (x, w)) \<Longrightarrow> run (silent f) s = (x, s)"
  by (simp add: silent_def)

lemma static_runs [run_simps]:
  assumes "staticFiles c fs"
  shows "run (silent (cAbs c p)) s = (FsAbs fs p, s)" "run (silent (cReadDir c p)) s = (FsDirs fs p, s)"
    "run (silent (cReadFile c p)) s = (FsContent fs p, s)"
  using assms by (simp_all add: staticFiles_def run_silent_static)

text \<open>The regular manifest files of a directory listing, and their contents.\<close>

definition manifestNames :: "(string \<times> bool) list \<Rightarrow> string list" where
  "manifestNames entries = map fst (filter (\<lambda>(name, isDir). \<not> isDir \<and> isManifestFile name) entries)"

definition contentOf :: "files \<Rightarrow> string \<Rightarrow> string" where
  "contentOf fs path = (case FsContent fs path of Inr s \<Rightarrow> s | Inl _ \<Rightarrow> '''')"

lemma update_fresh: "k \<notin> fst ` set al \<Longrightarrow> AList.update k v al = al @ [(k, v)]"
  by (induction al) auto

lemma collect_static:
  assumes "staticFiles c fs" "distinct (map fst entries)" "fst ` set data \<inter> fst ` set entries = {}"
    "run (collectManifests c dir data entries) s = (Inr d, s')"
  shows "s' = s \<and> d = data @ map (\<lambda>n. (n, contentOf fs (joinPath dir n))) (manifestNames entries) \<and>
    (\<forall>n \<in> set (manifestNames entries). isInr (FsContent fs (joinPath dir n)))"
  using assms(2-4)
proof (induction entries arbitrary: data)
  case (Cons p entries)
  obtain n b where p: "p = (n, b)" by fastforce
  show ?case
  proof (cases "b \<or> \<not> isManifestFile n")
    case False
    with Cons.prems p assms(1) obtain content where c: "FsContent fs (joinPath dir n) = Inr content"
      and r: "run (collectManifests c dir (AList.update n content data) entries) s = (Inr d, s')"
      by (cases "FsContent fs (joinPath dir n)") (auto simp: run_simps)
    have u: "AList.update n content data = data @ [(n, content)]"
      using Cons.prems(2) p by (intro update_fresh) auto
    from Cons.IH [OF _ _ r] Cons.prems(1,2) p False u c show ?thesis
      by (force simp: manifestNames_def contentOf_def)
  qed (use Cons p in \<open>auto simp: manifestNames_def\<close>)
qed (simp add: manifestNames_def)

section \<open>What the pieces do\<close>

lemma run_sayln:
  assumes "run (sayln m) s = (u, s1)"
  shows "extends s s1" "newCalls s s1 = [(Print (m @ newline), True)]"
  using assms by (auto simp: sayln_def say_def act_def run_simps extends_def newCalls_def)

lemma does_say [does_rules]: "Q [(Print s, True)] () \<Longrightarrow> does (say s) Q"
  unfolding does_def say_def act_def by (auto simp: run_simps extends_def newCalls_def)

lemma does_sayln [does_rules]: "Q [(Print (s @ newline), True)] () \<Longrightarrow> does (sayln s) Q"
  unfolding sayln_def by (rule does_say)

lemma emits_say [trace_intro]: "(\<And>b. P (Print s, b)) \<Longrightarrow> emits P (say s)"
  unfolding say_def by (intro trace_intro emits_act)

lemma emits_sayln [trace_intro]: "(\<And>b. P (Print (s @ newline), b)) \<Longrightarrow> emits P (sayln s)"
  unfolding sayln_def by (rule emits_say)

lemma newClients_does:
  "does (newClients c config ns) (\<lambda>cs r. cs = [] \<and> (\<forall>clients. r = Inr clients \<longrightarrow>
     clients = \<lparr>RuntimeClient = \<lparr>RcConfig = config, RcScheme = registeredKinds\<rparr>, TypedClient = config, ClientNamespace = ns\<rparr>))"
  unfolding newClients_def Let_def by (intro does_rules) (auto split: option.splits)

lemma getConfigAndClients_does:
  "does (getConfigAndClients c kubeconfig ns) (\<lambda>cs r. cs = [] \<and> (\<forall>config clients. r = Inr (config, clients) \<longrightarrow>
     RcScheme (RuntimeClient clients) = registeredKinds \<and> RcConfig (RuntimeClient clients) = config))"
  unfolding getConfigAndClients_def buildConfig_def
  by (intro does_rules does_mono [OF newClients_does]) (auto split: sum.splits)

lemma storeBundle_does:
  "does (storeBundle c opts name data) (\<lambda>cs r. r = None \<longrightarrow>
     cs = [(Create (OConfigMap \<lparr>CmNamespace = BuNamespace opts, CmName = name, CmData = data, CmCreationTimestamp = None\<rparr>), True),
           (Print (''Created ConfigMap '' @ BuNamespace opts @ ''/'' @ name @ newline), True)])"
  unfolding storeBundle_def buildConfig_def createTyped_def
  by (intro does_rules does_mono [OF newClients_does]) auto

text \<open>The name of a bundle that none was given for ends in six hexadecimal digits.\<close>

definition isHex :: "char \<Rightarrow> bool" where
  "isHex x \<longleftrightarrow> x \<in> set ''0123456789abcdef''"

lemma hexDigit_isHex: "n < 16 \<Longrightarrow> isHex (hexDigit n)"
proof -
  have "list_all (\<lambda>n. isHex (hexDigit n)) [0..<16]" by code_simp
  then show "n < 16 \<Longrightarrow> isHex (hexDigit n)" by (auto simp: list_all_iff)
qed

lemma hexEncode_wf: "\<forall>b \<in> set bs. b < 256 \<Longrightarrow> length (hexEncode bs) = 2 * length bs \<and> list_all isHex (hexEncode bs)"
  by (induction bs) (auto simp: hexEncode_def intro: hexDigit_isHex)

lemma shortID_does:
  "does (shortID c) (\<lambda>cs r. cs = [] \<and> (\<forall>i. r = Inr i \<longrightarrow> length i = 6 \<and> list_all isHex i))"
  unfolding shortID_def randRead_def
proof (intro does_rules, simp, intro allI impI)
  fix r :: "goerr + nat list" and i
  let ?f = "\<lambda>bs. map (\<lambda>i. (if i < length bs then bs ! i else 0) mod 256) [0..<3]"
  assume "map_sum id hexEncode (map_sum id ?f r) = Inr i"
  then obtain bs where "i = hexEncode (?f bs)" by (cases r) auto
  then show "length i = 6 \<and> list_all isHex i" using hexEncode_wf [of "?f bs"] by auto
qed

lemma bundleName_does:
  "does (bundleName c absDir opts) (\<lambda>cs r. cs = [] \<and> (\<forall>name. r = Inr name \<longrightarrow>
     (if BuName opts \<noteq> '''' then name = BuName opts
      else \<exists>i. name = basePath absDir @ ''-'' @ i \<and> length i = 6 \<and> list_all isHex i)))"
  unfolding bundleName_def
  by (intro does_rules does_mono [OF shortID_does]) (auto simp: map_sum_def split: sum.splits)

section \<open>What init creates\<close>

text \<open>The creations among the calls, and the manifest roles that have files.\<close>

definition creations :: "(call \<times> bool) list \<Rightarrow> (call \<times> bool) list" where
  "creations = filter (\<lambda>(c, b). case c of Create _ \<Rightarrow> True | _ \<Rightarrow> False)"

lemma creations_simps [simp]:
  "creations [] = []" "creations ((Create obj, b) # cs) = (Create obj, b) # creations cs"
  "creations ((Print m, b) # cs) = creations cs" "creations (cs @ ds) = creations cs @ creations ds"
  by (simp_all add: creations_def)

lemma creations_Nil: "creations cs = [] \<longleftrightarrow> (\<forall>obj b. (Create obj, b) \<notin> set cs)"
  by (fastforce simp: creations_def filter_empty_conv split: call.splits)

definition roleDir :: "initOptions \<Rightarrow> manifestRole \<Rightarrow> string" where
  "roleDir opts role = joinPath (InSourceDir opts) (DirName role)"

definition roleNames :: "files \<Rightarrow> initOptions \<Rightarrow> manifestRole \<Rightarrow> string list" where
  "roleNames fs opts role = (case FsDirs fs (roleDir opts role) of Inl _ \<Rightarrow> [] | Inr entries \<Rightarrow> manifestNames entries)"

definition rolesWithFiles :: "files \<Rightarrow> initOptions \<Rightarrow> manifestRole list" where
  "rolesWithFiles fs opts = filter (\<lambda>role. roleNames fs opts role \<noteq> [])
     (map (\<lambda>r. \<lparr>DirName = r, RoleKey = r\<rparr>) [''sut'', ''load'', ''infra'', ''monitor''])"

lemma rolesWithFiles_code: "rolesWithFiles fs opts = filter (\<lambda>role. roleNames fs opts role \<noteq> []) manifestRoles"
  by (simp add: rolesWithFiles_def manifestRoles_def)

definition foundRoleOf :: "files \<Rightarrow> initOptions \<Rightarrow> manifestRole \<Rightarrow> foundRole" where
  "foundRoleOf fs opts role = \<lparr>FrRole = role, FrFiles = map (joinPath (roleDir opts role)) (roleNames fs opts role)\<rparr>"

definition roleConfigMap :: "files \<Rightarrow> initOptions \<Rightarrow> manifestRole \<Rightarrow> ConfigMap" where
  "roleConfigMap fs opts role = \<lparr>CmNamespace = InNamespace opts, CmName = InName opts @ ''-'' @ RoleKey role,
     CmData = map (\<lambda>n. (n, contentOf fs (joinPath (roleDir opts role) n))) (roleNames fs opts role), CmCreationTimestamp = None\<rparr>"

lemma FrRole_of: "FrRole (foundRoleOf fs opts role) = role"
  by (simp add: foundRoleOf_def)

lemma manifestFiles_names: "manifestFiles p entries = map (joinPath p) (manifestNames entries)"
  by (simp add: manifestFiles_def manifestNames_def case_prod_unfold comp_def)

lemma scan_step:
  assumes "staticFiles c fs"
  shows "\<exists>m e'. run (scanRoles c (InSourceDir opts) found (role # roles)) s =
    (case FsDirs fs (roleDir opts role) of
       Inl e \<Rightarrow> if isNotExist e then run (scanRoles c (InSourceDir opts) found roles) s else (Inl e', s)
     | Inr entries \<Rightarrow> if manifestNames entries = [] then run (scanRoles c (InSourceDir opts) found roles) s
         else run (do { _ \<leftarrow> sayln m; scanRoles c (InSourceDir opts) (found @ [foundRoleOf fs opts role]) roles }) s)"
  by (cases "FsDirs fs (roleDir opts role)")
    (auto simp: static_runs [OF assms] run_simps roleDir_def Let_def manifestFiles_names foundRoleOf_def roleNames_def)

lemma scan_static:
  assumes "staticFiles c fs" "run (scanRoles c (InSourceDir opts) found roles) s = (Inr r, s')"
  shows "extends s s' \<and> creations (newCalls s s') = [] \<and>
    r = found @ map (foundRoleOf fs opts) (filter (\<lambda>role. roleNames fs opts role \<noteq> []) roles)"
  using assms(2)
proof (induction roles arbitrary: found s)
  case (Cons role roles)
  obtain m e' where step: "run (scanRoles c (InSourceDir opts) found (role # roles)) s =
    (case FsDirs fs (roleDir opts role) of
       Inl e \<Rightarrow> if isNotExist e then run (scanRoles c (InSourceDir opts) found roles) s else (Inl e', s)
     | Inr entries \<Rightarrow> if manifestNames entries = [] then run (scanRoles c (InSourceDir opts) found roles) s
         else run (do { _ \<leftarrow> sayln m; scanRoles c (InSourceDir opts) (found @ [foundRoleOf fs opts role]) roles }) s)"
    using scan_step [OF assms(1)] by blast
  show ?case
  proof (cases "roleNames fs opts role = []")
    case True
    with step Cons.prems have "run (scanRoles c (InSourceDir opts) found roles) s = (Inr r, s')"
      by (simp add: roleNames_def split: sum.splits if_splits)
    from Cons.IH [OF this] True show ?thesis by simp
  next
    case False
    with step Cons.prems have "run (do { _ \<leftarrow> sayln m; scanRoles c (InSourceDir opts) (found @ [foundRoleOf fs opts role]) roles }) s = (Inr r, s')"
      by (simp add: roleNames_def split: sum.splits if_splits)
    then obtain u s1 where 1: "run (sayln m) s = (u, s1)"
      and 2: "run (scanRoles c (InSourceDir opts) (found @ [foundRoleOf fs opts role]) roles) s1 = (Inr r, s')" by (rule run_bindE)
    with Cons.IH [OF 2] False extends_trans [OF run_sayln(1) [OF 1]] newCalls_trans [OF run_sayln(1) [OF 1]] run_sayln(2) [OF 1]
    show ?thesis by simp
  qed
qed (simp add: newCalls_def)

lemma readFiles_static:
  assumes "staticFiles c fs" "\<forall>n \<in> set names. plainName n" "distinct names" "fst ` set data \<inter> set names = {}"
    "run (readFiles c data (map (joinPath dir) names)) s = (Inr d, s')"
  shows "s' = s \<and> d = data @ map (\<lambda>n. (n, contentOf fs (joinPath dir n))) names"
  using assms(2-5)
proof (induction names arbitrary: data)
  case (Cons n names)
  then obtain content where f: "FsContent fs (joinPath dir n) = Inr content"
    and r: "run (readFiles c (AList.update n content data) (map (joinPath dir) names)) s = (Inr d, s')"
    using basePath_joinPath [of n dir]
    by (cases "FsContent fs (joinPath dir n)") (auto simp: run_simps static_runs [OF assms(1)])
  have u: "AList.update n content data = data @ [(n, content)]"
    using Cons.prems(3) by (intro update_fresh) auto
  from Cons.IH [OF _ _ _ r] Cons.prems(1-3) f u show ?case by (auto simp: contentOf_def)
qed simp

text \<open>Directory listings have distinct names, and a name has no slash.\<close>

definition properListings :: "files \<Rightarrow> bool" where
  "properListings fs \<longleftrightarrow> (\<forall>p entries. FsDirs fs p = Inr entries \<longrightarrow>
     distinct (map fst entries) \<and> (\<forall>(n, b) \<in> set entries. CHR ''/'' \<notin> set n))"

lemma roleNames_plain:
  assumes "properListings fs"
  shows "distinct (roleNames fs opts role)" "\<forall>n \<in> set (roleNames fs opts role). plainName n"
proof -
  show "distinct (roleNames fs opts role)"
    using assms unfolding properListings_def roleNames_def manifestNames_def
    by (cases "FsDirs fs (roleDir opts role)") (auto intro: distinct_map_filter)
  show "\<forall>n \<in> set (roleNames fs opts role). plainName n"
  proof
    fix n
    assume "n \<in> set (roleNames fs opts role)"
    then obtain entries where "FsDirs fs (roleDir opts role) = Inr entries" "(n, False) \<in> set entries" "isManifestFile n"
      by (cases "FsDirs fs (roleDir opts role)") (auto simp: roleNames_def manifestNames_def)
    with assms show "plainName n" by (fastforce simp: properListings_def intro: manifest_plain)
  qed
qed

lemma storeRole_does:
  "does (storeRole c opts config name data) (\<lambda>cs r. r = None \<longrightarrow> creations cs = [(Create (OConfigMap
     \<lparr>CmNamespace = InNamespace opts, CmName = name, CmData = data, CmCreationTimestamp = None\<rparr>), True)])"
  unfolding storeRole_def createTyped_def by (intro does_rules) simp_all

lemma createRole_static:
  assumes "staticFiles c fs" "properListings fs" "run (createRoleConfigMap c opts (foundRoleOf fs opts role)) s = (None, s')"
  shows "extends s s' \<and> creations (newCalls s s') = [(Create (OConfigMap (roleConfigMap fs opts role)), True)]"
proof -
  obtain config s1 s2 data s3 where c: "run (silent (cClientConfig c (InKubeconfig opts))) s = (Inr config, s1)"
    "run (silent (cNewForConfig c config)) s1 = (None, s2)"
    and d: "run (readFiles c [] (map (joinPath (roleDir opts role)) (roleNames fs opts role))) s2 = (Inr data, s3)"
    and st: "run (storeRole c opts config (roleConfigMapName opts role) data) s3 = (None, s')"
    using assms(3) unfolding createRoleConfigMap_def buildConfig_def foundRoleOf_def
    by (auto elim!: run_bindE split: sum.splits option.splits)
  have "calls s2 = calls s" using c by (auto elim!: run_silentE)
  moreover have "s3 = s2" "data = map (\<lambda>n. (n, contentOf fs (joinPath (roleDir opts role) n))) (roleNames fs opts role)"
    using readFiles_static [OF assms(1) roleNames_plain(2,1) [OF assms(2)] _ d] by simp_all
  ultimately show ?thesis
    using doesD [OF storeRole_does st] by (simp add: extends_def newCalls_def roleConfigMap_def roleConfigMapName_def)
qed

lemma createConfigMaps_static:
  assumes "staticFiles c fs" "properListings fs" "\<not> InDryRun opts" "InOutputFile opts = ''''"
    "distinct (map RoleKey roles)" "fst ` set names \<inter> set (map RoleKey roles) = {}"
    "run (createConfigMaps c opts names (map (foundRoleOf fs opts) roles)) s = (Inr names', s')"
  shows "extends s s' \<and> creations (newCalls s s') = map (\<lambda>role. (Create (OConfigMap (roleConfigMap fs opts role)), True)) roles \<and>
    names' = names @ map (\<lambda>role. (RoleKey role, roleConfigMapName opts role)) roles"
  using assms(5-7)
proof (induction roles arbitrary: names s)
  case (Cons role roles)
  let ?up = "AList.update (RoleKey role) (roleConfigMapName opts role) names"
  from Cons.prems(3) obtain s1 where 1: "run (createRoleConfigMap c opts (foundRoleOf fs opts role)) s = (None, s1)"
    and 2: "run (createConfigMaps c opts ?up (map (foundRoleOf fs opts) roles)) s1 = (Inr names', s')"
    using assms(3,4) by (auto simp: Let_def FrRole_of elim!: run_bindE split: option.splits)
  have u: "?up = names @ [(RoleKey role, roleConfigMapName opts role)]" using Cons.prems(2) by (intro update_fresh) auto
  have "fst ` set ?up \<inter> set (map RoleKey roles) = {}" using Cons.prems(1,2) by (auto simp: u)
  then have 3: "extends s1 s'" "creations (newCalls s1 s') = map (\<lambda>role. (Create (OConfigMap (roleConfigMap fs opts role)), True)) roles"
    "names' = ?up @ map (\<lambda>role. (RoleKey role, roleConfigMapName opts role)) roles"
    using Cons.IH [OF _ _ 2] Cons.prems(1) by simp_all
  have 4: "extends s s1" "creations (newCalls s s1) = [(Create (OConfigMap (roleConfigMap fs opts role)), True)]"
    using createRole_static [OF assms(1,2) 1] by simp_all
  show ?case using extends_trans [OF 4(1) 3(1)] newCalls_trans [OF 4(1) 3(1)] 3(2,3) 4(2) u by simp
qed (auto simp: newCalls_def)

section \<open>Properties\<close>

text \<open>
  C33. A bundle is complete: a successful \<open>bundle\<close> makes one request, the creation of a ConfigMap that has every
  regular \<open>.yaml\<close> or \<open>.yml\<close> file of the directory under its name with its content, and nothing else. Each key is one
  the operator takes for a manifest. The name is the one given, or the directory's with six hexadecimal digits.
\<close>

theorem bundle_complete:
  assumes "staticFiles c fs" "FsAbs fs dir = Inr absDir" "FsDirs fs absDir = Inr entries" "distinct (map fst entries)"
    and "run (runBundle c dir opts) s = (None, s')"
  shows "\<exists>cm. newCalls s s' = [(Create (OConfigMap cm), True),
        (Print (''Created ConfigMap '' @ BuNamespace opts @ ''/'' @ CmName cm @ newline), True)] \<and>
      CmNamespace cm = BuNamespace opts \<and> CmData cm \<noteq> [] \<and>
      CmData cm = map (\<lambda>n. (n, contentOf fs (joinPath absDir n))) (manifestNames entries) \<and>
      (\<forall>(key, content) \<in> set (CmData cm). isManifestFile key \<and> FsContent fs (joinPath absDir key) = Inr content) \<and>
      (if BuName opts \<noteq> '''' then CmName cm = BuName opts
       else \<exists>i. CmName cm = basePath absDir @ ''-'' @ i \<and> length i = 6 \<and> list_all isHex i)"
proof -
  obtain r1 s1 where 1: "run (silent (cStatIsDir c absDir)) s = (r1, s1)" by fastforce
  with assms(5) have 2: "run (do { r \<leftarrow> collectManifests c absDir [] entries;
       case r of Inl e \<Rightarrow> ret (Some e)
       | Inr data \<Rightarrow> if data = [] then ret (Some (errorf (''no .yaml/.yml files found in '' @ absDir)))
           else do { r \<leftarrow> bundleName c absDir opts;
             case r of Inl e \<Rightarrow> ret (Some e) | Inr name \<Rightarrow> storeBundle c opts name data } }) s1 = (None, s')"
    unfolding runBundle_def
    by (cases r1) (auto simp: run_simps static_runs [OF assms(1)] assms(2,3) split: if_splits)
  from 2 obtain data s2 name s3 where 3: "run (collectManifests c absDir [] entries) s1 = (Inr data, s2)" "data \<noteq> []"
    and 4: "run (bundleName c absDir opts) s2 = (Inr name, s3)" and 5: "run (storeBundle c opts name data) s3 = (None, s')"
    by (auto elim!: run_bindE split: sum.splits if_splits)
  have d: "s2 = s1" "data = map (\<lambda>n. (n, contentOf fs (joinPath absDir n))) (manifestNames entries)"
    "\<forall>n \<in> set (manifestNames entries). isInr (FsContent fs (joinPath absDir n))"
    using collect_static [OF assms(1,4) _ 3(1)] by simp_all
  have c: "calls s1 = calls s" using 1 by (auto elim: run_silentE)
  note n = doesD [OF bundleName_does 4] and st = doesD [OF storeBundle_does 5]
  have "calls s3 = calls s" using n c d(1) by (simp add: extends_def)
  with st have "newCalls s s' = newCalls s3 s'" by (simp add: newCalls_def)
  with st n d 3(2) show ?thesis
    by (intro exI [of _ "\<lparr>CmNamespace = BuNamespace opts, CmName = name, CmData = data, CmCreationTimestamp = None\<rparr>"])
      (auto simp: manifestNames_def contentOf_def split: sum.splits)
qed

text \<open>A machine with one directory, and a command line on it.\<close>

definition sampleFiles :: files where
  "sampleFiles = \<lparr>FsAbs = Inr, FsDirs = (\<lambda>p. if p = ''/w/sut'' then Inr [(''a.yaml'', False), (''b.txt'', False), (''c.yml'', True)]
     else Inl (GoErr NotExist ''no such directory'')),
     FsContent = (\<lambda>p. if p = ''/w/sut/a.yaml'' then Inr ''kind: Pod'' else Inl (GoErr NotExist ''no such file''))\<rparr>"

definition sampleCli :: "(string \<Rightarrow> goerr + Experiment) \<Rightarrow> unit cli" where
  "sampleCli cluster = \<lparr>cAbs = (\<lambda>p w. (FsAbs sampleFiles p, w)), cStatIsDir = (\<lambda>p w. (Inr True, w)),
     cReadDir = (\<lambda>p w. (FsDirs sampleFiles p, w)), cReadFile = (\<lambda>p w. (FsContent sampleFiles p, w)),
     cWriteFile = (\<lambda>p x w. (None, w)), cCreateFile = (\<lambda>p w. (None, w)), cFlushFile = (\<lambda>p x w. (None, w)),
     cMkdirAll = (\<lambda>p w. (None, w)), cRandRead = (\<lambda>w. (Inr [163, 242, 193], w)),
     cNow = (\<lambda>w. (0, w)), cClientConfig = (\<lambda>p w. (Inr \<lparr>Host = ''h''\<rparr>, w)), cBuildScheme = (\<lambda>x w. (None, w)),
     cNewClient = (\<lambda>x w. (None, w)), cNewForConfig = (\<lambda>x w. (None, w)), cCreateTyped = (\<lambda>x n y w. (None, w)),
     cCreate = (\<lambda>x y w. (Inr y, w)), cGetConfigMap = (\<lambda>x n y w. (Inl (GoErr NotFound ''none''), w)),
     cGetExperiment = (\<lambda>x n y w. (cluster y, w)), cListExperiments = (\<lambda>x n w. (Inr [], w)),
     cYamlExperiment = (\<lambda>x. Inl (errorf ''yaml'')), cYamlIntoMap = (\<lambda>x u. Inr u), cJsonError = (\<lambda>x. errorf ''invalid character'')\<rparr>"

definition noExperiment :: "string \<Rightarrow> goerr + Experiment" where
  "noExperiment name = Inl (GoErr NotFound ''none'')"

lemma sampleCli_static: "staticFiles (sampleCli cluster) sampleFiles"
  by (simp add: staticFiles_def sampleCli_def)

definition bundleRun :: "goerr option \<times> unit kst" where
  "bundleRun = run (runBundle (sampleCli noExperiment) ''/w/sut'' newBundleOptions) start"

lemma bundleRun_ok: "fst bundleRun = None"
  by code_simp

theorem bundle_complete_witness:
  "\<exists>cm. (Create (OConfigMap cm), True) \<in> set (newCalls start (snd bundleRun)) \<and> CmData cm = [(''a.yaml'', ''kind: Pod'')]"
proof -
  have r: "run (runBundle (sampleCli noExperiment) ''/w/sut'' newBundleOptions) start = (None, snd bundleRun)"
    using bundleRun_ok by (metis bundleRun_def prod.collapse)
  have fs: "FsAbs sampleFiles ''/w/sut'' = Inr ''/w/sut''"
    "FsDirs sampleFiles ''/w/sut'' = Inr [(''a.yaml'', False), (''b.txt'', False), (''c.yml'', True)]"
    "manifestNames [(''a.yaml'', False), (''b.txt'', False), (''c.yml'', True)] = [''a.yaml'']"
    "contentOf sampleFiles (joinPath ''/w/sut'' ''a.yaml'') = ''kind: Pod''"
    by code_simp+
  from bundle_complete [OF sampleCli_static fs(1,2) _ r] fs(3,4) show ?thesis by auto
qed

text \<open>
  The references to ConfigMaps in the text of an experiment, as a reader finds them: below the line \<open>manifests:\<close>, three lines
  for each role, until a line that is no role.
\<close>

fun linesOf :: "string \<Rightarrow> string \<Rightarrow> string list" where
  "linesOf cur [] = [cur]"
| "linesOf cur (x # xs) = (if x = CHR 10 then cur # linesOf '''' xs else linesOf (cur @ [x]) xs)"

fun readRefs :: "string list \<Rightarrow> (string \<times> string) list" where
  "readRefs (role # ref # name # rest) =
     (if take 4 role = ''    '' \<and> last role = CHR '':'' \<and> ref = ''      configMapRef:'' \<and> take 14 name = ''        name: ''
      then (butlast (drop 4 role), drop 14 name) # readRefs rest else [])"
| "readRefs _ = []"

definition manifestRefs :: "string \<Rightarrow> (string \<times> string) list" where
  "manifestRefs yaml = readRefs (tl (dropWhile (\<lambda>line. line \<noteq> ''  manifests:'') (linesOf '''' yaml)))"

lemma linesOf_append: "CHR 10 \<notin> set line \<Longrightarrow> linesOf cur (line @ newline @ rest) = (cur @ line) # linesOf '''' rest"
  by (induction line arbitrary: cur) (auto simp: newline_def)

lemma linesOf_concat:
  "\<forall>line \<in> set ls. CHR 10 \<notin> set line \<Longrightarrow> linesOf '''' (concat (map (\<lambda>line. line @ newline) ls) @ rest) = ls @ linesOf '''' rest"
  by (induction ls) (simp_all add: linesOf_append)

definition refLines :: "string \<times> string \<Rightarrow> string list" where
  "refLines = (\<lambda>(role, name). [''    '' @ role @ '':'', ''      configMapRef:'', ''        name: '' @ name])"

lemma readRefs_lines: "readRefs (concat (map refLines refs) @ '''' # rest) = refs"
proof (induction refs)
  case Nil
  show ?case by (cases rest; cases "tl rest") simp_all
qed (auto simp: refLines_def)

lemma manifestEntries_lines:
  "manifestEntries (map (\<lambda>role. (RoleKey role, name role)) (filter P manifestRoles)) =
    concat (map (\<lambda>line. line @ newline) (concat (map refLines (map (\<lambda>role. (RoleKey role, name role)) (filter P manifestRoles)))))"
  by (simp add: manifestEntries_def manifestRoles_def refLines_def)

lemma manifestRefs_generated:
  assumes "CHR 10 \<notin> set (InName opts)" "CHR 10 \<notin> set (InNamespace opts)"
    and "refs = map (\<lambda>role. (RoleKey role, InName opts @ ''-'' @ RoleKey role)) (filter P manifestRoles)"
  shows "manifestRefs (generateExperimentYAML opts refs) = refs"
proof -
  let ?head = "[''apiVersion: ecoscape.cau-se.de/v1alpha1'', ''kind: Experiment'', ''metadata:'', ''  name: '' @ InName opts,
      ''  namespace: '' @ InNamespace opts, ''spec:'', ''  executionMode: FullExperimentRun'', ''  duration:'',
      ''    loadDelay: 20'', ''    chaosDelay: 20'', ''    measurementDuration: 60'', ''    repetitions: 1'',
      ''    pauseBetweenRepetitions: 60'', ''  manifests:'']"
  let ?mid = "concat (map refLines refs)"
  obtain rest where yaml: "generateExperimentYAML opts refs =
      concat (map (\<lambda>line. line @ newline) (?head @ ?mid)) @ newline @ rest"
    unfolding generateExperimentYAML_def assms(3) manifestEntries_lines
    by simp
  have "linesOf '''' (generateExperimentYAML opts refs) = (?head @ ?mid) @ linesOf '''' (newline @ rest)"
    unfolding yaml
    by (rule linesOf_concat) (use assms in \<open>auto simp: refLines_def manifestRoles_def\<close>)
  also have "linesOf '''' (newline @ rest) = '''' # linesOf '''' rest" using linesOf_append [of "''''"] by simp
  finally have "manifestRefs (generateExperimentYAML opts refs) = readRefs (?mid @ '''' # linesOf '''' rest)"
    by (simp add: manifestRefs_def)
  then show ?thesis by (simp only: readRefs_lines)
qed

lemma createExperiment_does:
  "does (createExperiment c opts yaml) (\<lambda>cs r. r = None \<longrightarrow> (\<exists>us. cYamlIntoMap c yaml (bareExperiment opts) = Inr us \<and>
     creations cs = [(Create (OUnstructured us), True)]))"
  unfolding createExperiment_def createObject_def
  by (intro does_rules does_mono [OF getConfigAndClients_does]) auto

text \<open>
  C34. \<open>init\<close> is complete: after a success, every role that has manifest files has its ConfigMap, with each of the files
  under its own name; an experiment text was generated whose references name exactly these ConfigMaps, each under its role; and the
  experiment was created last, as the object the decoder has left after this text. Nothing else was created. (Name and namespace
  have no line break.)
\<close>

theorem init_complete:
  assumes "staticFiles c fs" "properListings fs" "\<not> InDryRun opts" "InOutputFile opts = ''''"
    and "CHR 10 \<notin> set (InName opts)" "CHR 10 \<notin> set (InNamespace opts)"
    and "run (runInit c opts) s = (None, s')"
  shows "rolesWithFiles fs opts \<noteq> [] \<and>
    (\<exists>yaml us. manifestRefs yaml = map (\<lambda>role. (RoleKey role, CmName (roleConfigMap fs opts role))) (rolesWithFiles fs opts) \<and>
       cYamlIntoMap c yaml (bareExperiment opts) = Inr us \<and>
       creations (newCalls s s') =
         map (\<lambda>role. (Create (OConfigMap (roleConfigMap fs opts role)), True)) (rolesWithFiles fs opts) @
         [(Create (OUnstructured us), True)])"
proof -
  obtain u s1 found s2 names s3 where 1: "run (sayln (''Scanning '' @ InSourceDir opts @ '' for manifest directories...'')) s = (u, s1)"
    and 2: "run (scanRoles c (InSourceDir opts) [] manifestRoles) s1 = (Inr found, s2)" "found \<noteq> []"
    and 3: "run (createConfigMaps c opts [] found) s2 = (Inr names, s3)"
    and 4: "run (createExperiment c opts (generateExperimentYAML opts names)) s3 = (None, s')"
    using assms(3,4,7) unfolding runInit_def Let_def
    by (auto elim!: run_bindE split: sum.splits if_splits)
  have sc: "extends s1 s2" "creations (newCalls s1 s2) = []" "found = map (foundRoleOf fs opts) (rolesWithFiles fs opts)"
    using scan_static [OF assms(1) 2(1)] by (simp_all add: rolesWithFiles_code)
  have d: "distinct (map RoleKey (rolesWithFiles fs opts))"
    unfolding rolesWithFiles_code by (rule distinct_map_filter) (simp add: manifestRoles_def)
  have cm: "extends s2 s3" "names = map (\<lambda>role. (RoleKey role, roleConfigMapName opts role)) (rolesWithFiles fs opts)"
    "creations (newCalls s2 s3) = map (\<lambda>role. (Create (OConfigMap (roleConfigMap fs opts role)), True)) (rolesWithFiles fs opts)"
    using createConfigMaps_static [OF assms(1-4) d _ 3 [unfolded sc(3)]] by simp_all
  note ce = doesD [OF createExperiment_does 4]
  have ex: "extends s s2" "newCalls s s2 = newCalls s s1 @ newCalls s1 s2"
    using extends_trans newCalls_trans run_sayln(1) [OF 1] sc(1) by blast+
  have "newCalls s s' = newCalls s s1 @ newCalls s1 s2 @ newCalls s2 s3 @ newCalls s3 s'"
    using newCalls_trans [OF extends_trans [OF ex(1) cm(1)] conjunct1 [OF ce]] newCalls_trans [OF ex(1) cm(1)] ex(2) by simp
  then have created: "creations (newCalls s s') =
      map (\<lambda>role. (Create (OConfigMap (roleConfigMap fs opts role)), True)) (rolesWithFiles fs opts) @ creations (newCalls s3 s')"
    using cm(3) sc(2) run_sayln(2) [OF 1] by simp
  have refs: "names = map (\<lambda>role. (RoleKey role, CmName (roleConfigMap fs opts role))) (rolesWithFiles fs opts)"
    by (simp add: cm(2) roleConfigMap_def roleConfigMapName_def)
  have yaml: "manifestRefs (generateExperimentYAML opts names) = names"
    using manifestRefs_generated [OF assms(5,6), of names] by (simp add: refs roleConfigMap_def rolesWithFiles_code)
  show ?thesis
    using ce created 2(2) sc(3) yaml refs by (intro conjI exI [of _ "generateExperimentYAML opts names"]) auto
qed

definition initRun :: "goerr option \<times> unit kst" where
  "initRun = run (runInit (sampleCli noExperiment) ((newInitOptions ''e'')\<lparr>InSourceDir := ''/w''\<rparr>)) start"

lemma initRun_ok: "fst initRun = None"
  by code_simp

theorem init_complete_witness:
  "\<exists>us cm. CmData cm = [(''a.yaml'', ''kind: Pod'')] \<and>
     creations (newCalls start (snd initRun)) = [(Create (OConfigMap cm), True), (Create (OUnstructured us), True)]"
proof -
  let ?opts = "(newInitOptions ''e'')\<lparr>InSourceDir := ''/w''\<rparr>"
  have p: "properListings sampleFiles" by (simp add: properListings_def sampleFiles_def)
  have r: "run (runInit (sampleCli noExperiment) ?opts) start = (None, snd initRun)"
    using initRun_ok by (metis initRun_def prod.collapse)
  have "rolesWithFiles sampleFiles ?opts = [\<lparr>DirName = ''sut'', RoleKey = ''sut''\<rparr>]"
    "CmData (roleConfigMap sampleFiles ?opts \<lparr>DirName = ''sut'', RoleKey = ''sut''\<rparr>) = [(''a.yaml'', ''kind: Pod'')]"
    by code_simp+
  with init_complete [OF sampleCli_static p _ _ _ _ r] show ?thesis by (auto simp: newInitOptions_def)
qed

text \<open>
  A preview changes nothing in the cluster: with \<open>--dry-run\<close> or \<open>--output\<close>, \<open>init\<close> only prints, and writes
  the output file if one is given.
\<close>

theorem init_preview:
  assumes "InDryRun opts \<or> InOutputFile opts \<noteq> ''''"
  shows "emits (\<lambda>(call, b). case call of Print _ \<Rightarrow> True
     | WriteFile path _ \<Rightarrow> path = InOutputFile opts \<and> path \<noteq> '''' | _ \<Rightarrow> False) (runInit c opts)"
proof -
  let ?P = "\<lambda>(call, b). case call of Print _ \<Rightarrow> True | WriteFile path _ \<Rightarrow> path = InOutputFile opts \<and> path \<noteq> '''' | _ \<Rightarrow> False"
  have scan: "emits ?P (scanRoles c dir found roles)" for dir found roles
    by (induction roles arbitrary: found) (auto intro!: trace_intro emits_sayln simp: Let_def)
  have maps: "emits ?P (createConfigMaps c opts names found)" for names found
    by (induction found arbitrary: names) (use assms in \<open>auto intro!: trace_intro emits_sayln simp: Let_def\<close>)
  show ?thesis
    unfolding runInit_def Let_def writeFile_def
    by (intro trace_intro scan maps emits_act emits_sayln) (use assms in auto)
qed

theorem init_preview_witness:
  "list_all (\<lambda>(call, b). \<exists>m. call = Print m)
     (newCalls start (snd (run (runInit (sampleCli noExperiment) ((newInitOptions ''e'')\<lparr>InDryRun := True\<rparr>)) start)))"
  using emits_newCalls [OF init_preview [where c = "sampleCli noExperiment"] prod.collapse [symmetric],
      of "(newInitOptions ''e'')\<lparr>InDryRun := True\<rparr>" start]
  by (auto simp: list_all_iff newInitOptions_def split: call.splits)

section \<open>list\<close>

lemma listRows_does:
  "does (listRows c wide sb items) (\<lambda>cs table. cs = [] \<and> (\<exists>ts. length ts = length items \<and>
     table = sb @ concat (map tabbed (map2 (listCells wide) ts items))))"
proof (induction items arbitrary: sb)
  case (Cons item items)
  show ?case
    unfolding listRows.simps
  proof (intro does_rules does_mono [OF Cons.IH] conjI)
    fix t cs table
    assume "cs = [] \<and> (\<exists>ts. length ts = length items \<and> table = (sb @ tabbed (listCells wide t item)) @
      concat (map tabbed (map2 (listCells wide) ts items)))"
    then obtain ts where "cs = []" "length ts = length items"
      "table = sb @ concat (map tabbed (map2 (listCells wide) (t # ts) (item # items)))" by auto
    then show "[] @ cs = []" "\<exists>ts. length ts = length (item # items) \<and>
        table = sb @ concat (map tabbed (map2 (listCells wide) ts (item # items)))"
      by (auto intro!: exI [of _ "t # ts"])
  qed
qed (auto intro!: does_rules)

definition listTable :: "bool \<Rightarrow> Time list \<Rightarrow> Experiment list \<Rightarrow> string list list" where
  "listTable wide ts items = listHeader wide # map2 (listCells wide) ts items"

lemma runList_does:
  "does (runList c opts) (\<lambda>cs r. r = None \<longrightarrow> (\<exists>client w items out. fst (cListExperiments c client (LiNamespace opts) w) = Inr items \<and>
     cs = [(ListAll ''ExperimentList'' (LiNamespace opts), True), (Print out, True)] \<and>
     (items = [] \<longrightarrow> out = ''No experiments found.'' @ newline) \<and>
     (items \<noteq> [] \<longrightarrow> (\<exists>ts. length ts = length items \<and>
       out = tabText (concat (map tabbed (listTable (LiAllSpaces opts \<or> LiNamespace opts = '''') ts items)))))))"
proof -
  have rows: "does (listRows c wide (tabbed (listHeader wide)) items) (\<lambda>cs table. cs = [] \<and>
      (\<exists>ts. length ts = length items \<and> table = concat (map tabbed (listTable wide ts items))))" for wide items
    by (rule does_mono [OF listRows_does]) (auto simp: listTable_def)
  show ?thesis
    unfolding runList_def listExperiments_def Let_def
    by (intro does_rules does_mono [OF getConfigAndClients_does] does_mono [OF rows] does_request_world) auto
qed

lemma listTable_aligned:
  assumes "list_all (list_all plainCell) (listTable wide ts items)"
  shows "tabText (concat (map tabbed (listTable wide ts items))) =
    concat (map (alignedRow (listTable wide ts items) (if wide then 5 else 4)) (listTable wide ts items))"
proof (rule table_layout)
  have "list_all (\<lambda>r. length r = Suc (if wide then 5 else 4)) (listTable wide ts items)"
    by (auto simp: listTable_def listHeader_def listCells_def Let_def list_all_iff)
  with assms show "list_all (\<lambda>r. length r = Suc (if wide then 5 else 4) \<and> list_all plainCell r) (listTable wide ts items)"
    by (simp add: list_all_iff)
qed

text \<open>
  \<open>list\<close> asks for the experiments of the one namespace it is given, also with \<open>--all-namespaces\<close>, and prints a
  header and one line per experiment, in the order of the answer, in aligned columns.
\<close>

theorem list_prints_all:
  assumes "run (runList c opts) s = (None, s')"
  shows "\<exists>client w items out. fst (cListExperiments c client (LiNamespace opts) w) = Inr items \<and>
    newCalls s s' = [(ListAll ''ExperimentList'' (LiNamespace opts), True), (Print out, True)] \<and>
    (items = [] \<longrightarrow> out = ''No experiments found.'' @ newline) \<and>
    (items \<noteq> [] \<longrightarrow> (\<exists>ts table. length ts = length items \<and>
       table = listTable (LiAllSpaces opts \<or> LiNamespace opts = '''') ts items \<and>
       out = tabText (concat (map tabbed table)) \<and>
       (list_all (list_all plainCell) table \<longrightarrow>
          out = concat (map (alignedRow table (if LiAllSpaces opts \<or> LiNamespace opts = '''' then 5 else 4)) table))))"
proof -
  obtain client w items out where 1: "fst (cListExperiments c client (LiNamespace opts) w) = Inr items"
    "newCalls s s' = [(ListAll ''ExperimentList'' (LiNamespace opts), True), (Print out, True)]"
    "items = [] \<Longrightarrow> out = ''No experiments found.'' @ newline"
    "items \<noteq> [] \<Longrightarrow> \<exists>ts. length ts = length items \<and>
       out = tabText (concat (map tabbed (listTable (LiAllSpaces opts \<or> LiNamespace opts = '''') ts items)))"
    using doesD [OF runList_does assms] by blast
  show ?thesis
  proof (cases "items = []")
    case False
    with 1(4) obtain ts where "length ts = length items"
      "out = tabText (concat (map tabbed (listTable (LiAllSpaces opts \<or> LiNamespace opts = '''') ts items)))" by blast
    with 1(1,2) False listTable_aligned [of _ ts items] show ?thesis by blast
  qed (use 1 in blast)
qed

definition listedExperiment :: Experiment where
  "listedExperiment = sampleExperiment idleStatus"

definition listRun :: "goerr option \<times> unit kst" where
  "listRun = run (runList ((sampleCli noExperiment)\<lparr>cListExperiments := \<lambda>x n w. (Inr [listedExperiment], w)\<rparr>) newListOptions) start"

lemma listRun_ok: "fst listRun = None"
  by (simp add: listRun_def runList_def getConfigAndClients_def buildConfig_def newClients_def listExperiments_def newListOptions_def
      run_simps sampleCli_def silent_def request_def say_def act_def Let_def start_def)

theorem list_prints_all_witness:
  "\<exists>out. newCalls start (snd listRun) = [(ListAll ''ExperimentList'' ''default'', True), (Print out, True)]"
proof -
  have r: "run (runList ((sampleCli noExperiment)\<lparr>cListExperiments := \<lambda>x n w. (Inr [listedExperiment], w)\<rparr>) newListOptions) start =
    (None, snd listRun)"
    using listRun_ok by (metis listRun_def prod.collapse)
  from list_prints_all [OF r] show ?thesis by (auto simp: newListOptions_def)
qed

section \<open>run\<close>

lemma lastMessage_value:
  "lastMessage st = Some (if Conditions st = [] then '''' else CondMessage (last (Conditions st)))"
  by (cases "Conditions st" rule: rev_cases) (simp_all add: lastMessage_def goIndex_def)

lemma waitLoop_creates_nothing:
  "does (waitLoop c client opts ns name begin phase selects) (\<lambda>cs r. creations cs = [])"
proof -
  have "emits (\<lambda>(call, b). \<forall>obj. call \<noteq> Create obj) (waitLoop c client opts ns name begin phase selects)"
  proof (induction selects arbitrary: phase)
    case (Cons x selects)
    then show ?case
      by (cases x)
        (auto simp: readExperiment_def reportSucceeded_def reportFailed_def sinceRounded_def Let_def
          intro!: trace_intro emits_request emits_sayln)
  qed (auto intro!: trace_intro)
  then show ?thesis
    unfolding emits_does by (rule does_mono) (auto simp: creations_Nil list_all_iff)
qed

lemma runRun_does:
  "does (runRun c opts selects) (\<lambda>cs r. creations cs = [] \<or> (\<exists>e b rest.
     cs = (Get (kobjKey (OExperiment e)), False) # (Create (OExperiment e), b) # rest \<and> creations rest = [] \<and>
     (RuNamespace opts \<noteq> ''default'' \<longrightarrow> ExpNamespace e = RuNamespace opts)))"
  unfolding runRun_def readExperiment_def createObject_def Let_def
  by (intro does_rules does_mono [OF getConfigAndClients_does] does_mono [OF waitLoop_creates_nothing])
    (auto simp: creations_def)

text \<open>
  C35. \<open>run\<close> never overwrites an experiment: it creates one only after the API server could not give it one of the same
  name, and then this one and no other.
\<close>

theorem run_creates_once:
  assumes "run (runRun c opts selects) s = (r, s')" "(Create obj, b) \<in> set (newCalls s s')"
  shows "\<exists>e rest. obj = OExperiment e \<and> (RuNamespace opts \<noteq> ''default'' \<longrightarrow> ExpNamespace e = RuNamespace opts) \<and>
    newCalls s s' = (Get (kobjKey (OExperiment e)), False) # (Create (OExperiment e), b) # rest \<and> creations rest = []"
  using doesD [OF runRun_does assms(1)] assms(2) unfolding creations_Nil by auto

definition createRun :: "ending \<times> unit kst" where
  "createRun = run (runRun ((sampleCli noExperiment)\<lparr>cReadFile := \<lambda>p w. (Inr ''yaml'', w),
     cYamlExperiment := \<lambda>t. Inr listedExperiment\<rparr>) (newRunOptions\<lparr>RuFilename := ''e.yaml''\<rparr>) []) start"

lemma createRun_calls:
  "\<exists>m. newCalls start (snd createRun) = [(Get (kobjKey (OExperiment listedExperiment)), False),
     (Create (OExperiment listedExperiment), True), (Print m, True)]"
  by (simp add: createRun_def runRun_def getConfigAndClients_def buildConfig_def newClients_def readExperiment_def createObject_def
      newRunOptions_def run_simps sampleCli_def silent_def request_def sayln_def say_def act_def Let_def start_def newCalls_def
      noExperiment_def listedExperiment_def sampleExperiment_def)

theorem run_creates_once_witness:
  "\<exists>e rest. newCalls start (snd createRun) = (Get (kobjKey (OExperiment e)), False) # (Create (OExperiment e), True) # rest"
proof -
  have r: "run (runRun ((sampleCli noExperiment)\<lparr>cReadFile := \<lambda>p w. (Inr ''yaml'', w), cYamlExperiment := \<lambda>t. Inr listedExperiment\<rparr>)
    (newRunOptions\<lparr>RuFilename := ''e.yaml''\<rparr>) []) start = (fst createRun, snd createRun)"
    by (simp only: createRun_def prod.collapse)
  from run_creates_once [OF r, of "OExperiment listedExperiment" True] createRun_calls show ?thesis by auto
qed

lemma waitLoop_does:
  "does (waitLoop c client opts ns name begin phase selects) (\<lambda>cs r. r \<noteq> Crashed \<and> (Done \<in> set selects \<longrightarrow> r \<noteq> Waiting) \<and>
      length (filter (\<lambda>(call, b). call = Get (ObjKey ecoscapeAPIVersion ''Experiment'' ns name)) cs)
        \<le> length (takeWhile (\<lambda>x. x = Tick) selects))"
proof (induction selects arbitrary: phase)
  case (Cons x selects)
  show ?case
    by (cases x)
      (auto simp: readExperiment_def reportSucceeded_def reportFailed_def lastMessage_value sinceRounded_def Let_def
        intro!: does_rules does_mono [OF Cons.IH])
qed (auto intro!: does_rules)

text \<open>
  Waiting ends: whatever the API server answers, the loop does not panic and returns at the latest when the deadline of the context is
  received, and by then has made at most one request per tick before it.
\<close>

theorem waiting_ends:
  assumes "Done \<in> set selects" "run (waitLoop c client opts ns name begin phase selects) s = (r, s')"
  shows "r \<noteq> Waiting \<and> r \<noteq> Crashed \<and>
    length (filter (\<lambda>(call, b). call = Get (ObjKey ecoscapeAPIVersion ''Experiment'' ns name)) (newCalls s s'))
      \<le> length (takeWhile (\<lambda>x. x = Tick) selects)"
  using doesD [OF waitLoop_does assms(2)] assms(1) by simp

theorem waiting_ends_witness:
  "fst (run (waitLoop (sampleCli (\<lambda>n. Inr listedExperiment)) \<lparr>RcConfig = \<lparr>Host = ''h''\<rparr>, RcScheme = []\<rparr> newRunOptions ''x'' ''e'' 0
     (PhaseOther '''') [Tick, Tick, Done]) start) \<noteq> Waiting"
  by (rule waiting_ends [THEN conjunct1, OF _ prod.collapse [symmetric]]) simp

text \<open>
  A success of the loop is true: it returns without an error only at a tick at which the API server has given it
  the experiment in phase \<open>Succeeded\<close>, after it has only waited at all earlier ticks.
\<close>

theorem waiting_truthful:
  assumes "run (waitLoop c client opts ns name begin phase selects) s = (Ended None, s')"
  shows "\<exists>earlier rest s1 e. selects = earlier @ Tick # rest \<and>
    run (waitLoop c client opts ns name begin phase earlier) s = (Waiting, s1) \<and>
    fst (cGetExperiment c client ns name (world s1)) = Inr e \<and> Phase (Status e) = PhaseSucceeded"
  using assms
proof (induction selects arbitrary: phase s)
  case (Cons x selects)
  show ?case
  proof (cases x)
    case Done
    with Cons.prems show ?thesis by simp
  next
    case Tick
    obtain r s1 where get: "run (readExperiment c client ns name) s = (r, s1)" by fastforce
    have r: "r = fst (cGetExperiment c client ns name (world s))"
      using get by (auto simp: readExperiment_def elim!: run_elims)
    show ?thesis
    proof (cases r)
      case (Inl e)
      with Cons.prems Tick get show ?thesis by (simp add: run_simps)
    next
      case (Inr e)
      consider "Phase (Status e) = PhaseSucceeded" | "Phase (Status e) = PhaseFailed"
        | "Phase (Status e) \<noteq> PhaseSucceeded" "Phase (Status e) \<noteq> PhaseFailed" by blast
      then show ?thesis
      proof cases
        case 1
        with r Inr Tick have "x # selects = [] @ Tick # selects \<and>
            run (waitLoop c client opts ns name begin phase []) s = (Waiting, s) \<and>
            fst (cGetExperiment c client ns name (world s)) = Inr e \<and> Phase (Status e) = PhaseSucceeded" by simp
        then show ?thesis by blast
      next
        case 2
        with Cons.prems Tick get Inr show ?thesis by (auto simp: run_simps reportFailed_def lastMessage_value Let_def split: prod.splits)
      next
        case 3
        let ?report = "if Phase (Status e) \<noteq> phase then do {
            d \<leftarrow> sinceRounded c begin;
            sayln (''  '' @ phaseString phase @ '' '' @ rightArrow @ '' '' @ phaseString (Phase (Status e)) @ '' (after '' @ d @ '')'')
          } else ret ()"
        obtain u s2 where report: "run ?report s1 = (u, s2)" by (rule that [OF prod.collapse [symmetric]])
        have step: "run (waitLoop c client opts ns name begin phase (Tick # xs)) s =
            run (waitLoop c client opts ns name begin (Phase (Status e)) xs) s2" for xs
          using get report Inr 3 by (simp add: run_simps Let_def)
        from Cons.IH [of "Phase (Status e)" s2] Cons.prems Tick obtain earlier rest s3 e' where
          IH: "selects = earlier @ Tick # rest" "run (waitLoop c client opts ns name begin (Phase (Status e)) earlier) s2 = (Waiting, s3)"
            "fst (cGetExperiment c client ns name (world s3)) = Inr e'" "Phase (Status e') = PhaseSucceeded"
          by (auto simp: step simp del: waitLoop.simps)
        with Tick step [of earlier] show ?thesis
          by (intro exI [of _ "Tick # earlier"] exI [of _ rest] exI [of _ s3] exI [of _ e']) (simp del: waitLoop.simps)
      qed
    qed
  qed
qed simp

definition doneExperiment :: Experiment where
  "doneExperiment = sampleExperiment (idleStatus\<lparr>Phase := PhaseSucceeded\<rparr>)"

theorem waiting_truthful_witness:
  "\<exists>e. fst (cGetExperiment (sampleCli (\<lambda>n. Inr doneExperiment)) \<lparr>RcConfig = \<lparr>Host = ''h''\<rparr>, RcScheme = []\<rparr> ''x'' ''e'' ()) = Inr e \<and>
     Phase (Status e) = PhaseSucceeded"
proof -
  have "fst (run (waitLoop (sampleCli (\<lambda>n. Inr doneExperiment)) \<lparr>RcConfig = \<lparr>Host = ''h''\<rparr>, RcScheme = []\<rparr> newRunOptions ''x'' ''e'' 0
     (PhaseOther '''') [Tick]) start) = Ended None"
    by (simp add: doneExperiment_def sampleExperiment_def readExperiment_def request_def run_simps sampleCli_def start_def
        reportSucceeded_def sinceRounded_def sayln_def say_def act_def silent_def Let_def)
  then obtain s' where "run (waitLoop (sampleCli (\<lambda>n. Inr doneExperiment)) \<lparr>RcConfig = \<lparr>Host = ''h''\<rparr>, RcScheme = []\<rparr> newRunOptions ''x'' ''e'' 0
     (PhaseOther '''') [Tick]) start = (Ended None, s')" by (metis prod.collapse)
  from waiting_truthful [OF this] show ?thesis by auto
qed

end
