(* ===== verification/Cli_Results.thy ===== *)
theory Cli_Results
  imports Cli_Spec
begin

text \<open>
  The command \<open>kubectl ecoscape results\<close> (\<open>cmd/kubectl-ecoscape/results.go\<close>): it reads the results ConfigMap of an
  experiment and prints it as a table, as the stored JSON, or exports it as CSV files.
\<close>

section \<open>Options and data\<close>

record resultsOptions =
  ReExperimentID :: string
  ReKubeconfig :: string
  ReNamespace :: string
  ReFormat :: string
  ReOutputDir :: string

definition newResultsOptions :: "string \<Rightarrow> resultsOptions" where
  "newResultsOptions experimentID = \<lparr>ReExperimentID = experimentID, ReKubeconfig = '''', ReNamespace = ''default'',
     ReFormat = ''table'', ReOutputDir = ''.''\<rparr>"

record resultsData =
  DaExperimentID :: string
  DaExperimentName :: string
  DaExecutionMode :: string
  DaAggregateScore :: "float64 option"
  DaRepetitions :: "RepetitionResult list"

definition zeroData :: resultsData where
  "zeroData = \<lparr>DaExperimentID = '''', DaExperimentName = '''', DaExecutionMode = '''', DaAggregateScore = None,
     DaRepetitions = []\<rparr>"

definition decodeResultsData :: "resultsData decoder" where
  "decodeResultsData = decodeStruct
     [(''experimentId'', onField DaExperimentID (\<lambda>v. DaExperimentID_update (\<lambda>_. v)) decodeString),
      (''experimentName'', onField DaExperimentName (\<lambda>v. DaExperimentName_update (\<lambda>_. v)) decodeString),
      (''executionMode'', onField DaExecutionMode (\<lambda>v. DaExecutionMode_update (\<lambda>_. v)) decodeString),
      (''aggregateScore'', onField DaAggregateScore (\<lambda>v. DaAggregateScore_update (\<lambda>_. v)) (decodePointer fzero decodeFloat)),
      (''repetitionData'', onField DaRepetitions (\<lambda>v. DaRepetitions_update (\<lambda>_. v)) (decodeSlice zeroRepetition decodeRepetition))]"

section \<open>The table\<close>

text \<open>A number that may be missing.\<close>

definition orElse :: "string \<Rightarrow> nat \<Rightarrow> float64 option \<Rightarrow> string" where
  "orElse none n v = (case v of None \<Rightarrow> none | Some x \<Rightarrow> formatFixed n x)"

definition sloRow :: "SLOResult \<Rightarrow> string" where
  "sloRow slo = tabbed
     [''  '' @ ResName slo, formatFixed 4 (ViolationScore slo), formatFixed 2 (MeanSli slo),
      orElse ''-'' 2 (MinSli slo), orElse ''-'' 2 (MaxSli slo),
      showInt (sint (Evaluations slo)), showInt (sint (ResViolations slo))]"

definition repetitionTable :: "RepetitionResult \<Rightarrow> string" where
  "repetitionTable rep =
     ''--- Repetition '' @ showInt (sint (Repetition rep)) @ '' ---'' @ newline @
     tabbed [''  Aggregate Score:'', formatFixed 4 (RepAggregateScore rep)] @ newline @
     tabbed [''  SLO'', ''Score'', ''Mean'', ''Min'', ''Max'', ''Evaluations'', ''Violations''] @
     concat (map sloRow (RepSloResults rep)) @ newline"

text \<open>What is written to the table writer, and what \<open>Flush\<close> prints.\<close>

definition resultsTable :: "resultsData \<Rightarrow> string" where
  "resultsTable data =
     tabbed [''Experiment:'', DaExperimentName data @ '' (id: '' @ DaExperimentID data @ '')''] @
     tabbed [''Mode:'', DaExecutionMode data] @
     tabbed [''Aggregate Score:'', orElse ''N/A'' 4 (DaAggregateScore data)] @
     tabbed [''Repetitions:'', showInt (int (length (DaRepetitions data)))] @ newline @
     concat (map repetitionTable (DaRepetitions data))"

definition printResultsTable :: "resultsData \<Rightarrow> ('w kst, goerr option) state" where
  "printResultsTable data = do { _ \<leftarrow> say (tabText (resultsTable data)); ret None }"

section \<open>The CSV files\<close>

definition optRecord :: "string \<Rightarrow> float64 option \<Rightarrow> string list list" where
  "optRecord name v = (case v of None \<Rightarrow> [] | Some x \<Rightarrow> [[name, formatFixed 6 x]])"

definition sloRecords :: "SLOResult \<Rightarrow> string list list" where
  "sloRecords slo =
     [[''name'', ResName slo], [''violationScore'', formatFixed 6 (ViolationScore slo)],
      [''meanSli'', formatFixed 6 (MeanSli slo)]] @
     optRecord ''minSli'' (MinSli slo) @ optRecord ''maxSli'' (MaxSli slo) @
     [[''evaluations'', showInt (sint (Evaluations slo))], [''violations'', showInt (sint (ResViolations slo))]]"

definition summaryRecords :: "resultsData \<Rightarrow> string list list" where
  "summaryRecords data =
     [[''experimentId'', DaExperimentID data], [''experimentName'', DaExperimentName data],
      [''executionMode'', DaExecutionMode data]] @
     optRecord ''aggregateScore'' (DaAggregateScore data) @
     [[''repetitions'', showInt (int (length (DaRepetitions data)))]]"

definition repetitionDir :: "string \<Rightarrow> RepetitionResult \<Rightarrow> string" where
  "repetitionDir outputDir rep = joinPath outputDir (''repetition-'' @ showInt (sint (Repetition rep)))"

definition sloPath :: "string \<Rightarrow> SLOResult \<Rightarrow> string" where
  "sloPath repDir slo = joinPath repDir (ResName slo @ ''.csv'')"

text \<open>The writer's errors are not looked at, neither those of \<open>Write\<close> nor the one \<open>Flush\<close> leaves behind.\<close>

fun exportSlos :: "'w cli \<Rightarrow> string \<Rightarrow> SLOResult list \<Rightarrow> ('w kst, goerr option) state" where
  "exportSlos c repDir [] = ret None"
| "exportSlos c repDir (slo # slos) = do {
     let filePath = sloPath repDir slo;
     err \<leftarrow> createFile c filePath;
     case err of
       Some e \<Rightarrow> ret (Some (wrapf (''create '' @ filePath) e))
     | None \<Rightarrow> do {
         _ \<leftarrow> flushFile c filePath (csvText (sloRecords slo));
         _ \<leftarrow> sayln (''  Created '' @ filePath);
         exportSlos c repDir slos
       }
   }"

fun exportRepetitions :: "'w cli \<Rightarrow> string \<Rightarrow> RepetitionResult list \<Rightarrow> ('w kst, goerr option) state" where
  "exportRepetitions c outputDir [] = ret None"
| "exportRepetitions c outputDir (rep # reps) = do {
     err \<leftarrow> mkdirAll c (repetitionDir outputDir rep);
     case err of
       Some e \<Rightarrow> ret (Some e)
     | None \<Rightarrow> do {
         err \<leftarrow> exportSlos c (repetitionDir outputDir rep) (RepSloResults rep);
         case err of
           Some e \<Rightarrow> ret (Some e)
         | None \<Rightarrow> exportRepetitions c outputDir reps
       }
   }"

definition exportSummary :: "'w cli \<Rightarrow> resultsData \<Rightarrow> string \<Rightarrow> ('w kst, goerr option) state" where
  "exportSummary c data outputDir = do {
     let summaryPath = joinPath outputDir ''summary.csv'';
     err \<leftarrow> createFile c summaryPath;
     case err of
       Some e \<Rightarrow> ret (Some e)
     | None \<Rightarrow> do {
         _ \<leftarrow> flushFile c summaryPath (csvText (summaryRecords data));
         _ \<leftarrow> sayln (''  Created '' @ summaryPath);
         ret None
       }
   }"

definition exportResultsCSV :: "'w cli \<Rightarrow> resultsData \<Rightarrow> string \<Rightarrow> ('w kst, goerr option) state" where
  "exportResultsCSV c data outputDir = do {
     err \<leftarrow> mkdirAll c outputDir;
     case err of
       Some e \<Rightarrow> ret (Some (wrapf ''create output directory'' e))
     | None \<Rightarrow> do {
         err \<leftarrow> exportRepetitions c outputDir (DaRepetitions data);
         case err of
           Some e \<Rightarrow> ret (Some e)
         | None \<Rightarrow> exportSummary c data outputDir
       }
   }"

section \<open>The command\<close>

definition showResults :: "'w cli \<Rightarrow> resultsOptions \<Rightarrow> string \<Rightarrow> resultsData \<Rightarrow> ('w kst, goerr option) state" where
  "showResults c opts rawJSON data =
     (if ReFormat opts = ''table'' then printResultsTable data
      else if ReFormat opts = ''json'' then do { _ \<leftarrow> sayln rawJSON; ret None }
      else if ReFormat opts = ''csv'' then exportResultsCSV c data (ReOutputDir opts)
      else ret (Some (errorf (''unknown format: '' @ ReFormat opts @ '' (use: table, csv, json)''))))"

definition configMapOf :: "resultsOptions \<Rightarrow> string" where
  "configMapOf opts = ''ecoscape-'' @ ReExperimentID opts @ ''-results''"

definition presentConfigMap :: "'w cli \<Rightarrow> resultsOptions \<Rightarrow> ConfigMap \<Rightarrow> ('w kst, goerr option) state" where
  "presentConfigMap c opts configMap =
     (case map_of (CmData configMap) ''results.json'' of
        None \<Rightarrow> ret (Some (errorf (''ConfigMap '' @ ReNamespace opts @ ''/'' @ configMapOf opts @ '' has no 'results.json' key'')))
      | Some rawJSON \<Rightarrow>
          (case unmarshal decodeResultsData zeroData rawJSON of
             None \<Rightarrow> ret (Some (wrapf ''parse results'' (cJsonError c rawJSON)))
           | Some data \<Rightarrow> showResults c opts rawJSON data))"

definition runResults :: "'w cli \<Rightarrow> resultsOptions \<Rightarrow> ('w kst, goerr option) state" where
  "runResults c opts = do {
     r \<leftarrow> buildConfig c (ReKubeconfig opts);
     case r of
       Inl e \<Rightarrow> ret (Some (wrapf ''build kubeconfig'' e))
     | Inr config \<Rightarrow> do {
         r \<leftarrow> newClients c config (ReNamespace opts);
         case r of
           Inl e \<Rightarrow> ret (Some (wrapf ''create k8s clients'' e))
         | Inr clients \<Rightarrow> do {
             r \<leftarrow> readConfigMapCli c (RuntimeClient clients) (ReNamespace opts) (configMapOf opts);
             case r of
               Inl e \<Rightarrow> ret (Some (wrapf (''read ConfigMap '' @ ReNamespace opts @ ''/'' @ configMapOf opts) e))
             | Inr configMap \<Rightarrow> presentConfigMap c opts configMap
           }
       }
   }"

section \<open>What an export writes\<close>

text \<open>The calls of a complete export, in their order.\<close>

definition sloCalls :: "string \<Rightarrow> SLOResult \<Rightarrow> call list" where
  "sloCalls repDir slo =
     [WriteFile (sloPath repDir slo) '''', WriteFile (sloPath repDir slo) (csvText (sloRecords slo)),
      Print (''  Created '' @ sloPath repDir slo @ newline)]"

definition repetitionCalls :: "string \<Rightarrow> RepetitionResult \<Rightarrow> call list" where
  "repetitionCalls outputDir rep =
     MakeDir (repetitionDir outputDir rep) # concat (map (sloCalls (repetitionDir outputDir rep)) (RepSloResults rep))"

definition summaryCalls :: "string \<Rightarrow> resultsData \<Rightarrow> call list" where
  "summaryCalls outputDir data =
     (let path = joinPath outputDir ''summary.csv''
      in [WriteFile path '''', WriteFile path (csvText (summaryRecords data)), Print (''  Created '' @ path @ newline)])"

definition exportCalls :: "string \<Rightarrow> resultsData \<Rightarrow> call list" where
  "exportCalls outputDir data =
     MakeDir outputDir # concat (map (repetitionCalls outputDir) (DaRepetitions data)) @ summaryCalls outputDir data"

lemma exportSlos_does: "does (exportSlos c repDir slos) (\<lambda>cs r. r = None \<longrightarrow> map fst cs = concat (map (sloCalls repDir) slos))"
proof (induction slos)
  case (Cons slo slos)
  show ?case
    unfolding exportSlos.simps createFile_def flushFile_def
    by (intro does_rules does_mono [OF Cons.IH]) (auto simp: sloCalls_def)
qed (auto intro: does_rules)

lemma exportRepetitions_does:
  "does (exportRepetitions c outputDir reps) (\<lambda>cs r. r = None \<longrightarrow> map fst cs = concat (map (repetitionCalls outputDir) reps))"
proof (induction reps)
  case (Cons rep reps)
  show ?case
    unfolding exportRepetitions.simps mkdirAll_def
    by (intro does_rules does_mono [OF exportSlos_does] does_mono [OF Cons.IH]) (auto simp: repetitionCalls_def)
qed (auto intro: does_rules)

lemma exportResultsCSV_does:
  "does (exportResultsCSV c data outputDir) (\<lambda>cs r. r = None \<longrightarrow> map fst cs = exportCalls outputDir data)"
  unfolding exportResultsCSV_def exportSummary_def mkdirAll_def createFile_def flushFile_def Let_def
  by (intro does_rules does_mono [OF exportRepetitions_does]) (auto simp: exportCalls_def summaryCalls_def Let_def)

lemma records_readable: "readRecords (csvText (sloRecords slo)) = Some (sloRecords slo)"
  "readRecords (csvText (summaryRecords data)) = Some (summaryRecords data)"
  by (rule readRecords_csvText, simp add: sloRecords_def summaryRecords_def optRecord_def split: option.split)+

text \<open>The files after some calls, from none: what the last write to each path that succeeded has put there.\<close>

definition filesAfter :: "(call \<times> bool) list \<Rightarrow> string \<Rightarrow> string option" where
  "filesAfter cs = foldl (\<lambda>m (c, b). case c of WriteFile path content \<Rightarrow> if b then m(path \<mapsto> content) else m | _ \<Rightarrow> m) Map.empty cs"

text \<open>
  The files an export is to leave, with their records, in the order they are written: one per objective of each repetition,
  and the summary.
\<close>

definition sixDigits :: "string \<Rightarrow> float64 option \<Rightarrow> string list list" where
  "sixDigits key v = (case v of None \<Rightarrow> [] | Some x \<Rightarrow> [[key, formatFixed 6 x]])"

definition expectedFiles :: "string \<Rightarrow> resultsData \<Rightarrow> (string \<times> string list list) list" where
  "expectedFiles outputDir data =
     concat (map (\<lambda>rep. map (\<lambda>slo.
         (joinPath (joinPath outputDir (''repetition-'' @ showInt (sint (Repetition rep)))) (ResName slo @ ''.csv''),
          [[''name'', ResName slo], [''violationScore'', formatFixed 6 (ViolationScore slo)], [''meanSli'', formatFixed 6 (MeanSli slo)]] @
          sixDigits ''minSli'' (MinSli slo) @ sixDigits ''maxSli'' (MaxSli slo) @
          [[''evaluations'', showInt (sint (Evaluations slo))], [''violations'', showInt (sint (ResViolations slo))]]))
       (RepSloResults rep)) (DaRepetitions data)) @
     [(joinPath outputDir ''summary.csv'',
       [[''experimentId'', DaExperimentID data], [''experimentName'', DaExperimentName data], [''executionMode'', DaExecutionMode data]] @
       sixDigits ''aggregateScore'' (DaAggregateScore data) @ [[''repetitions'', showInt (int (length (DaRepetitions data)))]])]"

lemma expectedFiles_code:
  "expectedFiles outputDir data =
     concat (map (\<lambda>rep. map (\<lambda>slo. (sloPath (repetitionDir outputDir rep) slo, sloRecords slo)) (RepSloResults rep)) (DaRepetitions data)) @
     [(joinPath outputDir ''summary.csv'', summaryRecords data)]"
  by (simp add: expectedFiles_def sloPath_def repetitionDir_def sloRecords_def summaryRecords_def optRecord_def sixDigits_def)

definition putFile :: "(string \<Rightarrow> string option) \<Rightarrow> call \<Rightarrow> string \<Rightarrow> string option" where
  "putFile m c = (case c of WriteFile path content \<Rightarrow> m(path \<mapsto> content) | _ \<Rightarrow> m)"

lemma filesAfter_success: "list_all snd cs \<Longrightarrow> filesAfter cs = foldl putFile Map.empty (map fst cs)"
proof -
  have "list_all snd cs \<Longrightarrow> foldl (\<lambda>m (c, b). case c of WriteFile path content \<Rightarrow> if b then m(path \<mapsto> content) else m | _ \<Rightarrow> m) m cs =
      foldl putFile m (map fst cs)" for m
    by (induction cs arbitrary: m) (auto simp: putFile_def split: call.splits)
  then show "list_all snd cs \<Longrightarrow> ?thesis" by (simp add: filesAfter_def)
qed

lemma foldl_putFile:
  assumes "\<And>x m. foldl putFile m (call x) = m ++ map_of (rev (out x))"
  shows "foldl putFile m (concat (map call xs)) = m ++ map_of (rev (concat (map out xs)))"
  by (induction xs arbitrary: m) (simp_all add: assms)

lemma exported_files:
  "foldl putFile Map.empty (exportCalls outputDir data) = map_of (rev (map (\<lambda>(path, rs). (path, csvText rs)) (expectedFiles outputDir data)))"
proof -
  have slo: "foldl putFile m (sloCalls dir slo) = m ++ map_of (rev [(sloPath dir slo, csvText (sloRecords slo))])" for m dir slo
    by (simp add: sloCalls_def putFile_def)
  have rep: "foldl putFile m (repetitionCalls outputDir rep) =
      m ++ map_of (rev (concat (map (\<lambda>slo. [(sloPath (repetitionDir outputDir rep) slo, csvText (sloRecords slo))]) (RepSloResults rep))))"
    for m rep
    using foldl_putFile [OF slo] by (simp add: repetitionCalls_def putFile_def)
  have "putFile m (MakeDir p) = m" for m p by (simp add: putFile_def)
  then show ?thesis
    by (simp add: exportCalls_def foldl_putFile [OF rep] summaryCalls_def Let_def expectedFiles_code map_concat comp_def)
      (simp add: putFile_def concat_map_singleton)
qed

lemma expected_readable: "(path, rs) \<in> set (expectedFiles outputDir data) \<Longrightarrow> readRecords (csvText rs) = Some rs"
  by (auto simp: expectedFiles_code records_readable)

lemma clients_known:
  "run (newClients c config ns) s = (Inr clients, s') \<Longrightarrow> RcScheme (RuntimeClient clients) = registeredKinds"
  using newClients_does [of c config ns] by (auto dest: doesD)

text \<open>Before it has the data, the command makes at most one request, and prints nothing.\<close>

definition quietCall :: "call \<times> bool \<Rightarrow> bool" where
  "quietCall = (\<lambda>(call, b). case call of Get _ \<Rightarrow> True | _ \<Rightarrow> False)"

lemma emits_newClients: "emits P (newClients c config ns)"
  unfolding emits_does by (rule does_mono [OF newClients_does]) simp

section \<open>A plugin to evaluate with\<close>

text \<open>A cluster in which every ConfigMap is the one given, and a client that does not look at its scheme.\<close>

definition resultsCli :: "ConfigMap \<Rightarrow> unit cli" where
  "resultsCli cm = (sampleCli noExperiment)\<lparr>cGetConfigMap := (\<lambda>x n y w. (Inr cm, w))\<rparr>"

text \<open>The client of controller-runtime: it refuses an object of a kind its scheme does not have.\<close>

definition schemeCli :: "ConfigMap \<Rightarrow> unit cli" where
  "schemeCli cm = (sampleCli noExperiment)\<lparr>cGetConfigMap := (\<lambda>x n y w.
     (if ''ConfigMap'' \<in> set (RcScheme x) then Inr cm else Inl (errorf ''no kind is registered for the type v1.ConfigMap''), w))\<rparr>"

definition sampleData :: resultsData where
  "sampleData = zeroData\<lparr>DaRepetitions := [\<lparr>Repetition = 1, RepSloResults = [zeroResult\<lparr>ResName := ''lag''\<rparr>], RepAggregateScore = fzero\<rparr>]\<rparr>"


lemma does_act_world: "(\<And>w. Q [(call, fst (f w) = None)] (fst (f w))) \<Longrightarrow> does (act call f) Q"
  unfolding does_def act_def by (auto simp: extends_def newCalls_def split: prod.splits) (metis fst_conv)

section \<open>Properties\<close>

lemma decodeResultsData_back:
  assumes "list_all typedRepetition reps" "resultsText e reps = Inr text"
  shows "unmarshal decodeResultsData zeroData text =
    Some (zeroData\<lparr>DaExperimentID := ExperimentID (Status e), DaExperimentName := ExpName e, DaRepetitions := reps\<rparr>)"
proof -
  have f: "list_all finiteRepetition reps" and doc: "text = jsonIndent 0 (resultsDocument e reps)"
    using assms(2) marshalWith_infinite [of "resultsDocument e reps" "jsonIndent 0"]
    by (fastforce simp: resultsText_def marshalWith_finite)+
  have "readJson text = Some (token (resultsDocument e reps))"
    unfolding doc by (rule readJson_jsonIndent [OF exact_resultsDocument [OF assms(1) f]])
  then show ?thesis
    using decodeResults_back [OF assms(1) f]
    by (simp add: unmarshal_def resultsDocument_def decodeResultsData_def fieldFor_def onField_def lowerChar_def comp_def zeroData_def)
qed

text \<open>
  C31. The plugin shows what the operator stored: after a repetition has been appended, the ConfigMap that was
  created or updated is presented as the experiment's id and name and all its repetitions, the new one last,
  with every number as it was measured. There is never an execution mode nor an aggregate score, because the
  operator does not write the keys the plugin reads them from.
\<close>

theorem operator_results_shown:
  assumes "run (appendRepetitionToConfigMap k ns e result) s = (None, s')" "typedRepetition result"
  shows "\<exists>cm text earlier.
    ((Create (OConfigMap cm), True) \<in> set (newCalls s s') \<or> (Update (OConfigMap cm), True) \<in> set (newCalls s s')) \<and>
    earlier = (case fst (eGetConfigMap k ns (resultsName e) (world s)) of Inr old \<Rightarrow> existingResults old | Inl _ \<Rightarrow> []) \<and>
    presentConfigMap c opts cm = showResults c opts text
      \<lparr>DaExperimentID = ExperimentID (Status e), DaExperimentName = ExpName e, DaExecutionMode = '''',
       DaAggregateScore = None, DaRepetitions = earlier @ [result]\<rparr>"
proof -
  let ?old = "fst (eGetConfigMap k ns (resultsName e) (world s))"
  define earlier where "earlier = (case ?old of Inr old \<Rightarrow> existingResults old | Inl _ \<Rightarrow> [])"
  from assms(1) obtain cm0 raw where t: "resultsText e (earlier @ [result]) = Inr raw"
    and c: "(Create (OConfigMap (setData ''results.json'' raw cm0)), True) \<in> set (newCalls s s') \<or>
      (Update (OConfigMap (setData ''results.json'' raw cm0)), True) \<in> set (newCalls s s')"
    by (auto simp: append_defs newCalls_def earlier_def elim!: run_elims split: sum.splits if_splits)
  have "list_all typedRepetition (earlier @ [result])"
    using typed_existing assms(2) by (simp add: earlier_def split: sum.split)
  from decodeResultsData_back [OF this t] have "presentConfigMap c opts (setData ''results.json'' raw cm0) =
      showResults c opts raw \<lparr>DaExperimentID = ExperimentID (Status e), DaExperimentName = ExpName e, DaExecutionMode = '''',
       DaAggregateScore = None, DaRepetitions = earlier @ [result]\<rparr>"
    by (simp add: presentConfigMap_def zeroData_def)
  with c show ?thesis unfolding earlier_def by blast
qed

theorem operator_results_shown_witness:
  "\<exists>cm text. presentConfigMap (resultsCli storedMap) (newResultsOptions ''abcde'') cm =
    showResults (resultsCli storedMap) (newResultsOptions ''abcde'') text
      \<lparr>DaExperimentID = ''abcde'', DaExperimentName = ''e'', DaExecutionMode = '''', DaAggregateScore = None,
       DaRepetitions = [sampleResult, sampleResult]\<rparr>"
proof -
  let ?m = "run (appendRepetitionToConfigMap storingWorld ''x'' (sampleExperiment idleStatus) sampleResult) start"
  have "?m = (None, snd ?m)" using storing_appends(1) by (metis prod.collapse)
  from operator_results_shown [OF this typed_sampleResult(1), of "resultsCli storedMap" "newResultsOptions ''abcde''"]
  show ?thesis by (auto simp: existing_storedMap sampleExperiment_def idleStatus_def)
qed

text \<open>
  C38. The CSV export is complete and readable: if it reports success, it has made the output directory, then per repetition its
  directory and its files, and the summary last; and if none of these calls has failed (the code does not look at the errors of
  the writes themselves), each path then holds a text that reads back as the records of the objective that belongs there, the
  last one where two of a repetition have the same name, and no other file is written.
\<close>

theorem csv_export_complete:
  assumes "run (exportResultsCSV c data outputDir) s = (None, s')" "list_all snd (newCalls s s')"
  shows "map_option readRecords (filesAfter (newCalls s s') path) = map_option Some (map_of (rev (expectedFiles outputDir data)) path) \<and>
    {dir. (MakeDir dir, True) \<in> set (newCalls s s')} =
      insert outputDir ((\<lambda>rep. joinPath outputDir (''repetition-'' @ showInt (sint (Repetition rep)))) ` set (DaRepetitions data))"
proof
  have calls: "map fst (newCalls s s') = exportCalls outputDir data"
    using doesD [OF exportResultsCSV_does assms(1)] by simp
  have "filesAfter (newCalls s s') path =
      map_option csvText (map_of (rev (expectedFiles outputDir data)) path)"
    by (simp add: filesAfter_success [OF assms(2)] calls exported_files rev_map map_of_map)
  moreover have "readRecords (csvText rs) = Some rs" if "map_of (rev (expectedFiles outputDir data)) path = Some rs" for rs
    using map_of_SomeD [OF that] by (auto intro: expected_readable)
  ultimately show "map_option readRecords (filesAfter (newCalls s s') path) =
      map_option Some (map_of (rev (expectedFiles outputDir data)) path)"
    by (cases "map_of (rev (expectedFiles outputDir data)) path") simp_all
  have "(c, True) \<in> set (newCalls s s') \<longleftrightarrow> c \<in> set (map fst (newCalls s s'))" for c
    using assms(2) by (force simp: list_all_iff)
  then have "(c, True) \<in> set (newCalls s s') \<longleftrightarrow> c \<in> set (exportCalls outputDir data)" for c by (simp only: calls)
  then show "{dir. (MakeDir dir, True) \<in> set (newCalls s s')} =
      insert outputDir ((\<lambda>rep. joinPath outputDir (''repetition-'' @ showInt (sint (Repetition rep)))) ` set (DaRepetitions data))"
    by (auto simp: exportCalls_def repetitionCalls_def sloCalls_def summaryCalls_def Let_def repetitionDir_def)
qed

lemma sample_exports:
  "fst (run (exportResultsCSV (resultsCli storedMap) sampleData ''out'') start) = None"
  "list_all snd (newCalls start (snd (run (exportResultsCSV (resultsCli storedMap) sampleData ''out'') start)))"
  by (simp_all add: exportResultsCSV_def exportSummary_def createFile_def flushFile_def mkdirAll_def sayln_def say_def act_def
    run_simps resultsCli_def sampleCli_def sampleData_def zeroData_def start_def Let_def newCalls_def)

theorem csv_export_complete_witness:
  "map_option readRecords (filesAfter (newCalls start (snd (run (exportResultsCSV (resultsCli storedMap) sampleData ''out'') start)))
     ''out/summary.csv'') = Some (Some [[''experimentId'', ''''], [''experimentName'', ''''], [''executionMode'', ''''],
       [''repetitions'', ''1'']])"
proof -
  let ?m = "run (exportResultsCSV (resultsCli storedMap) sampleData ''out'') start"
  have m: "?m = (None, snd ?m)" using sample_exports(1) by (metis prod.collapse)
  have "joinPath ''out'' ''summary.csv'' = ''out/summary.csv''" "showInt 1 = ''1''" by code_simp+
  with csv_export_complete [OF m sample_exports(2), of "''out/summary.csv''"] show ?thesis
    by (simp add: expectedFiles_def sampleData_def zeroData_def sixDigits_def)
qed


text \<open>
  C39. The command cannot work with the client it makes: \<open>newClients\<close> builds the scheme from the kinds of this
  repository alone, so a client that refuses kinds outside its scheme, as controller-runtime's does, never
  reads the ConfigMap. The command then fails, whatever is stored, and prints nothing.
\<close>

theorem results_always_refused:
  assumes "\<And>x n y w. ''ConfigMap'' \<notin> set (RcScheme x) \<Longrightarrow> \<exists>e. fst (cGetConfigMap c x n y w) = Inl e"
    and "run (runResults c opts) s = (r, s')"
  shows "\<exists>e. r = Some e \<and> list_all quietCall (newCalls s s')"
proof -
  have refused: "does (readConfigMapCli c x ns n) (\<lambda>cs r. (\<exists>e. r = Inl e) \<and> list_all quietCall cs)"
    if x: "RcScheme x = registeredKinds" for x ns n
    unfolding readConfigMapCli_def
  proof (rule does_request_world)
    fix w
    have "''ConfigMap'' \<notin> set (RcScheme x)" by (simp add: x registeredKinds_list)
    then show "(\<exists>e. fst (cGetConfigMap c x ns n w) = Inl e) \<and>
        list_all quietCall [(Get (cmKey ns n), isInr (fst (cGetConfigMap c x ns n w)))]"
      using assms(1) by (simp add: quietCall_def)
  qed
  have "does (runResults c opts) (\<lambda>cs r. (\<exists>e. r = Some e) \<and> list_all quietCall cs)"
    unfolding runResults_def buildConfig_def
    by (intro does_rules does_mono [OF newClients_does]) (auto intro!: does_rules does_mono [OF refused])
  with assms(2) show ?thesis by (auto dest: doesD)
qed

theorem results_always_refused_witness:
  "\<exists>e. fst (run (runResults (schemeCli storedMap) (newResultsOptions ''abcde'')) start) = Some e"
  using results_always_refused [OF _ prod.collapse [symmetric], of "schemeCli storedMap" "newResultsOptions ''abcde''" start]
  by (auto simp: schemeCli_def)

text \<open>
  Unless files are exported, a failure leaves no half output: when the command fails it has made no call
  but the one request for the ConfigMap.
\<close>

theorem results_fail_quietly:
  assumes "run (runResults c opts) s = (Some e, s')" "ReFormat opts \<noteq> ''csv''"
  shows "list_all quietCall (newCalls s s') \<and> length (newCalls s s') \<le> 1"
proof -
  have shown: "does (showResults c opts raw data) (\<lambda>cs r. r = None \<or> cs = [])" for raw data
    using assms(2) unfolding showResults_def printResultsTable_def by (auto intro!: does_rules)
  have present: "does (presentConfigMap c opts cm) (\<lambda>cs r. r = None \<or> cs = [])" for cm
    unfolding presentConfigMap_def by (auto intro!: does_rules shown split: option.split)
  have "does (runResults c opts) (\<lambda>cs r. r = None \<or> list_all quietCall cs \<and> length cs \<le> 1)"
    unfolding runResults_def buildConfig_def readConfigMapCli_def
    by (intro does_rules does_mono [OF newClients_does])
      (auto intro!: does_rules simp: quietCall_def intro: does_mono [OF present])
  with assms(1) show ?thesis by (auto dest: doesD)
qed

theorem results_fail_quietly_witness:
  "length (newCalls start (snd (run (runResults (resultsCli (storedMap\<lparr>CmData := []\<rparr>)) (newResultsOptions ''abcde'')) start))) \<le> 1"
proof -
  let ?opts = "newResultsOptions ''abcde''"
  let ?m = "run (runResults (resultsCli (storedMap\<lparr>CmData := []\<rparr>)) ?opts) start"
  have "\<exists>e. fst ?m = Some e"
    by (simp add: runResults_def buildConfig_def newClients_def readConfigMapCli_def presentConfigMap_def
      run_simps resultsCli_def sampleCli_def start_def request_def silent_def)
  then obtain e where "?m = (Some e, snd ?m)" by (metis prod.collapse)
  from results_fail_quietly [OF this] show ?thesis by (simp add: newResultsOptions_def)
qed

text \<open>
  A full disk goes unnoticed: the export checks that its directories and files can be created but not that
  they can be written, so it reports success, and each file as created, even if no text ever reaches one.
\<close>

theorem csv_write_errors_ignored:
  assumes "\<And>p w. fst (cMkdirAll c p w) = None" "\<And>p w. fst (cCreateFile c p w) = None"
  shows "fst (run (exportResultsCSV c data outputDir) s) = None"
proof -
  have dir: "does (mkdirAll c p) (\<lambda>cs r. r = None)" for p
    unfolding mkdirAll_def by (rule does_act_world) (rule assms(1))
  have creates: "does (createFile c p) (\<lambda>cs r. r = None)" for p
    unfolding createFile_def by (rule does_act_world) (rule assms(2))
  have slos: "does (exportSlos c repDir slos) (\<lambda>cs r. r = None)" for repDir slos
    by (induction slos) (auto simp: flushFile_def intro!: does_rules intro: does_mono [OF creates])
  have reps: "does (exportRepetitions c outputDir reps) (\<lambda>cs r. r = None)" for reps
    by (induction reps) (auto intro!: does_rules does_mono [OF dir] does_mono [OF slos])
  have "does (exportResultsCSV c data outputDir) (\<lambda>cs r. r = None)"
    unfolding exportResultsCSV_def exportSummary_def flushFile_def Let_def
    by (intro does_rules does_mono [OF dir] does_mono [OF creates] does_mono [OF reps]) simp_all
  from doesD [OF this prod.collapse [symmetric]] show ?thesis by simp
qed

text \<open>A plugin on a full disk.\<close>

definition fullDisk :: "unit cli" where
  "fullDisk = (sampleCli noExperiment)\<lparr>cFlushFile := (\<lambda>p x w. (Some (errorf ''no space left on device''), w))\<rparr>"

theorem csv_write_errors_ignored_witness:
  "fst (run (exportResultsCSV fullDisk sampleData ''out'') start) = None \<and>
   fst (cFlushFile fullDisk ''out/summary.csv'' ''x'' ()) \<noteq> None"
  using csv_write_errors_ignored [of fullDisk sampleData "''out''" start] by (simp add: fullDisk_def sampleCli_def)

end
