(* ===== verification/Cli_Root.thy ===== *)
theory Cli_Root
  imports Cli_Results
begin

text \<open>
  The root of the kubectl plugin: \<open>main.go\<close>, \<open>completion.go\<close> and the \<open>new...Command\<close> functions, which connect flags and
  arguments with the commands. What cobra makes of a command line is the parameter \<open>cobra\<close>: it refuses it, answers it
  itself (a help text), or runs one of the registered commands with the flags that were set and the remaining arguments.
  The error cobra prints before \<open>main\<close> exits goes to the standard error and is no call of the model.
\<close>

section \<open>Flags\<close>

datatype flagValue = FString string | FBool bool | FDuration int

type_synonym flagSet = "string \<Rightarrow> flagValue option"

text \<open>\<open>cmd.Flags().StringVar(&v, name, default, usage)\<close> and its variants: the variable has the default until the flag is set.\<close>

definition stringVar :: "flagSet \<Rightarrow> string \<Rightarrow> string \<Rightarrow> string" where
  "stringVar fl name fallback = (case fl name of Some (FString s) \<Rightarrow> s | _ \<Rightarrow> fallback)"

definition boolVar :: "flagSet \<Rightarrow> string \<Rightarrow> bool \<Rightarrow> bool" where
  "boolVar fl name fallback = (case fl name of Some (FBool b) \<Rightarrow> b | _ \<Rightarrow> fallback)"

definition durationVar :: "flagSet \<Rightarrow> string \<Rightarrow> int \<Rightarrow> int" where
  "durationVar fl name fallback = (case fl name of Some (FDuration d) \<Rightarrow> d | _ \<Rightarrow> fallback)"

definition bundleFlags :: "flagSet \<Rightarrow> bundleOptions" where
  "bundleFlags fl = \<lparr>BuName = stringVar fl ''name'' '''', BuNamespace = stringVar fl ''namespace'' ''default'',
     BuKubeconfig = stringVar fl ''kubeconfig'' ''''\<rparr>"

definition initFlags :: "flagSet \<Rightarrow> initOptions" where
  "initFlags fl = \<lparr>InName = '''', InSourceDir = stringVar fl ''from-dir'' ''.'', InNamespace = stringVar fl ''namespace'' ''default'',
     InKubeconfig = stringVar fl ''kubeconfig'' '''', InOutputFile = stringVar fl ''output'' '''', InDryRun = boolVar fl ''dry-run'' False\<rparr>"

definition listFlags :: "flagSet \<Rightarrow> listOptions" where
  "listFlags fl = \<lparr>LiKubeconfig = stringVar fl ''kubeconfig'' '''', LiNamespace = stringVar fl ''namespace'' ''default'',
     LiAllSpaces = boolVar fl ''all-namespaces'' False\<rparr>"

definition runFlags :: "flagSet \<Rightarrow> runOptions" where
  "runFlags fl = \<lparr>RuFilename = stringVar fl ''filename'' '''', RuNamespace = stringVar fl ''namespace'' ''default'',
     RuKubeconfig = stringVar fl ''kubeconfig'' '''', RuWait = boolVar fl ''wait'' False,
     RuTimeout = durationVar fl ''timeout'' (30 * 60 * nanosPerSecond)\<rparr>"

definition resultsFlags :: "flagSet \<Rightarrow> resultsOptions" where
  "resultsFlags fl = \<lparr>ReExperimentID = '''', ReKubeconfig = stringVar fl ''kubeconfig'' '''',
     ReNamespace = stringVar fl ''namespace'' ''default'', ReFormat = stringVar fl ''format'' ''table'',
     ReOutputDir = stringVar fl ''output-dir'' ''.''\<rparr>"

text \<open>Without flags the options are the defaults.\<close>

lemma flags_default:
  "bundleFlags (\<lambda>_. None) = newBundleOptions" "initFlags (\<lambda>_. None) = newInitOptions ''''"
  "listFlags (\<lambda>_. None) = newListOptions" "runFlags (\<lambda>_. None) = newRunOptions"
  "resultsFlags (\<lambda>_. None) = newResultsOptions ''''"
  by (simp_all add: bundleFlags_def newBundleOptions_def initFlags_def newInitOptions_def listFlags_def newListOptions_def
      runFlags_def newRunOptions_def resultsFlags_def newResultsOptions_def stringVar_def boolVar_def durationVar_def)

section \<open>Commands\<close>

text \<open>How many arguments a command takes: its \<open>Args\<close>, and \<open>ValidArgs\<close> where \<open>OnlyValidArgs\<close> looks at them.\<close>

datatype argsPolicy = AnyArgs | ExactArgs nat | OneOf "string list"

fun acceptsArgs :: "argsPolicy \<Rightarrow> string list \<Rightarrow> bool" where
  "acceptsArgs AnyArgs args = True"
| "acceptsArgs (ExactArgs n) args = (length args = n)"
| "acceptsArgs (OneOf valid) args = (length args = 1 \<and> set args \<subseteq> set valid)"

datatype invocation = Refused goerr | Helped | Invoked string flagSet "string list"

datatype shell = Bash | Zsh | Fish | PowerShell

text \<open>Cobra: the command line, and the generated completion scripts.\<close>

record 'w cobra =
  cbParse :: "string list \<Rightarrow> invocation"
  cbScript :: "shell \<Rightarrow> string"
  cbGenerate :: "shell \<Rightarrow> 'w \<Rightarrow> goerr option \<times> 'w"

definition genCompletion :: "'w cobra \<Rightarrow> shell \<Rightarrow> ('w kst, goerr option) state" where
  "genCompletion b shell = act (Print (cbScript b shell)) (cbGenerate b shell)"

definition completionCommand :: "'w cobra \<Rightarrow> string \<Rightarrow> ('w kst, goerr option) state" where
  "completionCommand b arg =
     (if arg = ''bash'' then genCompletion b Bash
      else if arg = ''zsh'' then genCompletion b Zsh
      else if arg = ''fish'' then genCompletion b Fish
      else if arg = ''powershell'' then genCompletion b PowerShell
      else ret (Some (errorf (''unsupported shell: '' @ arg))))"

definition ended :: "('w kst, goerr option) state \<Rightarrow> ('w kst, ending) state" where
  "ended m = do { err \<leftarrow> m; ret (Ended err) }"

text \<open>\<open>args[0]\<close>\<close>

definition withFirst :: "string list \<Rightarrow> (string \<Rightarrow> ('w kst, goerr option) state) \<Rightarrow> ('w kst, ending) state" where
  "withFirst args f = (case goIndex args 0 of None \<Rightarrow> ret Crashed | Some arg \<Rightarrow> ended (f arg))"

text \<open>
  What the plugin gives cobra of a command: its name, its \<open>Args\<close>, and its \<open>RunE\<close>, which gets the flags that were set and
  the arguments; the last list is what the selects of \<open>run\<close> will receive.
\<close>

record 'w command =
  CmdName :: string
  CmdArgs :: argsPolicy
  CmdRun :: "flagSet \<Rightarrow> string list \<Rightarrow> select list \<Rightarrow> ('w kst, ending) state"

definition newInitCommand :: "'w cli \<Rightarrow> 'w command" where
  "newInitCommand c = \<lparr>CmdName = ''init'', CmdArgs = ExactArgs 1,
     CmdRun = (\<lambda>fl args selects. withFirst args (\<lambda>arg. runInit c ((initFlags fl)\<lparr>InName := arg\<rparr>)))\<rparr>"

definition newBundleCommand :: "'w cli \<Rightarrow> 'w command" where
  "newBundleCommand c = \<lparr>CmdName = ''bundle'', CmdArgs = ExactArgs 1,
     CmdRun = (\<lambda>fl args selects. withFirst args (\<lambda>arg. runBundle c arg (bundleFlags fl)))\<rparr>"

definition newRunCommand :: "'w cli \<Rightarrow> 'w command" where
  "newRunCommand c = \<lparr>CmdName = ''run'', CmdArgs = AnyArgs,
     CmdRun = (\<lambda>fl args selects. runCommand c (runFlags fl) args selects)\<rparr>"

definition newResultsCommand :: "'w cli \<Rightarrow> 'w command" where
  "newResultsCommand c = \<lparr>CmdName = ''results'', CmdArgs = ExactArgs 1,
     CmdRun = (\<lambda>fl args selects. withFirst args (\<lambda>arg. runResults c ((resultsFlags fl)\<lparr>ReExperimentID := arg\<rparr>)))\<rparr>"

definition newListCommand :: "'w cli \<Rightarrow> 'w command" where
  "newListCommand c = \<lparr>CmdName = ''list'', CmdArgs = AnyArgs,
     CmdRun = (\<lambda>fl args selects. ended (runList c (listFlags fl)))\<rparr>"

definition newCompletionCommand :: "'w cobra \<Rightarrow> 'w command" where
  "newCompletionCommand b = \<lparr>CmdName = ''completion'', CmdArgs = OneOf [''bash'', ''zsh'', ''fish'', ''powershell''],
     CmdRun = (\<lambda>fl args selects. withFirst args (completionCommand b))\<rparr>"

definition pluginCommands :: "'w cli \<Rightarrow> 'w cobra \<Rightarrow> 'w command list" where
  "pluginCommands c b = [newInitCommand c, newBundleCommand c, newRunCommand c, newResultsCommand c, newListCommand c,
     newCompletionCommand b]"

definition commandOf :: "'w cli \<Rightarrow> 'w cobra \<Rightarrow> string \<Rightarrow> 'w command option" where
  "commandOf c b name = find (\<lambda>cmd. CmdName cmd = name) (pluginCommands c b)"

lemmas command_defs = newInitCommand_def newBundleCommand_def newRunCommand_def newResultsCommand_def newListCommand_def
  newCompletionCommand_def pluginCommands_def

text \<open>
  \<open>root.Execute()\<close> and \<open>main\<close>: the exit code, or \<open>None\<close> while the command still waits. A panic ends a Go program
  with 2, and an error of cobra or of a command is exit code 1.
\<close>

definition mainPlugin :: "'w cli \<Rightarrow> 'w cobra \<Rightarrow> string list \<Rightarrow> select list \<Rightarrow> ('w kst, nat option) state" where
  "mainPlugin c b argv selects =
     (case cbParse b argv of
        Refused e \<Rightarrow> ret (Some 1)
      | Helped \<Rightarrow> ret (Some 0)
      | Invoked name fl args \<Rightarrow> (case commandOf c b name of
          None \<Rightarrow> ret (Some 1)
        | Some cmd \<Rightarrow> do {
            r \<leftarrow> CmdRun cmd fl args selects;
            ret (case r of
                   Waiting \<Rightarrow> None
                 | Crashed \<Rightarrow> Some 2
                 | Ended err \<Rightarrow> Some (if err = None then 0 else 1))
          }))"

section \<open>How the commands end\<close>

text \<open>
  A command line that cobra runs names a command the plugin has added, with arguments its \<open>Args\<close> allow: what cobra
  documents of \<open>AddCommand\<close> and \<open>Args\<close>.
\<close>

definition lawfulCobra :: "'w cli \<Rightarrow> 'w cobra \<Rightarrow> bool" where
  "lawfulCobra c b \<longleftrightarrow> (\<forall>argv name fl args. cbParse b argv = Invoked name fl args \<longrightarrow>
     (\<exists>cmd. commandOf c b name = Some cmd \<and> acceptsArgs (CmdArgs cmd) args))"

lemma RuWait_runFlags: "RuWait (runFlags fl) = boolVar fl ''wait'' False"
  by (simp add: runFlags_def)

lemma runRun_ends: "does (runRun c opts selects) (\<lambda>cs r. r \<noteq> Crashed \<and> (Done \<in> set selects \<longrightarrow> r \<noteq> Waiting))"
  unfolding runRun_def readExperiment_def createObject_def Let_def
  by (intro does_rules does_mono [OF getConfigAndClients_does] does_mono [OF waitLoop_does]) auto

text \<open>No command that cobra runs indexes a slice out of range, and each ends if the deadline arrives.\<close>

lemma ended_ends: "\<exists>err. fst (run (ended m) s) = Ended err"
  by (cases "run m s") (simp add: ended_def run_simps)

lemma withFirst_ends: "length args = 1 \<Longrightarrow> \<exists>err. fst (run (withFirst args f) s) = Ended err"
  by (simp add: withFirst_def goIndex_def ended_ends)

lemma runCommand_ends:
  "does (runCommand c opts args selects) (\<lambda>cs r. r \<noteq> Crashed \<and> (Done \<in> set selects \<longrightarrow> r \<noteq> Waiting))"
  unfolding runCommand_def goIndex_def
  by (intro does_rules does_mono [OF runRun_ends]) (auto split: if_splits)

lemma commands_end:
  assumes "cmd \<in> set (pluginCommands c b)" "acceptsArgs (CmdArgs cmd) args"
  shows "fst (run (CmdRun cmd fl args selects) s) \<noteq> Crashed \<and>
    (Done \<in> set selects \<longrightarrow> fst (run (CmdRun cmd fl args selects) s) \<noteq> Waiting)"
proof -
  consider "cmd = newRunCommand c" | "cmd = newListCommand c" | f where "length args = 1" "CmdRun cmd fl args selects = withFirst args f"
    using assms by (auto simp: command_defs)
  then show ?thesis
  proof cases
    case 1
    obtain r s1 where r: "run (runCommand c (runFlags fl) args selects) s = (r, s1)" by fastforce
    from doesD [OF runCommand_ends r] r 1 show ?thesis by (simp add: newRunCommand_def)
  next
    case 2
    with ended_ends show ?thesis by (metis command.select_convs(3) ending.distinct(4,6) newListCommand_def)
  next
    case 3
    with withFirst_ends show ?thesis by (metis ending.distinct(4,6))
  qed
qed

text \<open>What \<open>run --wait\<close> has done when it reports no error: one read, one creation, two messages, and the waiting.\<close>

lemma run_request_calls: "run (request c f) s = (r, s') \<Longrightarrow> calls s' = calls s @ [(c, isInr r)]"
  by (erule run_requestE)

lemma runRun_waits:
  assumes "run (runRun c opts selects) s = (Ended None, s')" "RuWait opts"
  shows "\<exists>e client begin s0 m1 m2. extends s s0 \<and> newCalls s s0 = [(Get (kobjKey (OExperiment e)), False),
      (Create (OExperiment e), True), (Print m1, True), (Print m2, True)] \<and>
    run (waitLoop c client opts (ExpNamespace e) (ExpName e) begin PhaseEmpty selects) s0 = (Ended None, s')"
proof -
  obtain raw parsed s1 where 1: "run (silent (cReadFile c (RuFilename opts))) s = (Inr raw, s1)" "cYamlExperiment c raw = Inr parsed"
    using assms(1) by (auto simp: runRun_def elim!: run_bindE run_retE split: sum.splits)
  let ?e = "(if RuNamespace opts \<noteq> ''default'' then parsed\<lparr>ExpNamespace := RuNamespace opts\<rparr> else parsed)"
  let ?ns = "ExpNamespace ?e" and ?name = "ExpName ?e"
  obtain config clients err s2 s3 created s4 u m1 s5 v m2 s6 t0 s7 where
    2: "run (getConfigAndClients c (RuKubeconfig opts) (RuNamespace opts)) s1 = (Inr (config, clients), s2)"
    and 3: "run (readExperiment c (RuntimeClient clients) ?ns ?name) s2 = (Inl err, s3)"
    and 4: "run (createObject c (RuntimeClient clients) (OExperiment ?e)) s3 = (Inr created, s4)"
    and 5: "run (sayln m1) s4 = (u, s5)" "run (sayln m2) s5 = (v, s6)"
    and 6: "run (silent (cNow c)) s6 = (t0, s7)"
    and 7: "run (waitLoop c (RuntimeClient clients) opts ?ns ?name t0 PhaseEmpty selects) s7 = (Ended None, s')"
    using assms 1 unfolding runRun_def Let_def
    by (clarsimp simp: run_simps simp del: if_split split: sum.splits prod.splits if_split_asm)
  have quiet: "calls s2 = calls s" "calls s7 = calls s6"
    using doesD [OF getConfigAndClients_does 2] 1(1) 6 by (auto simp: extends_def elim!: run_silentE)
  have "calls s3 = calls s @ [(Get (kobjKey (OExperiment ?e)), False)]"
    using run_request_calls [OF 3 [unfolded readExperiment_def]] quiet(1) by simp
  moreover have "calls s4 = calls s3 @ [(Create (OExperiment ?e), True)]"
    using run_request_calls [OF 4 [unfolded createObject_def]] by simp
  ultimately have "calls s4 = calls s @ [(Get (kobjKey (OExperiment ?e)), False), (Create (OExperiment ?e), True)]" by simp
  then have c: "calls s7 = calls s @ [(Get (kobjKey (OExperiment ?e)), False), (Create (OExperiment ?e), True),
      (Print (m1 @ newline), True), (Print (m2 @ newline), True)]"
    using run_sayln [OF 5(1)] run_sayln [OF 5(2)] quiet(2) by (simp add: extends_def)
  show ?thesis using extendsI [OF c] newCalls_append [OF c] 7 by blast
qed

text \<open>
  C36. The plugin stays in the range of its slices, and \<open>run --wait\<close> does not wait for ever: whatever the command line, the
  file system and the API server, neither \<open>args[0]\<close> nor the last condition of an experiment is asked of an empty slice, which
  would end the process with 2, and once the deadline of the waiting loop has arrived it ends with 0 or 1.
\<close>

theorem plugin_ends:
  assumes "lawfulCobra c b" "run (mainPlugin c b argv selects) s = (code, s')"
  shows "code \<noteq> Some 2 \<and> (Done \<in> set selects \<longrightarrow> code = Some 0 \<or> code = Some 1)"
proof (cases "cbParse b argv")
  case (Invoked name fl args)
  with assms(1) obtain cmd where cmd: "commandOf c b name = Some cmd" "acceptsArgs (CmdArgs cmd) args"
    unfolding lawfulCobra_def by blast
  then have "cmd \<in> set (pluginCommands c b)" by (auto simp: commandOf_def find_Some_iff)
  from commands_end [OF this cmd(2), of fl selects s] assms(2) Invoked cmd(1) show ?thesis
    by (cases "run (CmdRun cmd fl args selects) s"; cases "fst (run (CmdRun cmd fl args selects) s)")
      (auto simp: mainPlugin_def run_simps split: if_splits)
qed (use assms(2) in \<open>auto simp: mainPlugin_def\<close>)

text \<open>A cobra that takes the command line apart without looking at flags; \<open>--wait\<close> is always set.\<close>

definition scriptCobra :: "'w cobra" where
  "scriptCobra = \<lparr>cbParse = (\<lambda>argv. Helped), cbScript = (\<lambda>shell. ''complete''), cbGenerate = (\<lambda>shell w. (None, w))\<rparr>"

definition plainCobra :: "'w cli \<Rightarrow> 'w cobra" where
  "plainCobra c = scriptCobra\<lparr>cbParse := (\<lambda>argv. case argv of
       [] \<Rightarrow> Helped
     | name # args \<Rightarrow> (case commandOf c scriptCobra name of
           None \<Rightarrow> Refused (errorf (''unknown command '' @ name))
         | Some cmd \<Rightarrow> if acceptsArgs (CmdArgs cmd) args then Invoked name [''wait'' \<mapsto> FBool True] args
             else Refused (errorf ''wrong number of arguments'')))\<rparr>"

lemma commandOf_policy: "map_option CmdArgs (commandOf c b name) = map_option CmdArgs (commandOf c b' name)"
  by (simp add: commandOf_def command_defs)

lemma lawful_plainCobra: "lawfulCobra c (plainCobra c)"
proof -
  have "\<exists>cmd. commandOf c (plainCobra c) name = Some cmd \<and> acceptsArgs (CmdArgs cmd) args"
    if "commandOf c scriptCobra name = Some cmd'" "acceptsArgs (CmdArgs cmd') args" for name cmd' args
    using that commandOf_policy [of c "plainCobra c" name scriptCobra] by (cases "commandOf c (plainCobra c) name") auto
  then show ?thesis
    by (auto simp: lawfulCobra_def plainCobra_def split: list.splits option.splits if_splits)
qed

text \<open>A plugin with a readable file, in a cluster that first has no experiment and then a succeeded one.\<close>

definition waitingCli :: "bool cli" where
  "waitingCli = \<lparr>cAbs = (\<lambda>p w. (Inr p, w)), cStatIsDir = (\<lambda>p w. (Inr True, w)),
     cReadDir = (\<lambda>p w. (Inr [], w)), cReadFile = (\<lambda>p w. (Inr ''yaml'', w)),
     cWriteFile = (\<lambda>p x w. (None, w)), cCreateFile = (\<lambda>p w. (None, w)), cFlushFile = (\<lambda>p x w. (None, w)),
     cMkdirAll = (\<lambda>p w. (None, w)), cRandRead = (\<lambda>w. (Inr [163, 242, 193], w)),
     cNow = (\<lambda>w. (0, w)), cClientConfig = (\<lambda>p w. (Inr \<lparr>Host = ''h''\<rparr>, w)), cBuildScheme = (\<lambda>x w. (None, w)),
     cNewClient = (\<lambda>x w. (None, w)), cNewForConfig = (\<lambda>x w. (None, w)), cCreateTyped = (\<lambda>x n y w. (None, w)),
     cCreate = (\<lambda>x y w. (Inr y, True)), cGetConfigMap = (\<lambda>x n y w. (Inl (GoErr NotFound ''none''), w)),
     cGetExperiment = (\<lambda>x n y w. (if w then Inr doneExperiment else noExperiment y, w)), cListExperiments = (\<lambda>x n w. (Inr [], w)),
     cYamlExperiment = (\<lambda>x. Inr listedExperiment), cYamlIntoMap = (\<lambda>x u. Inr u), cJsonError = (\<lambda>x. errorf ''invalid character'')\<rparr>"

definition waitingRun :: "nat option \<times> bool kst" where
  "waitingRun = run (mainPlugin waitingCli (plainCobra waitingCli) [''run'', ''e.yaml''] [Tick, Done]) \<lparr>world = False, calls = []\<rparr>"
theorem plugin_ends_witness:
  "fst waitingRun = Some 0 \<or> fst waitingRun = Some 1"
  using plugin_ends [OF lawful_plainCobra prod.collapse [symmetric], of waitingCli "[''run'', ''e.yaml'']" "[Tick, Done]"
    "\<lparr>world = False, calls = []\<rparr>"] by (simp add: waitingRun_def)

text \<open>
  C37. An exit code of zero is true: \<open>kubectl ecoscape run --wait\<close> ends with 0 only if no experiment of that name could be
  read, this process has created it, and then, at a tick before any deadline and after it has only waited at all earlier ticks,
  has read it back in phase \<open>Succeeded\<close>.
\<close>

theorem plugin_exit_truthful:
  assumes "cbParse b argv = Invoked ''run'' fl args" "boolVar fl ''wait'' False"
    and "run (mainPlugin c b argv selects) s = (Some 0, s')"
  shows "\<exists>e client opts t s0 m1 m2 earlier rest s1 e'.
    extends s s0 \<and> newCalls s s0 = [(Get (kobjKey (OExperiment e)), False),
      (Create (OExperiment e), True), (Print m1, True), (Print m2, True)] \<and>
    selects = earlier @ Tick # rest \<and>
    run (waitLoop c client opts (ExpNamespace e) (ExpName e) t PhaseEmpty earlier) s0 = (Waiting, s1) \<and>
    fst (cGetExperiment c client (ExpNamespace e) (ExpName e) (world s1)) = Inr e' \<and> Phase (Status e') = PhaseSucceeded"
proof -
  obtain opts where opts: "RuWait opts" "run (runRun c opts selects) s = (Ended None, s')"
    using assms by (auto simp: mainPlugin_def commandOf_def command_defs runCommand_def goIndex_def run_simps RuWait_runFlags
        split: option.splits prod.splits ending.splits if_splits intro: that [rotated])
  from runRun_waits [OF opts(2,1)] waiting_truthful show ?thesis by metis
qed

lemma waitingRun_ok: "fst waitingRun = Some 0"
  by (simp add: waitingRun_def mainPlugin_def plainCobra_def scriptCobra_def commandOf_def command_defs runCommand_def goIndex_def runFlags_def
      stringVar_def boolVar_def durationVar_def runRun_def getConfigAndClients_def buildConfig_def newClients_def
      readExperiment_def createObject_def run_simps waitingCli_def silent_def request_def sayln_def say_def act_def Let_def
      noExperiment_def listedExperiment_def doneExperiment_def sampleExperiment_def idleStatus_def reportSucceeded_def sinceRounded_def)

theorem plugin_exit_truthful_witness:
  "\<exists>earlier rest (e :: Experiment) client w (e' :: Experiment). [Tick, Done] = earlier @ Tick # rest \<and>
     fst (cGetExperiment waitingCli client (ExpNamespace e) (ExpName e) w) = Inr e' \<and> Phase (Status e') = PhaseSucceeded"
proof -
  have r: "run (mainPlugin waitingCli (plainCobra waitingCli) [''run'', ''e.yaml''] [Tick, Done]) \<lparr>world = False, calls = []\<rparr> =
      (Some 0, snd waitingRun)"
    using waitingRun_ok unfolding waitingRun_def by (metis prod.collapse)
  have p: "cbParse (plainCobra waitingCli) [''run'', ''e.yaml''] = Invoked ''run'' [''wait'' \<mapsto> FBool True] [''e.yaml'']"
    by (simp add: plainCobra_def commandOf_def command_defs)
  have w: "boolVar [''wait'' \<mapsto> FBool True] ''wait'' False" by (simp add: boolVar_def)
  from plugin_exit_truthful [OF p w r] show ?thesis by blast
qed

end
