(* ===== verification/Operator.thy ===== *)
theory Operator
  imports Cli_Base
begin

text \<open>
  The operator process, \<open>cmd/main.go\<close>, and how the two reconcilers are registered with the controller manager
  (\<open>SetupWithManager\<close> in \<open>internal/controller\<close>): the flags, the options of the servers, and the sequence of
  start-up steps, each of which may fail. The calls into controller-runtime are the parameter \<open>boot\<close>.
\<close>

section \<open>Flags\<close>

record flags =
  metricsAddr :: string
  probeAddr :: string
  enableLeaderElection :: bool
  secureMetrics :: bool
  webhookCertPath :: string
  webhookCertName :: string
  webhookCertKey :: string
  metricsCertPath :: string
  metricsCertName :: string
  metricsCertKey :: string
  enableHTTP2 :: bool

definition defaultFlags :: flags where
  "defaultFlags = \<lparr>metricsAddr = ''0'', probeAddr = '':8081'', enableLeaderElection = False, secureMetrics = True,
     webhookCertPath = '''', webhookCertName = ''tls.crt'', webhookCertKey = ''tls.key'',
     metricsCertPath = '''', metricsCertName = ''tls.crt'', metricsCertKey = ''tls.key'', enableHTTP2 = False\<rparr>"

section \<open>Servers\<close>

text \<open>
  The part of a \<open>tls.Config\<close> the options set, and the options. A certificate watcher is known by its two files. The
  options of the two servers are appended to the same slice, of which the capacity is used up, so that each append
  makes a slice of its own.
\<close>

record tlsConfig =
  NextProtos :: "string list"
  GetCertificate :: "(string \<times> string) option"

datatype tlsOpt = DisableHTTP2 | WatchedCertificate "string \<times> string"

fun applyTlsOpt :: "tlsOpt \<Rightarrow> tlsConfig \<Rightarrow> tlsConfig" where
  "applyTlsOpt DisableHTTP2 c = c\<lparr>NextProtos := [''http/1.1'']\<rparr>"
| "applyTlsOpt (WatchedCertificate files) c = c\<lparr>GetCertificate := Some files\<rparr>"

definition initialTLS :: "flags \<Rightarrow> tlsOpt list" where
  "initialTLS f = (if \<not> enableHTTP2 f then [DisableHTTP2] else [])"

definition webhookFiles :: "flags \<Rightarrow> string \<times> string" where
  "webhookFiles f = (joinPath (webhookCertPath f) (webhookCertName f), joinPath (webhookCertPath f) (webhookCertKey f))"

definition metricsFiles :: "flags \<Rightarrow> string \<times> string" where
  "metricsFiles f = (joinPath (metricsCertPath f) (metricsCertName f), joinPath (metricsCertPath f) (metricsCertKey f))"

definition webhookTLS :: "flags \<Rightarrow> tlsOpt list" where
  "webhookTLS f = initialTLS f @ (if webhookCertPath f \<noteq> '''' then [WatchedCertificate (webhookFiles f)] else [])"

record metricsOptions =
  BindAddress :: string
  SecureServing :: bool
  MetricsTLS :: "tlsOpt list"
  Authenticated :: bool

definition metricsServerOptions :: "flags \<Rightarrow> metricsOptions" where
  "metricsServerOptions f = \<lparr>BindAddress = metricsAddr f, SecureServing = secureMetrics f,
     MetricsTLS = initialTLS f @ (if metricsCertPath f \<noteq> '''' then [WatchedCertificate (metricsFiles f)] else []),
     Authenticated = secureMetrics f\<rparr>"

section \<open>Registration of the reconcilers\<close>

text \<open>
  The predicate of the experiment controller looks at the generation, which the API server raises with every change
  of the specification and leaves alone when the status changes. The topology controller has no predicate.
\<close>

definition statusOnlyChanged :: "int \<Rightarrow> int \<Rightarrow> bool" where
  "statusOnlyChanged oldGeneration newGeneration \<longleftrightarrow> oldGeneration \<noteq> newGeneration"

record registration =
  RegKind :: string
  RegName :: string
  RegUpdates :: "(int \<Rightarrow> int \<Rightarrow> bool) option"

definition setupExperiment :: registration where
  "setupExperiment = \<lparr>RegKind = ''Experiment'', RegName = ''experiment'', RegUpdates = Some statusOnlyChanged\<rparr>"

definition setupTopology :: registration where
  "setupTopology = \<lparr>RegKind = ''Topology'', RegName = ''topology'', RegUpdates = None\<rparr>"

section \<open>Start-up\<close>

record managerOptions =
  MgrScheme :: "string list"
  Metrics :: metricsOptions
  WebhookTLS :: "tlsOpt list"
  HealthProbeBindAddress :: string
  LeaderElection :: bool
  LeaderElectionID :: string

datatype bootCall =
    NewCertWatcher "string \<times> string"
  | GetConfig
  | NewManager managerOptions
  | Register registration
  | AddCertWatcher "string \<times> string"
  | AddHealthzCheck string
  | AddReadyzCheck string
  | StartManager

record 'w bst =
  bootWorld :: 'w
  bootLog :: "(bootCall \<times> bool) list"

type_synonym 'w boot = "bootCall \<Rightarrow> 'w \<Rightarrow> goerr option \<times> 'w"

text \<open>The scheme of the manager: the kinds of client-go and those of this repository.\<close>

definition managerScheme :: "string list \<Rightarrow> string list" where
  "managerScheme clientgoKinds = clientgoKinds @ registeredKinds"

definition managerOptionsOf :: "string list \<Rightarrow> flags \<Rightarrow> managerOptions" where
  "managerOptionsOf clientgoKinds f = \<lparr>MgrScheme = managerScheme clientgoKinds, Metrics = metricsServerOptions f,
     WebhookTLS = webhookTLS f, HealthProbeBindAddress = probeAddr f, LeaderElection = enableLeaderElection f,
     LeaderElectionID = ''e6d78414.cau-se.de''\<rparr>"

definition bootStep :: "'w boot \<Rightarrow> bootCall \<Rightarrow> ('w bst, goerr option) state" where
  "bootStep k c = State (\<lambda>s. case k c (bootWorld s) of
     (err, w) \<Rightarrow> (err, \<lparr>bootWorld = w, bootLog = bootLog s @ [(c, err = None)]\<rparr>))"

text \<open>\<open>if err != nil { os.Exit(1) }\<close>; the result is the exit code.\<close>

definition orExit :: "'w boot \<Rightarrow> bootCall \<Rightarrow> ('w bst, nat) state \<Rightarrow> ('w bst, nat) state" where
  "orExit k c rest = do {
     err \<leftarrow> bootStep k c;
     case err of Some e \<Rightarrow> ret 1 | None \<Rightarrow> rest
   }"

definition mainOperator :: "'w boot \<Rightarrow> string list \<Rightarrow> flags \<Rightarrow> ('w bst, nat) state" where
  "mainOperator k clientgoKinds f =
     (let webhook = (webhookCertPath f \<noteq> ''''); metrics = (metricsCertPath f \<noteq> '''') in
      (if webhook then orExit k (NewCertWatcher (webhookFiles f)) else id) (
      (if metrics then orExit k (NewCertWatcher (metricsFiles f)) else id) (
      orExit k GetConfig (
      orExit k (NewManager (managerOptionsOf clientgoKinds f)) (
      orExit k (Register setupExperiment) (
      orExit k (Register setupTopology) (
      (if metrics then orExit k (AddCertWatcher (metricsFiles f)) else id) (
      (if webhook then orExit k (AddCertWatcher (webhookFiles f)) else id) (
      orExit k (AddHealthzCheck ''healthz'') (
      orExit k (AddReadyzCheck ''readyz'') (
      orExit k StartManager (
      ret 0))))))))))))"

section \<open>Start-up as a list of steps\<close>

text \<open>The specification: the steps in their order, and going through them up to the first that fails.\<close>

definition startup :: "string list \<Rightarrow> flags \<Rightarrow> bootCall list" where
  "startup clientgoKinds f =
     (if webhookCertPath f \<noteq> '''' then [NewCertWatcher (webhookFiles f)] else []) @
     (if metricsCertPath f \<noteq> '''' then [NewCertWatcher (metricsFiles f)] else []) @
     [GetConfig, NewManager (managerOptionsOf clientgoKinds f), Register setupExperiment, Register setupTopology] @
     (if metricsCertPath f \<noteq> '''' then [AddCertWatcher (metricsFiles f)] else []) @
     (if webhookCertPath f \<noteq> '''' then [AddCertWatcher (webhookFiles f)] else []) @
     [AddHealthzCheck ''healthz'', AddReadyzCheck ''readyz'', StartManager]"

fun bootAll :: "'w boot \<Rightarrow> bootCall list \<Rightarrow> ('w bst, nat) state" where
  "bootAll k [] = ret 0"
| "bootAll k (c # cs) = orExit k c (bootAll k cs)"

lemma main_bootAll: "mainOperator k clientgoKinds f = bootAll k (startup clientgoKinds f)"
  by (simp add: mainOperator_def startup_def Let_def)

lemma bootAll_log:
  "run (bootAll k cs) s = (r, s') \<Longrightarrow>
   \<exists>n \<le> length cs. bootLog s' = bootLog s @ map (\<lambda>c. (c, True)) (take n cs) @ (if r = 0 then [] else [(cs ! n, False)]) \<and>
     (if r = 0 then n = length cs else r = 1 \<and> n < length cs)"
proof (induction cs arbitrary: s)
  case (Cons c cs)
  obtain err w where k: "k c (bootWorld s) = (err, w)" by force
  show ?case
  proof (cases err)
    case None
    with Cons.prems k have "run (bootAll k cs) \<lparr>bootWorld = w, bootLog = bootLog s @ [(c, True)]\<rparr> = (r, s')"
      by (simp add: orExit_def bootStep_def run_simps)
    from Cons.IH [OF this] obtain n where n: "n \<le> length cs" and
      l: "bootLog s' = bootLog s @ (c, True) # map (\<lambda>c. (c, True)) (take n cs) @ (if r = 0 then [] else [(cs ! n, False)])"
      "if r = 0 then n = length cs else r = 1 \<and> n < length cs" by auto
    then show ?thesis by (intro exI [of _ "Suc n"]) (auto split: if_splits)
  next
    case (Some e)
    with Cons.prems k show ?thesis by (intro exI [of _ 0]) (auto simp: orExit_def bootStep_def run_simps)
  qed
qed (simp add: run_simps)


section \<open>Properties\<close>

text \<open>
  C40. The manager is started last and only when all is in place: the process goes through the steps of its flags in
  order, stops with exit code 1 at the first that fails, and returns with 0 only after every step, the run of
  the manager among them, has succeeded.
\<close>

theorem operator_starts_when_ready:
  assumes "run (mainOperator k clientgoKinds f) s = (code, s')"
  shows "\<exists>n \<le> length (startup clientgoKinds f).
    bootLog s' = bootLog s @ map (\<lambda>c. (c, True)) (take n (startup clientgoKinds f)) @
      (if code = 0 then [] else [(startup clientgoKinds f ! n, False)]) \<and>
    (if code = 0 then n = length (startup clientgoKinds f) else code = 1 \<and> n < length (startup clientgoKinds f))"
  using bootAll_log [of k "startup clientgoKinds f" s code s'] assms unfolding main_bootAll .

definition noCertificate :: "unit boot" where
  "noCertificate c w = (case c of NewCertWatcher files \<Rightarrow> (Some (errorf ''no such file''), w) | _ \<Rightarrow> (None, w))"

theorem operator_starts_when_ready_witness:
  "\<exists>n. map fst (bootLog (snd (run (mainOperator noCertificate [''ConfigMap''] (defaultFlags\<lparr>webhookCertPath := ''/c''\<rparr>))
      \<lparr>bootWorld = (), bootLog = []\<rparr>))) = take n (startup [''ConfigMap''] (defaultFlags\<lparr>webhookCertPath := ''/c''\<rparr>)) @ [NewCertWatcher (''/c/tls.crt'', ''/c/tls.key'')]"
proof -
  let ?f = "defaultFlags\<lparr>webhookCertPath := ''/c''\<rparr>"
  let ?m = "run (mainOperator noCertificate [''ConfigMap''] ?f) \<lparr>bootWorld = (), bootLog = []\<rparr>"
  have files: "webhookFiles ?f = (''/c/tls.crt'', ''/c/tls.key'')" by code_simp
  have one: "fst ?m = 1" and log: "bootLog (snd ?m) = [(NewCertWatcher (webhookFiles ?f), False)]"
    by (simp_all add: mainOperator_def orExit_def bootStep_def noCertificate_def run_simps Let_def)
  have "?m = (1, snd ?m)" using one by (metis prod.collapse)
  from operator_starts_when_ready [OF this] log files show ?thesis by (intro exI [of _ 0]) simp
qed

text \<open>
  The servers get what the flags say: HTTP/2 is off on both unless it is asked for, and each server presents the
  certificate of its own files if a path is given, never that of the other.
\<close>

theorem servers_configured:
  "fold applyTlsOpt (webhookTLS f) base =
     \<lparr>NextProtos = (if enableHTTP2 f then NextProtos base else [''http/1.1'']),
      GetCertificate = (if webhookCertPath f = '''' then GetCertificate base else Some (webhookFiles f))\<rparr> \<and>
   fold applyTlsOpt (MetricsTLS (metricsServerOptions f)) base =
     \<lparr>NextProtos = (if enableHTTP2 f then NextProtos base else [''http/1.1'']),
      GetCertificate = (if metricsCertPath f = '''' then GetCertificate base else Some (metricsFiles f))\<rparr>"
  by (cases base) (simp add: webhookTLS_def metricsServerOptions_def initialTLS_def)

end
