(* ===== verification/Deep_Copies_Api.thy ===== *)
theory Deep_Copies_Api
  imports Deep_Copies
begin

text \<open>
  The rest of \<open>zz_generated.deepcopy.go\<close>: the structs without slices and pointers, the results of a repetition, the
  lists of objects, \<open>DeepCopy\<close> of every struct, and \<open>DeepCopyObject\<close>, by which the Kubernetes libraries copy an object
  of any kind through the interface \<open>runtime.Object\<close>.
\<close>

section \<open>Structs without parts\<close>

text \<open>The generated body is the assignment \<open>*out = *in\<close>.\<close>

definition ManifestRef_DeepCopyInto :: "ManifestRef \<Rightarrow> cell mem \<Rightarrow> (ManifestRef \<times> cell mem) option" where
  "ManifestRef_DeepCopyInto s m = Some (s, m)"

definition SLOConfig_DeepCopyInto :: "SLOConfig \<Rightarrow> cell mem \<Rightarrow> (SLOConfig \<times> cell mem) option" where
  "SLOConfig_DeepCopyInto s m = Some (s, m)"

definition ZoneCPUSpec_DeepCopyInto :: "ZoneCPUSpec \<Rightarrow> cell mem \<Rightarrow> (ZoneCPUSpec \<times> cell mem) option" where
  "ZoneCPUSpec_DeepCopyInto s m = Some (s, m)"

definition ZoneDiskSpec_DeepCopyInto :: "ZoneDiskSpec \<Rightarrow> cell mem \<Rightarrow> (ZoneDiskSpec \<times> cell mem) option" where
  "ZoneDiskSpec_DeepCopyInto s m = Some (s, m)"

definition ZoneMemorySpec_DeepCopyInto :: "ZoneMemorySpec \<Rightarrow> cell mem \<Rightarrow> (ZoneMemorySpec \<times> cell mem) option" where
  "ZoneMemorySpec_DeepCopyInto s m = Some (s, m)"

definition ZoneStatus_DeepCopyInto :: "ZoneStatus \<Rightarrow> cell mem \<Rightarrow> (ZoneStatus \<times> cell mem) option" where
  "ZoneStatus_DeepCopyInto s m = Some (s, m)"

lemmas flat_copies = ManifestRef_DeepCopyInto_def SLOConfig_DeepCopyInto_def ZoneCPUSpec_DeepCopyInto_def
  ZoneDiskSpec_DeepCopyInto_def ZoneMemorySpec_DeepCopyInto_def ZoneStatus_DeepCopyInto_def

lemma flat_deep_copy:
  assumes "\<And>r m. dup r m = Some (r, m)"
  shows "deep_copy (\<lambda>m r. Some r) (\<lambda>m r. {}) dup"
proof -
  have "dup = (\<lambda>r m. Some (r, m))" using assms by (simp add: fun_eq_iff)
  then show ?thesis using deep_copy_flat by simp
qed

interpretation manifestRefStructs: deep_copy "\<lambda>m r. Some r" "\<lambda>m r. {}" ManifestRef_DeepCopyInto
  by (rule flat_deep_copy) (simp add: flat_copies)

interpretation sloConfigStructs: deep_copy "\<lambda>m r. Some r" "\<lambda>m r. {}" SLOConfig_DeepCopyInto
  by (rule flat_deep_copy) (simp add: flat_copies)

interpretation zoneCPUSpecStructs: deep_copy "\<lambda>m r. Some r" "\<lambda>m r. {}" ZoneCPUSpec_DeepCopyInto
  by (rule flat_deep_copy) (simp add: flat_copies)

interpretation zoneDiskSpecStructs: deep_copy "\<lambda>m r. Some r" "\<lambda>m r. {}" ZoneDiskSpec_DeepCopyInto
  by (rule flat_deep_copy) (simp add: flat_copies)

interpretation zoneMemorySpecStructs: deep_copy "\<lambda>m r. Some r" "\<lambda>m r. {}" ZoneMemorySpec_DeepCopyInto
  by (rule flat_deep_copy) (simp add: flat_copies)

interpretation zoneStatusStructs: deep_copy "\<lambda>m r. Some r" "\<lambda>m r. {}" ZoneStatus_DeepCopyInto
  by (rule flat_deep_copy) (simp add: flat_copies)

section \<open>The result of a repetition\<close>

record MemRepetition =
  RepetitionFields :: RepetitionResult
  RepSloResultsAt :: slice

definition loadRepetition :: "cell mem \<Rightarrow> MemRepetition \<Rightarrow> RepetitionResult option" where
  "loadRepetition m s = do {
     sloResults \<leftarrow> loadEach unpackResult loadResult m (RepSloResultsAt s);
     Some ((RepetitionFields s)\<lparr>RepSloResults := sloResults\<rparr>)
   }"

definition footRepetition :: "cell mem \<Rightarrow> MemRepetition \<Rightarrow> nat set" where
  "footRepetition m s = footEach unpackResult footResult m (RepSloResultsAt s)"

definition RepetitionResult_DeepCopyInto :: "MemRepetition \<Rightarrow> cell mem \<Rightarrow> (MemRepetition \<times> cell mem) option" where
  "RepetitionResult_DeepCopyInto s m = do {
     (sloResults, m) \<leftarrow> copyEach ArrResult unpackResult zeroResult SLOResult_DeepCopyInto (RepSloResultsAt s) m;
     Some (s\<lparr>RepSloResultsAt := sloResults\<rparr>, m)
   }"

interpretation repetitions: deep_copy loadRepetition footRepetition RepetitionResult_DeepCopyInto
  by (rule deep_copy_via [OF sloResultsEach.each.deep_copy_axioms,
      where refs = "\<lambda>s. RepSloResultsAt s"
        and mk = "\<lambda>s sloResults. (RepetitionFields s)\<lparr>RepSloResults := sloResults\<rparr>"
        and put = "\<lambda>s sloResults. s\<lparr>RepSloResultsAt := sloResults\<rparr>"])
    (simp_all add: loadRepetition_def footRepetition_def RepetitionResult_DeepCopyInto_def one_simps)

section \<open>Zero values of the objects\<close>

definition zeroExperimentSpec :: ExperimentSpec where
  "zeroExperimentSpec = \<lparr>Duration = \<lparr>LoadDelay = None, EvalDelay = None, TopologyDelay = None, ChaosDelay = None,
       MeasurementDuration = None, Repetitions = 0, PauseBetweenRepetitions = 0, MeasurementSampleInterval = None\<rparr>,
     Manifests = \<lparr>Sut = None, Load = None, Infra = None, Monitor = None\<rparr>, ExpTopologyRef = None, ChaosPhaseRef = None,
     Prometheus = \<lparr>URL = '''', QueryTimeoutSeconds = None\<rparr>, SLOs = []\<rparr>"

definition zeroExperimentStatus :: ExperimentStatus where
  "zeroExperimentStatus = \<lparr>Phase = PhaseEmpty, SubPhase = SubPhaseIdle, SubPhaseStartTime = None, SubPhaseDuration = 0,
     SubPhaseElapsed = 0, MeasurementState = [], ExperimentID = '''', StTopologyRef = '''', StartTime = None,
     CompletionTime = None, RepetitionsCompleted = 0, ManifestConfigMaps = [], SloResults = [], AggregateScore = None,
     Conditions = []\<rparr>"

definition zeroExperiment :: MemExperiment where
  "zeroExperiment = \<lparr>
     ExperimentFields = \<lparr>ExpName = '''', ExpNamespace = '''', ExpCreationTimestamp = 0, Spec = zeroExperimentSpec,
       Status = zeroExperimentStatus\<rparr>,
     SpecIn = \<lparr>SpecFields = zeroExperimentSpec,
       DurationIn = \<lparr>DurationFields = Duration zeroExperimentSpec, LoadDelayAt = None, EvalDelayAt = None,
         TopologyDelayAt = None, ChaosDelayAt = None, MeasurementDurationAt = None, MeasurementSampleIntervalAt = None\<rparr>,
       ManifestsIn = \<lparr>ManifestsFields = Manifests zeroExperimentSpec, SutAt = None, LoadAt = None, InfraAt = None,
         MonitorAt = None\<rparr>,
       TopologyRefAt = None, ChaosPhaseRefAt = None,
       PrometheusIn = \<lparr>PrometheusFields = Prometheus zeroExperimentSpec, QueryTimeoutSecondsAt = None\<rparr>, SLOsAt = NilSlice\<rparr>,
     StatusIn = \<lparr>StatusFields = zeroExperimentStatus, SubPhaseStartTimeAt = None, MeasurementStateAt = NilSlice,
       StartTimeAt = None, CompletionTimeAt = None, ManifestConfigMapsAt = NilSlice, SloResultsAt = NilSlice,
       AggregateScoreAt = None, ConditionsAt = NilSlice\<rparr>\<rparr>"

definition zeroTopology :: MemTopology where
  "zeroTopology =
     (let spec = \<lparr>Zones = [], Links = [], Active = False\<rparr>;
          status = \<lparr>TopPhase = TopologyPhaseEmpty, ObservedGeneration = 0, TopZones = [], NetworkChaosRefs = [], TopConditions = []\<rparr>
      in \<lparr>TopologyFields = \<lparr>TopName = '''', TopNamespace = '''', Generation = 0, DeletionTimestamp = None, Finalizers = [],
            TopSpec = spec, TopStatus = status\<rparr>,
          TopSpecIn = \<lparr>TopologySpecFields = spec, ZonesAt = NilSlice, LinksAt = NilSlice\<rparr>,
          TopStatusIn = \<lparr>TopologyStatusFields = status, TopZonesAt = NilSlice, NetworkChaosRefsAt = NilSlice,
            TopConditionsAt = NilSlice\<rparr>\<rparr>)"

definition zeroChaosPhase :: MemChaosPhase where
  "zeroChaosPhase =
     (let spec = \<lparr>CpTopologyRef = '''', Faults = []\<rparr>
      in \<lparr>ChaosPhaseFields = \<lparr>CpName = '''', CpNamespace = '''', CpSpec = spec\<rparr>,
          CpSpecIn = \<lparr>ChaosPhaseSpecFields = spec, FaultsAt = NilSlice\<rparr>\<rparr>)"

section \<open>Lists of objects\<close>

text \<open>The items; the metadata of the list is the library's.\<close>

record MemExperimentList =
  ExperimentItemsAt :: slice

interpretation experimentEach: kind_of_copies ArrExperiment unpackExperiment loadExperiment footExperiment Experiment_DeepCopyInto zeroExperiment
  by unfold_locales

definition loadExperimentList :: "cell mem \<Rightarrow> MemExperimentList \<Rightarrow> Experiment list option" where
  "loadExperimentList m s = loadEach unpackExperiment loadExperiment m (ExperimentItemsAt s)"

definition footExperimentList :: "cell mem \<Rightarrow> MemExperimentList \<Rightarrow> nat set" where
  "footExperimentList m s = footEach unpackExperiment footExperiment m (ExperimentItemsAt s)"

definition ExperimentList_DeepCopyInto :: "MemExperimentList \<Rightarrow> cell mem \<Rightarrow> (MemExperimentList \<times> cell mem) option" where
  "ExperimentList_DeepCopyInto s m = do {
     (items, m) \<leftarrow> copyEach ArrExperiment unpackExperiment zeroExperiment Experiment_DeepCopyInto (ExperimentItemsAt s) m;
     Some (s\<lparr>ExperimentItemsAt := items\<rparr>, m)
   }"

interpretation experimentLists: deep_copy loadExperimentList footExperimentList ExperimentList_DeepCopyInto
  by (rule deep_copy_via [OF experimentEach.each.deep_copy_axioms,
      where refs = "\<lambda>s. ExperimentItemsAt s" and mk = "\<lambda>s items. items" and put = "\<lambda>s items. s\<lparr>ExperimentItemsAt := items\<rparr>"])
    (simp_all add: loadExperimentList_def footExperimentList_def ExperimentList_DeepCopyInto_def one_simps option.map_ident)

record MemTopologyList =
  TopologyItemsAt :: slice

interpretation topologyEach: kind_of_copies ArrTopology unpackTopology loadTopology footTopology Topology_DeepCopyInto zeroTopology
  by unfold_locales

definition loadTopologyList :: "cell mem \<Rightarrow> MemTopologyList \<Rightarrow> Topology list option" where
  "loadTopologyList m s = loadEach unpackTopology loadTopology m (TopologyItemsAt s)"

definition footTopologyList :: "cell mem \<Rightarrow> MemTopologyList \<Rightarrow> nat set" where
  "footTopologyList m s = footEach unpackTopology footTopology m (TopologyItemsAt s)"

definition TopologyList_DeepCopyInto :: "MemTopologyList \<Rightarrow> cell mem \<Rightarrow> (MemTopologyList \<times> cell mem) option" where
  "TopologyList_DeepCopyInto s m = do {
     (items, m) \<leftarrow> copyEach ArrTopology unpackTopology zeroTopology Topology_DeepCopyInto (TopologyItemsAt s) m;
     Some (s\<lparr>TopologyItemsAt := items\<rparr>, m)
   }"

interpretation topologyLists: deep_copy loadTopologyList footTopologyList TopologyList_DeepCopyInto
  by (rule deep_copy_via [OF topologyEach.each.deep_copy_axioms,
      where refs = "\<lambda>s. TopologyItemsAt s" and mk = "\<lambda>s items. items" and put = "\<lambda>s items. s\<lparr>TopologyItemsAt := items\<rparr>"])
    (simp_all add: loadTopologyList_def footTopologyList_def TopologyList_DeepCopyInto_def one_simps option.map_ident)

record MemChaosPhaseList =
  ChaosPhaseItemsAt :: slice

interpretation chaosPhaseEach: kind_of_copies ArrChaosPhase unpackChaosPhase loadChaosPhase footChaosPhase ChaosPhase_DeepCopyInto zeroChaosPhase
  by unfold_locales

definition loadChaosPhaseList :: "cell mem \<Rightarrow> MemChaosPhaseList \<Rightarrow> ChaosPhase list option" where
  "loadChaosPhaseList m s = loadEach unpackChaosPhase loadChaosPhase m (ChaosPhaseItemsAt s)"

definition footChaosPhaseList :: "cell mem \<Rightarrow> MemChaosPhaseList \<Rightarrow> nat set" where
  "footChaosPhaseList m s = footEach unpackChaosPhase footChaosPhase m (ChaosPhaseItemsAt s)"

definition ChaosPhaseList_DeepCopyInto :: "MemChaosPhaseList \<Rightarrow> cell mem \<Rightarrow> (MemChaosPhaseList \<times> cell mem) option" where
  "ChaosPhaseList_DeepCopyInto s m = do {
     (items, m) \<leftarrow> copyEach ArrChaosPhase unpackChaosPhase zeroChaosPhase ChaosPhase_DeepCopyInto (ChaosPhaseItemsAt s) m;
     Some (s\<lparr>ChaosPhaseItemsAt := items\<rparr>, m)
   }"

interpretation chaosPhaseLists: deep_copy loadChaosPhaseList footChaosPhaseList ChaosPhaseList_DeepCopyInto
  by (rule deep_copy_via [OF chaosPhaseEach.each.deep_copy_axioms,
      where refs = "\<lambda>s. ChaosPhaseItemsAt s" and mk = "\<lambda>s items. items" and put = "\<lambda>s items. s\<lparr>ChaosPhaseItemsAt := items\<rparr>"])
    (simp_all add: loadChaosPhaseList_def footChaosPhaseList_def ChaosPhaseList_DeepCopyInto_def one_simps option.map_ident)

section \<open>DeepCopy\<close>

definition ChaosPhaseSpec_DeepCopy :: "MemChaosPhaseSpec option \<Rightarrow> cell mem \<Rightarrow> (MemChaosPhaseSpec option \<times> cell mem) option" where
  "ChaosPhaseSpec_DeepCopy = deepCopyOf ChaosPhaseSpec_DeepCopyInto"

definition DurationConfig_DeepCopy :: "MemDuration option \<Rightarrow> cell mem \<Rightarrow> (MemDuration option \<times> cell mem) option" where
  "DurationConfig_DeepCopy = deepCopyOf DurationConfig_DeepCopyInto"

definition ExperimentSpec_DeepCopy :: "MemSpec option \<Rightarrow> cell mem \<Rightarrow> (MemSpec option \<times> cell mem) option" where
  "ExperimentSpec_DeepCopy = deepCopyOf ExperimentSpec_DeepCopyInto"

definition ExperimentStatus_DeepCopy :: "MemStatus option \<Rightarrow> cell mem \<Rightarrow> (MemStatus option \<times> cell mem) option" where
  "ExperimentStatus_DeepCopy = deepCopyOf ExperimentStatus_DeepCopyInto"

definition FaultSpec_DeepCopy :: "MemFault option \<Rightarrow> cell mem \<Rightarrow> (MemFault option \<times> cell mem) option" where
  "FaultSpec_DeepCopy = deepCopyOf FaultSpec_DeepCopyInto"

definition ManifestRef_DeepCopy :: "ManifestRef option \<Rightarrow> cell mem \<Rightarrow> (ManifestRef option \<times> cell mem) option" where
  "ManifestRef_DeepCopy = deepCopyOf ManifestRef_DeepCopyInto"

definition ManifestsConfig_DeepCopy :: "MemManifests option \<Rightarrow> cell mem \<Rightarrow> (MemManifests option \<times> cell mem) option" where
  "ManifestsConfig_DeepCopy = deepCopyOf ManifestsConfig_DeepCopyInto"

definition PrometheusConfig_DeepCopy :: "MemPrometheus option \<Rightarrow> cell mem \<Rightarrow> (MemPrometheus option \<times> cell mem) option" where
  "PrometheusConfig_DeepCopy = deepCopyOf PrometheusConfig_DeepCopyInto"

definition RepetitionResult_DeepCopy :: "MemRepetition option \<Rightarrow> cell mem \<Rightarrow> (MemRepetition option \<times> cell mem) option" where
  "RepetitionResult_DeepCopy = deepCopyOf RepetitionResult_DeepCopyInto"

definition SLOConfig_DeepCopy :: "SLOConfig option \<Rightarrow> cell mem \<Rightarrow> (SLOConfig option \<times> cell mem) option" where
  "SLOConfig_DeepCopy = deepCopyOf SLOConfig_DeepCopyInto"

definition SLOMeasurementState_DeepCopy :: "MemState option \<Rightarrow> cell mem \<Rightarrow> (MemState option \<times> cell mem) option" where
  "SLOMeasurementState_DeepCopy = deepCopyOf SLOMeasurementState_DeepCopyInto"

definition SLOResult_DeepCopy :: "MemResult option \<Rightarrow> cell mem \<Rightarrow> (MemResult option \<times> cell mem) option" where
  "SLOResult_DeepCopy = deepCopyOf SLOResult_DeepCopyInto"

definition TopologySpec_DeepCopy :: "MemTopologySpec option \<Rightarrow> cell mem \<Rightarrow> (MemTopologySpec option \<times> cell mem) option" where
  "TopologySpec_DeepCopy = deepCopyOf TopologySpec_DeepCopyInto"

definition TopologyStatus_DeepCopy :: "MemTopologyStatus option \<Rightarrow> cell mem \<Rightarrow> (MemTopologyStatus option \<times> cell mem) option" where
  "TopologyStatus_DeepCopy = deepCopyOf TopologyStatus_DeepCopyInto"

definition ZoneCPUSpec_DeepCopy :: "ZoneCPUSpec option \<Rightarrow> cell mem \<Rightarrow> (ZoneCPUSpec option \<times> cell mem) option" where
  "ZoneCPUSpec_DeepCopy = deepCopyOf ZoneCPUSpec_DeepCopyInto"

definition ZoneDiskSpec_DeepCopy :: "ZoneDiskSpec option \<Rightarrow> cell mem \<Rightarrow> (ZoneDiskSpec option \<times> cell mem) option" where
  "ZoneDiskSpec_DeepCopy = deepCopyOf ZoneDiskSpec_DeepCopyInto"

definition ZoneLinkSpec_DeepCopy :: "MemLink option \<Rightarrow> cell mem \<Rightarrow> (MemLink option \<times> cell mem) option" where
  "ZoneLinkSpec_DeepCopy = deepCopyOf ZoneLinkSpec_DeepCopyInto"

definition ZoneMemorySpec_DeepCopy :: "ZoneMemorySpec option \<Rightarrow> cell mem \<Rightarrow> (ZoneMemorySpec option \<times> cell mem) option" where
  "ZoneMemorySpec_DeepCopy = deepCopyOf ZoneMemorySpec_DeepCopyInto"

definition ZoneSpec_DeepCopy :: "MemZone option \<Rightarrow> cell mem \<Rightarrow> (MemZone option \<times> cell mem) option" where
  "ZoneSpec_DeepCopy = deepCopyOf ZoneSpec_DeepCopyInto"

definition ZoneStatus_DeepCopy :: "ZoneStatus option \<Rightarrow> cell mem \<Rightarrow> (ZoneStatus option \<times> cell mem) option" where
  "ZoneStatus_DeepCopy = deepCopyOf ZoneStatus_DeepCopyInto"

definition ChaosPhaseList_DeepCopy :: "MemChaosPhaseList option \<Rightarrow> cell mem \<Rightarrow> (MemChaosPhaseList option \<times> cell mem) option" where
  "ChaosPhaseList_DeepCopy = deepCopyOf ChaosPhaseList_DeepCopyInto"

definition ExperimentList_DeepCopy :: "MemExperimentList option \<Rightarrow> cell mem \<Rightarrow> (MemExperimentList option \<times> cell mem) option" where
  "ExperimentList_DeepCopy = deepCopyOf ExperimentList_DeepCopyInto"

definition TopologyList_DeepCopy :: "MemTopologyList option \<Rightarrow> cell mem \<Rightarrow> (MemTopologyList option \<times> cell mem) option" where
  "TopologyList_DeepCopy = deepCopyOf TopologyList_DeepCopyInto"

section \<open>Objects of any kind\<close>

text \<open>The interface \<open>runtime.Object\<close>: which struct it holds. The copy of nil is nil.\<close>

datatype runtimeObject =
    ObjExperiment MemExperiment
  | ObjExperimentList MemExperimentList
  | ObjTopology MemTopology
  | ObjTopologyList MemTopologyList
  | ObjChaosPhase MemChaosPhase
  | ObjChaosPhaseList MemChaosPhaseList

definition asObject :: "('r \<Rightarrow> runtimeObject) \<Rightarrow> ('r option \<times> cell mem) option \<Rightarrow> (runtimeObject option \<times> cell mem) option" where
  "asObject wrap copy = map_option (\<lambda>(c, m). (map_option wrap c, m)) copy"

definition Experiment_DeepCopyObject :: "MemExperiment option \<Rightarrow> cell mem \<Rightarrow> (runtimeObject option \<times> cell mem) option" where
  "Experiment_DeepCopyObject object m = asObject ObjExperiment (Experiment_DeepCopy object m)"

definition ExperimentList_DeepCopyObject :: "MemExperimentList option \<Rightarrow> cell mem \<Rightarrow> (runtimeObject option \<times> cell mem) option" where
  "ExperimentList_DeepCopyObject object m = asObject ObjExperimentList (ExperimentList_DeepCopy object m)"

definition Topology_DeepCopyObject :: "MemTopology option \<Rightarrow> cell mem \<Rightarrow> (runtimeObject option \<times> cell mem) option" where
  "Topology_DeepCopyObject object m = asObject ObjTopology (Topology_DeepCopy object m)"

definition TopologyList_DeepCopyObject :: "MemTopologyList option \<Rightarrow> cell mem \<Rightarrow> (runtimeObject option \<times> cell mem) option" where
  "TopologyList_DeepCopyObject object m = asObject ObjTopologyList (TopologyList_DeepCopy object m)"

definition ChaosPhase_DeepCopyObject :: "MemChaosPhase option \<Rightarrow> cell mem \<Rightarrow> (runtimeObject option \<times> cell mem) option" where
  "ChaosPhase_DeepCopyObject object m = asObject ObjChaosPhase (ChaosPhase_DeepCopy object m)"

definition ChaosPhaseList_DeepCopyObject :: "MemChaosPhaseList option \<Rightarrow> cell mem \<Rightarrow> (runtimeObject option \<times> cell mem) option" where
  "ChaosPhaseList_DeepCopyObject object m = asObject ObjChaosPhaseList (ChaosPhaseList_DeepCopy object m)"

text \<open>The call through the interface.\<close>

fun DeepCopyObject :: "runtimeObject \<Rightarrow> cell mem \<Rightarrow> (runtimeObject option \<times> cell mem) option" where
  "DeepCopyObject (ObjExperiment x) m = Experiment_DeepCopyObject (Some x) m"
| "DeepCopyObject (ObjExperimentList x) m = ExperimentList_DeepCopyObject (Some x) m"
| "DeepCopyObject (ObjTopology x) m = Topology_DeepCopyObject (Some x) m"
| "DeepCopyObject (ObjTopologyList x) m = TopologyList_DeepCopyObject (Some x) m"
| "DeepCopyObject (ObjChaosPhase x) m = ChaosPhase_DeepCopyObject (Some x) m"
| "DeepCopyObject (ObjChaosPhaseList x) m = ChaosPhaseList_DeepCopyObject (Some x) m"

text \<open>The value of an object, and the memory it occupies.\<close>

datatype apiObject =
    AnExperiment Experiment
  | Experiments "Experiment list"
  | ATopology Topology
  | Topologies "Topology list"
  | AChaosPhase ChaosPhase
  | ChaosPhases "ChaosPhase list"

fun loadObject :: "cell mem \<Rightarrow> runtimeObject \<Rightarrow> apiObject option" where
  "loadObject m (ObjExperiment x) = map_option AnExperiment (loadExperiment m x)"
| "loadObject m (ObjExperimentList x) = map_option Experiments (loadExperimentList m x)"
| "loadObject m (ObjTopology x) = map_option ATopology (loadTopology m x)"
| "loadObject m (ObjTopologyList x) = map_option Topologies (loadTopologyList m x)"
| "loadObject m (ObjChaosPhase x) = map_option AChaosPhase (loadChaosPhase m x)"
| "loadObject m (ObjChaosPhaseList x) = map_option ChaosPhases (loadChaosPhaseList m x)"

fun footObject :: "cell mem \<Rightarrow> runtimeObject \<Rightarrow> nat set" where
  "footObject m (ObjExperiment x) = footExperiment m x"
| "footObject m (ObjExperimentList x) = footExperimentList m x"
| "footObject m (ObjTopology x) = footTopology m x"
| "footObject m (ObjTopologyList x) = footTopologyList m x"
| "footObject m (ObjChaosPhase x) = footChaosPhase m x"
| "footObject m (ObjChaosPhaseList x) = footChaosPhaseList m x"

lemma isolated_asObject:
  assumes "isolatedCopy load foot x v copy"
    and "\<And>m r. loadObject m (wrap r) = map_option what (load m r)" "\<And>m r. footObject m (wrap r) = foot m r"
  shows "isolatedCopy loadObject footObject (wrap x) (what v) (asObject wrap copy)"
  using assms(1) by (auto simp: isolatedCopy_def asObject_def assms(2,3))

lemmas object_copies = Experiment_DeepCopyObject_def Experiment_DeepCopy_def
  ExperimentList_DeepCopyObject_def ExperimentList_DeepCopy_def
  Topology_DeepCopyObject_def Topology_DeepCopy_def
  TopologyList_DeepCopyObject_def TopologyList_DeepCopy_def
  ChaosPhase_DeepCopyObject_def ChaosPhase_DeepCopy_def
  ChaosPhaseList_DeepCopyObject_def ChaosPhaseList_DeepCopy_def

lemmas objects_isolated = isolated_asObject [OF experiments.isolated loadObject.simps(1) footObject.simps(1)]
  isolated_asObject [OF experimentLists.isolated loadObject.simps(2) footObject.simps(2)]
  isolated_asObject [OF topologies.isolated loadObject.simps(3) footObject.simps(3)]
  isolated_asObject [OF topologyLists.isolated loadObject.simps(4) footObject.simps(4)]
  isolated_asObject [OF chaosPhases.isolated loadObject.simps(5) footObject.simps(5)]
  isolated_asObject [OF chaosPhaseLists.isolated loadObject.simps(6) footObject.simps(6)]

section \<open>Property\<close>

text \<open>
  C23. Whatever object of the API group the libraries or a reconciler copy, single or in a list, the copy has the value of the
  original, is of the same kind, shares no memory with it, and keeps its value whatever is written to other memory later.
\<close>

theorem api_copies_isolated:
  assumes "loadObject m object = Some v"
  shows "isolatedCopy loadObject footObject object v (DeepCopyObject object m)"
  using assms by (cases object) (auto simp: object_copies intro!: objects_isolated)

definition samplePhaseList :: "runtimeObject" where
  "samplePhaseList = ObjChaosPhaseList \<lparr>ChaosPhaseItemsAt = Slice 2 1\<rparr>"

theorem api_copies_isolated_witness:
  "\<exists>phases. map CpName phases = [''cp''] \<and> isolatedCopy loadObject footObject samplePhaseList (ChaosPhases phases)
     (DeepCopyObject samplePhaseList (samplePhaseMemory @ [ArrChaosPhase [samplePhasePlace]]))"
proof -
  obtain phases where l: "loadObject (samplePhaseMemory @ [ArrChaosPhase [samplePhasePlace]]) samplePhaseList = Some (ChaosPhases phases)"
    and f: "map CpName phases = [''cp'']"
    by (auto simp: loadChaosPhaseList_def loadChaosPhase_def loadChaosPhaseSpec_def loadEach_def loadFault_def samplePhasePlace_def
        samplePhaseMemory_def samplePhaseList_def readArray_def unpackFault_def unpackString_def unpackChaosPhase_def zeroFault_def)
  show ?thesis by (intro exI [of _ phases] conjI f api_copies_isolated l)
qed

end
