(* ===== verification/Spec2Isabelle.thy ===== *)
theory Spec2Isabelle
  imports Experiment_Results Measurement_Memory Topology_Handshake Cli_Root Operator Deep_Copies_Api
begin

text \<open>
  Ecoscape is a Kubernetes operator that runs reliability experiments: it deploys a system under test, lets it run
  in a simulated multi-zone network, injects faults, measures service level objectives with Prometheus and stores
  what it measured. A kubectl plugin prepares, starts and reads experiments. This development models the operator's two
  reconcilers with all they call, and the commands of the plugin.

  The parts of the program and their theories

  \<^item> \<open>api/v1alpha1/*_types.go\<close>, the custom resources. Theory \<open>Api_Types\<close>: one record per struct, one datatype per
    enumeration of strings (with a constructor for a string outside it where the code can meet one). A pointer
    with \<open>omitempty\<close> is an option, \<open>int32\<close> is a 32 bit word read as signed, \<open>float64\<close> the type of \<open>Go_Float\<close>.
  \<^item> \<open>internal/controller/experiment_controller.go\<close>, the experiment reconciler. \<open>Measurement\<close> has the aggregation
    of values and \<open>buildRepetitionResult\<close>, \<open>Results\<close> the two ConfigMaps that are appended to,
    \<open>Prometheus_Client\<close> the query, \<open>Experiment_Base\<close> the helpers (\<open>setSubPhase\<close>, \<open>elapsedSeconds\<close>,
    \<open>failExperiment\<close>, \<open>setPhase\<close>, \<open>applyManifestSet\<close>, \<open>cleanup\<close>, \<open>activateTopology\<close>), \<open>Experiment_Ctl\<close> one
    definition per handler, \<open>dispatchSubPhase\<close> and \<open>Reconcile\<close>.
  \<^item> \<open>api/v1alpha1/zz_generated.deepcopy.go\<close>, the deep copies: \<open>Deep_Copies\<close> and \<open>Deep_Copies_Api\<close>, on the memory of
    \<open>Go_Memory\<close> (arrays at addresses, slices and pointers into them, \<open>append\<close>). The first has the objects and their parts, the
    second lists, \<open>DeepCopy\<close> of every type and the interface method \<open>DeepCopyObject\<close>. \<open>Measurement_Memory\<close> has the measurement of the reconciler on this
    memory, where the code updates the states of the status in place.
  \<^item> \<open>internal/controller/manifest.go\<close>, deployment and removal of the manifests in a ConfigMap: \<open>Manifests\<close>.
  \<^item> \<open>internal/controller/chaosphase.go\<close>, the faults of a chaos phase as Chaos Mesh objects: \<open>Chaos\<close>.
  \<^item> \<open>internal/controller/topology_controller.go\<close>, the topology reconciler: \<open>Topology_Ctl\<close> (its \<open>Reconcile\<close> is
    \<open>ReconcileTopology\<close>, its \<open>setPhase\<close> is \<open>setTopologyPhase\<close>). \<open>Naming\<close> holds the names and references both
    controllers build and split.
  \<^item> \<open>cmd/kubectl-ecoscape\<close>, the plugin: \<open>Cli_Base\<close> has \<open>client.go\<close> and the plugin's surroundings, \<open>Cli_Commands\<close> the
    commands \<open>bundle\<close>, \<open>init\<close>, \<open>list\<close> and \<open>run\<close>, \<open>Cli_Results\<close> the command \<open>results\<close>. \<open>Cli_Root\<close> is the
    process: \<open>main.go\<close>, \<open>completion.go\<close>, and the \<open>new...Command\<close> functions with flags and arguments, up to the exit code.
  \<^item> \<open>api/v1alpha1/groupversion_info.go\<close> and the \<open>init\<close> functions beside it, the API group and its registered kinds:
    \<open>Api_Scheme\<close>. The client of the plugin and the manager of the operator take their scheme from it.
  \<^item> \<open>cmd/main.go\<close>, the operator process, and both \<open>SetupWithManager\<close>: \<open>Operator\<close>. Flags, the options of the two servers,
    and the sequence of start-up steps.
  \<^item> What these use of Go's standard library: \<open>Eco_Prelude\<close> (strings, \<open>fmt\<close>, errors), \<open>Go_Float\<close> (\<open>float64\<close>),
    \<open>Go_Strconv\<close> (\<open>ParseFloat\<close> and the shortest decimal), \<open>Go_Json\<close> (\<open>json.Marshal\<close>, \<open>MarshalIndent\<close>), \<open>Go_Json_Read\<close> and
    \<open>Go_Json_Decode\<close> (\<open>json.Unmarshal\<close>: grammar, then typed values), \<open>Go_Json_Layout\<close> (the reader inverts the writer),
    \<open>Cli_Text\<close> (durations, paths, \<open>text/tabwriter\<close>, \<open>encoding/csv\<close>).

  The experiment reconciler switches a topology on and off by patching \<open>spec.active\<close> and waits for the status the
  topology reconciler writes; the names of what is to be cleaned up travel from one reconcile to the next in the
  status, in one list for owned ConfigMaps and chaos references.

  How the state is modelled

  \<open>Kube_Client\<close> has the API server, Prometheus, the clock and the random source as one record \<open>env\<close> of functions over
  an arbitrary state \<open>'w\<close> of the outside world: any answer to any request is possible, and the answers may depend on
  all that went before. A handler is a state monad over \<open>kst\<close>, the world and the list of calls made so far, each
  with a flag that tells whether it succeeded. The flag and the order of the calls are what the properties speak about.
  A Go panic is the outcome \<open>Panicked\<close>, in the plugin the ending \<open>Crashed\<close>; an error is a value. Go maps are association lists whose iteration order the
  world chooses. What third-party libraries compute (decoding of YAML, parsing of quantities) are
  fields of \<open>env\<close>, too, and so is the wording of JSON errors. \<open>float64\<close> is rounding to nearest even on rationals, with
  infinities, NaN and signed zeros. The plugin has a record of the same kind, \<open>cli\<close>, for files, client-go and the clock,
  and \<open>cobra\<close> for the parsing of its command line.
  The one loop of the program that may not end, \<open>for { select }\<close> in \<open>run\<close>, is a function of the list of what its selects
  receive; \<open>Waiting\<close> is that it still waits at the end of the list. Its indexing of slices is \<open>goIndex\<close>, which has no value out of
  range; a pointer that may be nil is an option, and is read only where the code has compared it with nil.

  What the lemmas show

  \<^item> Life cycle. \<open>Lifecycle\<close> states what an experiment may do as a transition relation on phase, sub-phase, repetitions
    and number of measured objectives; locale \<open>guarded_system\<close> gives reachability and invariants, \<open>ranked_system\<close> a
    bound on the number of moves. \<open>Experiment_Refines\<close> shows that every handler patches the status at most once and
    by a transition (\<open>patchesOnce\<close>), and never panics where the invariant holds (\<open>noPanic\<close>). \<open>Experiment_Spec\<close> draws
    the properties of whole runs: refinement, invariant, no panic, at most \<open>10 * N + 11\<close> changes of stage for \<open>N\<close>
    repetitions, terminal phases, identity of the run, and which objects are recorded and removed. \<open>Experiment_Results\<close> shows
    that the numbers of an experiment stay values of \<open>float64\<close>, and with it that a repetition is counted only when a document has
    been stored that reads back with its result.
  \<^item> Memory. Locale \<open>deep_copy\<close> is the contract of a deep copy: the value of the original, in memory that was not there
    before. Sublocales give it for pointers, slices and slices of copied elements, \<open>deep_copy_via\<close> for structs, and there is
    one interpretation per type; together they give the contract of a copy through \<open>runtime.Object\<close>. With it, measuring in place is shown equal to measuring on values.
  \<^item> Topology. \<open>Topology_Spec\<close>: what activation, deactivation and deletion ask of the API server (\<open>networkObject\<close> says which objects
    a topology stands for, without the functions of the code), that status is
    sound, that resources need the finalizer, and what a failed activation leaves behind. \<open>Topology_Handshake\<close> composes the two
    reconcilers: what the waiting experiment makes of the status the topology reconciler has sent.
  \<^item> Chaos and manifests. Completeness of the references, and that removal asks for all that was created; the cases in
    which something is missed are theorems, too. Locale \<open>fixed_calls\<close> is the contract of a removal that goes through a
    list whatever the single deletions answer; it is interpreted for owned manifests, chaos references and
    network objects. Locale \<open>reference\<close> is the contract of a name that is built and split.
  \<^item> Measurement. Locale \<open>strict_choice\<close> is folding with a strict order; minimum and maximum are its instances. The
    aggregates equal those of the list of values, the result of a repetition reports them (\<open>resultReports\<close>), scores are bounded where
    the threshold is positive.
  \<^item> Results. Appending keeps what was stored: the document written decodes to the earlier results and the new one, to
    the bit. This rests on \<open>read_layout\<close> (any layout of a document is read as its value; both printers are layouts),
    \<open>parse_jsonFloat\<close> (the shortest decimal of a binary64 value parses to it) and the lemmas in \<open>float_types\<close> (every
    operation yields a binary64 value). The error case of values JSON cannot express is a theorem.
  \<^item> Plugin. \<open>Cli_Spec\<close>: what \<open>bundle\<close> and \<open>init\<close> create, that \<open>run\<close> creates once, and that its loop waits no longer
    than its deadline and reports truthfully. \<open>Cli_Root\<close> lifts this to the exit code of the process. \<open>Cli_Results\<close>: what the operator stored is what is shown, the CSV export is complete and readable
    when its writes succeed (\<open>expectedFiles\<close>, \<open>filesAfter\<close>), and the command cannot work with the scheme of its client.
  \<^item> Operator process. The start-up is the list of its steps up to the first that fails; each server gets the TLS options
    of its own flags.

  Bounds. The loops of the code run over lists and need no fuel. \<open>shortest\<close> searches at most 1074 decimal places, which
  \<open>shortest_ok\<close> shows to be enough. The exponents \<open>readExp\<close> accepts are cut off where Go's are; \<open>readExp_written\<close> shows that
  what is written stays below. \<open>elapsed_whole_seconds\<close> and \<open>timed_wait_decides\<close> are stated for up to 48 days (\<open>2 ^ 22\<close>
  seconds), where seconds as \<open>float64\<close> keep the nanoseconds apart from the next whole second; beyond that the rounding of
  \<open>Duration.Seconds\<close> may round up.

  Not modelled: the parsing of command lines and the text of completion scripts (cobra's), help texts, log messages, and the charts, samples,
  tests and Python tools. All handlers but the measurement on memory treat objects as values: the base of a patch is a deep
  copy, taken where the definitions take it, and apart from the measurement states the handlers write fields of the
  object and append to its own slices only, which \<open>isolatedCopy\<close> keeps apart from the copy. What the server answers to a write
  is left out where the code does not look at it: the controllers use no field of an object they have written that the server
  might have changed, except that \<open>ensureOwnedConfigMap\<close> shares the map of the source with the object it writes, so that a server
  that changes the data it stores would change what is deployed; it is taken to store the data as sent. Standard output is taken to accept what is printed, and strings to be
  valid UTF-8.
\<close>


section \<open>Across the components\<close>

text \<open>
  C30. The reason of a failure reaches the user: when the operator fails an experiment, and \<open>run --wait\<close> then reads the
  experiment with the status the operator sent, the command ends with an error that carries the operator's message.
\<close>

theorem failure_reason_reaches_cli:
  assumes "run (failExperiment k experiment err) s = (out, s')"
    and "(StatusPatch (OExperiment sent) base, b) \<in> set (newCalls s s')"
    and "fst (cGetExperiment c client ns name (world t)) = Inr e" "Status e = Status sent"
  shows "fst (run (waitLoop c client opts ns name begin lastPhase (Tick # rest)) t) =
    Ended (Some (errorf (''experiment3 failed: '' @ err_msg err)))"
proof -
  have "emits (\<lambda>(call, b). \<forall>sent base. call = StatusPatch (OExperiment sent) base \<longrightarrow>
      Phase (Status sent) = PhaseFailed \<and> lastMessage (Status sent) = Some (err_msg err)) (failExperiment k experiment err)"
    unfolding failExperiment_def setPhase_def patchStatus_def Let_def
    by (intro trace_intro emits_perform) (simp add: withStatus_def lastMessage_value)
  from emits_newCalls [OF this assms(1)] assms(2,4) have e: "Phase (Status e) = PhaseFailed" "lastMessage (Status e) = Some (err_msg err)"
    by (auto simp: list_all_iff)
  obtain w where g: "cGetExperiment c client ns name (world t) = (Inr e, w)" using assms(3) by (metis prod.collapse)
  show ?thesis
    by (simp add: readExperiment_def request_def g run_simps e reportFailed_def sinceRounded_def sayln_def say_def act_def Let_def
        split: prod.split)
qed

definition failedRun :: "outcome \<times> unit kst" where
  "failedRun = run (failExperiment (controlWorld idleStatus 0) (sampleExperiment idleStatus) (errorf ''boom'')) start"

definition failedExperiment :: Experiment where
  "failedExperiment = sampleExperiment (idleStatus\<lparr>Phase := PhaseFailed, Conditions := [\<lparr>CondType = ''Completed'', CondStatus = True,
     LastTransitionTime = 0, CondReason = ''Failed'', CondMessage = ''boom''\<rparr>]\<rparr>)"

theorem failure_reason_reaches_cli_witness:
  "fst (run (waitLoop (sampleCli (\<lambda>n. Inr failedExperiment)) \<lparr>RcConfig = \<lparr>Host = ''h''\<rparr>, RcScheme = []\<rparr> newRunOptions ''x'' ''e'' 0
     (PhaseOther '''') [Tick]) start) = Ended (Some (errorf ''experiment3 failed: boom''))"
proof -
  have r: "run (failExperiment (controlWorld idleStatus 0) (sampleExperiment idleStatus) (errorf ''boom'')) start = (fst failedRun, snd failedRun)"
    by (simp add: failedRun_def)
  have p: "(StatusPatch (OExperiment failedExperiment) (OExperiment (sampleExperiment idleStatus)), True)
      \<in> set (newCalls start (snd failedRun))"
    by (simp add: failedRun_def failExperiment_def setPhase_def patchStatus_def perform_def run_simps start_def newCalls_def now_def
        silent_def controlWorld_def sampleWorld_def emptyWorld_def withStatus_def sampleExperiment_def failedExperiment_def idleStatus_def
        errorf_def Let_def)
  have g: "fst (cGetExperiment (sampleCli (\<lambda>n. Inr failedExperiment)) \<lparr>RcConfig = \<lparr>Host = ''h''\<rparr>, RcScheme = []\<rparr> ''x'' ''e'' (world start)) =
    Inr failedExperiment" by (simp add: sampleCli_def)
  show ?thesis using failure_reason_reaches_cli [OF r p g refl] by (simp add: errorf_def)
qed

end
